(* ===== verification/Go_Prelude.thy ===== *)
theory Go_Prelude
  imports Main "HOL-Library.Word"
begin

text \<open>
  The Go language and standard library, as far as the repository uses them: machine
  integers, error values with \<open>%w\<close> wrapping and \<open>errors.Is\<close>, results of calls that
  return \<open>(value, error)\<close> or panic, loops that stop at the first error, and the
  decimal conversions of \<open>strconv\<close> and \<open>math/big\<close>. Nothing here is specific to the
  repository; every other theory imports it.
\<close>

section \<open>Machine integers\<close>

type_synonym int32 = "32 word"
type_synonym int64 = "64 word"

text \<open>
  The conversion \<open>int64(x)\<close> of a 32-bit value is \<open>scast\<close>; \<open>sint\<close> reads a value as the
  signed number Go computes with.
\<close>

definition int64_of_int32 :: "int32 \<Rightarrow> int64" where
  "int64_of_int32 x = scast x"

definition int64_of_len :: "nat \<Rightarrow> int64" where
  "int64_of_len n = word_of_nat n"

lemma sint_int64_of_int32 [simp]: "sint (int64_of_int32 x) = sint x"
  unfolding int64_of_int32_def
  by (rule sint_up_scast) (simp add: is_up)

lemma sint_int32_bounds: "- (2 ^ 31) \<le> sint (x :: int32)" "sint (x :: int32) < 2 ^ 31"
  using sint_greater_eq [of x] sint_less [of x] by simp_all

lemma int64_of_int32_inj: "int64_of_int32 x = int64_of_int32 y \<longleftrightarrow> x = y"
  by (metis sint_int64_of_int32 signed_word_eqI)

section \<open>Errors\<close>

text \<open>
  The package-level error variables that the code compares with \<open>errors.Is\<close> or returns
  by name. The first belongs to pkg/indexer, the second to pkg/storage, the others to the
  SDK and to the standard library's context package.
\<close>

datatype sentinel =
    errMissingTransaction
  | errNotImplemented
  | ErrHeadBlockNotFound
  | ErrCoinNotFound
  | ErrAccountMissing
  | ErrOrphanHead
  | ContextCanceled

text \<open>
  An error value is a sentinel, a plain \<open>errors.New\<close> or \<open>fmt.Errorf\<close> text, or a
  \<open>fmt.Errorf\<close> with one \<open>%w\<close>: the text before it, the wrapped error, the text after it.
\<close>

datatype go_error =
    Sentinel sentinel
  | New string
  | Wrapf string go_error string

primrec errors_Is :: "go_error \<Rightarrow> sentinel \<Rightarrow> bool" where
  "errors_Is (Sentinel s) t = (s = t)"
| "errors_Is (New m) t = False"
| "errors_Is (Wrapf p e q) t = errors_Is e t"

primrec error_text :: "(sentinel \<Rightarrow> string) \<Rightarrow> go_error \<Rightarrow> string" where
  "error_text txt (Sentinel s) = txt s"
| "error_text txt (New m) = m"
| "error_text txt (Wrapf p e q) = p @ error_text txt e @ q"

section \<open>Results of calls\<close>

text \<open>
  A call returns normally, returns a non-nil error, or does not return: it panics or
  ends the process (\<open>logger.Fatalf\<close>).
\<close>

datatype go_panic = NilDereference | CloseOfClosedChannel | InvalidWriteHeader | ProcessExit

datatype 'a go = Ok 'a | Err go_error | Panic go_panic

primrec gbind :: "'a go \<Rightarrow> ('a \<Rightarrow> 'b go) \<Rightarrow> 'b go" where
  "gbind (Ok x) f = f x"
| "gbind (Err e) f = Err e"
| "gbind (Panic p) f = Panic p"

text \<open>\<open>if err != nil { return nil, fmt.Errorf(...) }\<close>\<close>

primrec map_err :: "(go_error \<Rightarrow> go_error) \<Rightarrow> 'a go \<Rightarrow> 'a go" where
  "map_err f (Ok x) = Ok x"
| "map_err f (Err e) = Err (f e)"
| "map_err f (Panic p) = Panic p"

text \<open>
  The same where one argument of the message is read through a pointer: it is read only
  when the message is built.
\<close>

primrec wrap_ptr :: "string \<Rightarrow> string option \<Rightarrow> string \<Rightarrow> 'a go \<Rightarrow> 'a go" where
  "wrap_ptr pre ptr post (Ok x) = Ok x"
| "wrap_ptr pre ptr post (Err e) =
     (case ptr of None \<Rightarrow> Panic NilDereference | Some i \<Rightarrow> Err (Wrapf [] e (pre @ i @ post)))"
| "wrap_ptr pre ptr post (Panic p) = Panic p"

text \<open>Reading through a pointer that may be nil.\<close>

primrec deref :: "'a option \<Rightarrow> 'a go" where
  "deref None = Panic NilDereference"
| "deref (Some x) = Ok x"

primrec is_ok :: "'a go \<Rightarrow> bool" where
  "is_ok (Ok x) = True"
| "is_ok (Err e) = False"
| "is_ok (Panic p) = False"

primrec is_panic :: "'a go \<Rightarrow> bool" where
  "is_panic (Ok x) = False"
| "is_panic (Err e) = False"
| "is_panic (Panic p) = True"

lemma gbind_Ok_iff [simp]: "gbind m f = Ok y \<longleftrightarrow> (\<exists>x. m = Ok x \<and> f x = Ok y)"
  by (cases m) auto

lemma gbind_Err_iff: "gbind m f = Err e \<longleftrightarrow> m = Err e \<or> (\<exists>x. m = Ok x \<and> f x = Err e)"
  by (cases m) auto

lemma gbind_Panic_iff: "gbind m f = Panic p \<longleftrightarrow> m = Panic p \<or> (\<exists>x. m = Ok x \<and> f x = Panic p)"
  by (cases m) auto

lemma map_err_Ok_iff [simp]: "map_err f m = Ok y \<longleftrightarrow> m = Ok y"
  by (cases m) auto

lemma map_err_Panic_iff [simp]: "map_err f m = Panic p \<longleftrightarrow> m = Panic p"
  by (cases m) auto

lemma map_err_Err_iff: "map_err f m = Err e \<longleftrightarrow> (\<exists>e'. m = Err e' \<and> e = f e')"
  by (cases m) auto

lemma wrap_ptr_Ok_iff [simp]: "wrap_ptr a p b m = Ok y \<longleftrightarrow> m = Ok y"
  by (cases m) (auto split: option.splits)

lemma wrap_ptr_Some_Panic_iff [simp]: "wrap_ptr a (Some i) b m = Panic q \<longleftrightarrow> m = Panic q"
  by (cases m) auto

lemma deref_Ok_iff [simp]: "deref p = Ok x \<longleftrightarrow> p = Some x"
  by (cases p) auto

lemma deref_Panic_iff [simp]: "deref p = Panic q \<longleftrightarrow> p = None \<and> q = NilDereference"
  by (cases p) auto

lemma deref_not_Err [simp]: "deref p \<noteq> Err e"
  by (cases p) auto

lemma is_ok_iff: "is_ok m \<longleftrightarrow> (\<exists>x. m = Ok x)"
  by (cases m) auto

lemma is_panic_iff: "is_panic m \<longleftrightarrow> (\<exists>p. m = Panic p)"
  by (cases m) auto

lemma is_panic_gbind [simp]:
  "is_panic (gbind m f) \<longleftrightarrow> is_panic m \<or> (\<exists>x. m = Ok x \<and> is_panic (f x))"
  by (cases m) auto

lemma is_panic_map_err [simp]: "is_panic (map_err f m) = is_panic m"
  by (cases m) auto

section \<open>Loops that stop at the first error\<close>

text \<open>A \<open>for\<close> loop that fills one result per element.\<close>

primrec gmapM :: "('a \<Rightarrow> 'b go) \<Rightarrow> 'a list \<Rightarrow> 'b list go" where
  "gmapM f [] = Ok []"
| "gmapM f (x # xs) = gbind (f x) (\<lambda>y. gbind (gmapM f xs) (\<lambda>ys. Ok (y # ys)))"

text \<open>A \<open>for\<close> loop that updates a state.\<close>

primrec gfold :: "('a \<Rightarrow> 's \<Rightarrow> 's go) \<Rightarrow> 'a list \<Rightarrow> 's \<Rightarrow> 's go" where
  "gfold f [] s = Ok s"
| "gfold f (x # xs) s = gbind (f x s) (gfold f xs)"

lemma gmapM_Ok_iff: "gmapM f xs = Ok ys \<longleftrightarrow> list_all2 (\<lambda>x y. f x = Ok y) xs ys"
  by (induction xs arbitrary: ys) (auto simp: list_all2_Cons1)

lemma gmapM_Ok_length: "gmapM f xs = Ok ys \<Longrightarrow> length ys = length xs"
  by (auto simp: gmapM_Ok_iff dest: list_all2_lengthD)

lemma gmapM_enumerate_Ok_iff:
  "gmapM f (List.enumerate n xs) = Ok ys \<longleftrightarrow>
     length ys = length xs \<and> (\<forall>k < length xs. f (n + k, xs ! k) = Ok (ys ! k))"
  by (auto simp: gmapM_Ok_iff list_all2_conv_all_nth nth_enumerate_eq)

lemma gmapM_total: "(\<And>x. x \<in> set xs \<Longrightarrow> f x = Ok (g x)) \<Longrightarrow> gmapM f xs = Ok (map g xs)"
  by (induction xs) auto

lemma gfold_append: "gfold f (xs @ ys) s = gbind (gfold f xs s) (gfold f ys)"
proof (induction xs arbitrary: s)
  case Nil
  show ?case by simp
next
  case (Cons x xs)
  then show ?case by (cases "f x s") simp_all
qed

lemma gfold_invariant:
  assumes "gfold f xs s = Ok s'" and "P s"
    and "\<And>x s s'. x \<in> set xs \<Longrightarrow> P s \<Longrightarrow> f x s = Ok s' \<Longrightarrow> P s'"
  shows "P s'"
  using assms
proof (induction xs arbitrary: s)
  case Nil
  then show ?case by simp
next
  case (Cons x xs)
  from Cons.prems(1) obtain t where t: "f x s = Ok t" and rest: "gfold f xs t = Ok s'"
    by auto
  have "P t" by (rule Cons.prems(3) [OF _ Cons.prems(2) t]) simp
  with rest show ?case by (rule Cons.IH) (auto intro: Cons.prems(3))
qed

section \<open>State\<close>

text \<open>
  A method that changes the state behind its receiver: the result of the call and the state
  it leaves, also when it returns an error or panics.
\<close>

type_synonym ('s, 'a) stm = "'s \<Rightarrow> 'a go \<times> 's"

definition sret :: "'a \<Rightarrow> ('s, 'a) stm" where
  "sret x s = (Ok x, s)"

definition sgo :: "'a go \<Rightarrow> ('s, 'a) stm" where
  "sgo m s = (m, s)"

definition supd :: "('s \<Rightarrow> 's) \<Rightarrow> ('s, unit) stm" where
  "supd f s = (Ok (), f s)"

definition sbind :: "('s, 'a) stm \<Rightarrow> ('a \<Rightarrow> ('s, 'b) stm) \<Rightarrow> ('s, 'b) stm" where
  "sbind m f s =
     (case m s of
        (Ok x, s') \<Rightarrow> f x s'
      | (Err e, s') \<Rightarrow> (Err e, s')
      | (Panic p, s') \<Rightarrow> (Panic p, s'))"

definition smap_err :: "(go_error \<Rightarrow> go_error) \<Rightarrow> ('s, 'a) stm \<Rightarrow> ('s, 'a) stm" where
  "smap_err f m s = (case m s of (r, s') \<Rightarrow> (map_err f r, s'))"

primrec sfor :: "('a \<Rightarrow> ('s, unit) stm) \<Rightarrow> 'a list \<Rightarrow> ('s, unit) stm" where
  "sfor f [] = sret ()"
| "sfor f (x # xs) = sbind (f x) (\<lambda>_. sfor f xs)"

lemma stm_simps [simp]:
  "sret x s = (Ok x, s)"
  "sgo m s = (m, s)"
  "supd f s = (Ok (), f s)"
  by (simp_all add: sret_def sgo_def supd_def)

lemma sbind_simps [simp]:
  "m s = (Ok x, s') \<Longrightarrow> sbind m f s = f x s'"
  "m s = (Err e, s') \<Longrightarrow> sbind m f s = (Err e, s')"
  "m s = (Panic p, s') \<Longrightarrow> sbind m f s = (Panic p, s')"
  by (simp_all add: sbind_def)

lemma sbind_sret [simp]: "sbind (sret x) f = f x"
  by (simp add: sbind_def fun_eq_iff)

lemma sbind_supd [simp]: "sbind (supd g) f s = f () (g s)"
  by simp

lemma sbind_sgo_Ok [simp]: "sbind (sgo (Ok x)) f = f x"
  by (simp add: sbind_def fun_eq_iff)

lemma smap_err_eq: "m s = (r, s') \<Longrightarrow> smap_err f m s = (map_err f r, s')"
  by (simp add: smap_err_def)

end
