(* ===== verification/Go_Decimal.thy ===== *)
theory Go_Decimal
  imports Go_Prelude
begin

text \<open>
  The decimal conversions of the standard library that the code uses:
  \<open>strconv.FormatInt(v, 10)\<close> and \<open>%d\<close> (\<open>show_int\<close>), \<open>big.Int.SetString(s, 10)\<close>
  (\<open>SetString\<close>), \<open>big.Int.Sign\<close> and \<open>strconv.Atoi\<close>. The main facts are that reading a
  printed number gives the number back and that printing is injective.
\<close>

section \<open>Printing\<close>

definition digit_char :: "nat \<Rightarrow> char" where
  "digit_char d = char_of (48 + d)"

fun show_nat :: "nat \<Rightarrow> string" where
  "show_nat n = (if n < 10 then [digit_char n] else show_nat (n div 10) @ [digit_char (n mod 10)])"

declare show_nat.simps [simp del]

definition show_int :: "int \<Rightarrow> string" where
  "show_int z = (if z < 0 then CHR ''-'' # show_nat (nat (- z)) else show_nat (nat z))"

section \<open>Reading\<close>

definition digit_val :: "char \<Rightarrow> nat option" where
  "digit_val c = (let n = of_char c in if 48 \<le> n \<and> n \<le> 57 then Some (n - 48) else None)"

fun read_digits :: "nat \<Rightarrow> string \<Rightarrow> nat option" where
  "read_digits acc [] = Some acc"
| "read_digits acc (c # cs) =
     (case digit_val c of None \<Rightarrow> None | Some d \<Rightarrow> read_digits (10 * acc + d) cs)"

definition read_nat :: "string \<Rightarrow> nat option" where
  "read_nat s = (if s = [] then None else read_digits 0 s)"

text \<open>
  \<open>new(big.Int).SetString(s, 10)\<close>: an optional sign and at least one decimal digit, with
  nothing left over; no separators, since the base is given.
\<close>

definition SetString :: "string \<Rightarrow> int option" where
  "SetString s =
     (case s of
        [] \<Rightarrow> None
      | c # cs \<Rightarrow>
          if c = CHR ''-'' then map_option (\<lambda>n. - int n) (read_nat cs)
          else if c = CHR ''+'' then map_option int (read_nat cs)
          else map_option int (read_nat s))"

text \<open>\<open>strconv.Atoi\<close> on a 64-bit platform: the same syntax, and the value must fit.\<close>

definition Atoi :: "string \<Rightarrow> int option" where
  "Atoi s =
     (case SetString s of
        None \<Rightarrow> None
      | Some z \<Rightarrow> if - (2 ^ 63) \<le> z \<and> z < 2 ^ 63 then Some z else None)"

section \<open>Reading what was printed\<close>

lemma digit_val_digit_char [simp]: "d < 10 \<Longrightarrow> digit_val (digit_char d) = Some d"
  by (simp add: digit_val_def digit_char_def)

lemma digit_char_not_sign: "d < 10 \<Longrightarrow> digit_char d \<noteq> CHR ''-'' \<and> digit_char d \<noteq> CHR ''+''"
  using digit_val_digit_char [of d] by (auto simp: digit_val_def)

lemma read_digits_append:
  "read_digits a (xs @ ys) = (case read_digits a xs of None \<Rightarrow> None | Some b \<Rightarrow> read_digits b ys)"
  by (induction xs arbitrary: a) (auto split: option.splits)

lemma show_nat_ne [simp]: "show_nat n \<noteq> []"
  by (subst show_nat.simps) simp

lemma read_digits_show_nat: "read_digits 0 (show_nat n) = Some n"
proof (induction n rule: show_nat.induct)
  case (1 n)
  then show ?case
    by (subst show_nat.simps) (auto simp: read_digits_append)
qed

lemma read_nat_show_nat [simp]: "read_nat (show_nat n) = Some n"
  by (simp add: read_nat_def read_digits_show_nat)

lemma hd_show_nat: "\<exists>d < 10. hd (show_nat n) = digit_char d"
proof (induction n rule: show_nat.induct)
  case (1 n)
  then show ?case
    by (subst show_nat.simps) auto
qed

lemma show_nat_not_sign:
  assumes "show_nat n = c # cs"
  shows "c \<noteq> CHR ''-'' \<and> c \<noteq> CHR ''+''"
  using hd_show_nat [of n] assms digit_char_not_sign by auto

lemma SetString_show_nat [simp]: "SetString (show_nat n) = Some (int n)"
proof (cases "show_nat n")
  case Nil
  then show ?thesis by simp
next
  case (Cons c cs)
  with show_nat_not_sign [OF Cons] read_nat_show_nat [of n] show ?thesis
    by (simp add: SetString_def)
qed

lemma SetString_show_int [simp]: "SetString (show_int z) = Some z"
proof (cases "z < 0")
  case True
  then show ?thesis by (simp add: show_int_def SetString_def)
next
  case False
  then show ?thesis by (simp add: show_int_def)
qed

lemma show_nat_digits: "c \<in> set (show_nat n) \<Longrightarrow> digit_val c \<noteq> None"
proof (induction n rule: show_nat.induct)
  case (1 n)
  then show ?case by (subst (asm) (2) show_nat.simps) (auto split: if_splits)
qed

lemma show_int_no_colon: "CHR '':'' \<notin> set (show_int z)"
  using show_nat_digits [of "CHR '':''"] by (auto simp: show_int_def digit_val_def)

lemma show_int_inj: "show_int a = show_int b \<longleftrightarrow> a = b"
  by (metis SetString_show_int option.inject)

lemma Atoi_show_int [simp]: "- (2 ^ 63) \<le> z \<Longrightarrow> z < 2 ^ 63 \<Longrightarrow> Atoi (show_int z) = Some z"
  by (simp add: Atoi_def)

end
