(* ===== verification/Ergo_Types.thy ===== *)
theory Ergo_Types
  imports Go_Decimal
begin

text \<open>
  The messages of the Ergo node's REST API that the code decodes (pkg/ergo/types, one file
  per type), with every field of the Go struct in its order. A pointer to a required
  object is an option, since a missing JSON member leaves it nil; an \<open>omitempty\<close> member is
  an option too. \<open>big.Int\<close> is \<open>int\<close>, a Go map is a partial function.
\<close>

section \<open>Blocks\<close>

record pow_solutions =
  ps_Pk :: string
  ps_W :: string
  ps_N :: string
  ps_D :: int

record block_header =
  bh_ID :: string
  bh_Timestamp :: int64
  bh_Version :: int32
  bh_AdProofsRoot :: string
  bh_StateRoot :: string
  bh_TransactionsRoot :: string
  bh_NBits :: int64
  bh_ExtensionHash :: string
  bh_PowSolutions :: "pow_solutions option"
  bh_Height :: int32
  bh_Difficulty :: string
  bh_ParentID :: string
  bh_Votes :: string
  bh_Size :: "int32 option"
  bh_ExtensionID :: "string option"
  bh_TransactionsID :: "string option"
  bh_AdProofsID :: "string option"

section \<open>Transactions\<close>

record asset =
  as_TokenID :: string
  as_Amount :: int64

record spending_proof =
  sp_ProofBytes :: string
  sp_Extension :: "string \<rightharpoonup> string"

record ergo_transaction_input =
  in_BoxID :: string
  in_SpendingProof :: "spending_proof option"
  in_Extension :: "(string \<rightharpoonup> string) option"

record ergo_transaction_data_input =
  di_BoxID :: string
  di_Extension :: "(string \<rightharpoonup> string) option"

record ergo_transaction_output =
  out_BoxID :: "string option"
  out_Value :: int64
  out_ErgoTree :: string
  out_CreationHeight :: int32
  out_Assets :: "asset list option"
  out_AdditionalRegisters :: "string \<rightharpoonup> string"
  out_TransactionID :: "string option"
  out_Index :: "int32 option"

record ergo_transaction =
  et_ID :: "string option"
  et_Inputs :: "ergo_transaction_input list option"
  et_DataInputs :: "ergo_transaction_data_input list option"
  et_Outputs :: "ergo_transaction_output list option"
  et_Size :: "int32 option"

record block_transactions =
  bt_HeaderID :: string
  bt_Transactions :: "ergo_transaction list option"
  bt_Size :: int32

record block_ad_proofs =
  ap_HeaderID :: string
  ap_ProofBytes :: string
  ap_Digest :: string
  ap_Size :: int32

record extension =
  ex_HeaderID :: string
  ex_Digest :: string
  ex_Fields :: "string list list option"

record full_block =
  fb_Header :: "block_header option"
  fb_BlockTransactions :: "block_transactions option"
  fb_AdProofs :: "block_ad_proofs option"
  fb_Extension :: "extension option"
  fb_Size :: int32

section \<open>Node, peers, addresses\<close>

record peer =
  pe_Address :: string
  pe_Name :: "string option"
  pe_LastSeen :: "int64 option"
  pe_ConnectionType :: "string option"

record address_holder =
  ah_Address :: string

record parameters =
  pa_Height :: int32
  pa_StorageFeeFactor :: int32
  pa_MinValuePerByte :: int32
  pa_MaxBlockSize :: int32
  pa_MaxBlockCost :: int32
  pa_BlockVersion :: int32
  pa_TokenAccessCost :: int32
  pa_InputCost :: int32
  pa_DataInputCost :: int32
  pa_OutputCost :: int32

record node_info =
  nd_Name :: string
  nd_AppVersion :: string
  nd_FullHeight :: int32
  nd_HeadersHeight :: int32
  nd_BestFullHeaderID :: string
  nd_PreviousFullHeaderID :: string
  nd_BestHeaderID :: string
  nd_StateRoot :: string
  nd_StateType :: string
  nd_StateVersion :: string
  nd_IsMining :: bool
  nd_PeersCount :: int32
  nd_UnconfirmedCount :: int32
  nd_Difficulty :: int
  nd_CurrentTime :: int64
  nd_LaunchTime :: int64
  nd_HeadersScore :: int
  nd_FullBlocksScore :: int
  nd_GenesisBlockID :: string
  nd_Parameters :: "parameters option"

section \<open>Well-formed transactions\<close>

text \<open>
  A transaction as the node sends it: its identifier, its inputs and its outputs are
  present, and every output carries its box identifier and its index. The code reads all
  of these without a nil test.
\<close>

definition wf_output :: "ergo_transaction_output \<Rightarrow> bool" where
  "wf_output o' \<longleftrightarrow> out_BoxID o' \<noteq> None \<and> out_Index o' \<noteq> None"

definition wf_tx :: "ergo_transaction \<Rightarrow> bool" where
  "wf_tx t \<longleftrightarrow>
     et_ID t \<noteq> None \<and>
     (case et_Inputs t of None \<Rightarrow> False | Some is \<Rightarrow> True) \<and>
     (case et_Outputs t of None \<Rightarrow> False | Some os \<Rightarrow> list_all wf_output os)"

definition tx_id :: "ergo_transaction \<Rightarrow> string" where
  "tx_id t = (case et_ID t of None \<Rightarrow> [] | Some i \<Rightarrow> i)"

definition tx_inputs :: "ergo_transaction \<Rightarrow> ergo_transaction_input list" where
  "tx_inputs t = (case et_Inputs t of None \<Rightarrow> [] | Some is \<Rightarrow> is)"

definition tx_outputs :: "ergo_transaction \<Rightarrow> ergo_transaction_output list" where
  "tx_outputs t = (case et_Outputs t of None \<Rightarrow> [] | Some os \<Rightarrow> os)"

definition out_id :: "ergo_transaction_output \<Rightarrow> string" where
  "out_id o' = (case out_BoxID o' of None \<Rightarrow> [] | Some i \<Rightarrow> i)"

definition created_ids :: "ergo_transaction \<Rightarrow> string list" where
  "created_ids t = map out_id (tx_outputs t)"

definition spent_ids :: "ergo_transaction \<Rightarrow> string list" where
  "spent_ids t = map in_BoxID (tx_inputs t)"

lemma wf_tx_fields:
  assumes "wf_tx t"
  shows "et_ID t = Some (tx_id t)" "et_Inputs t = Some (tx_inputs t)"
    "et_Outputs t = Some (tx_outputs t)" "list_all wf_output (tx_outputs t)"
  using assms
  by (auto simp: wf_tx_def tx_id_def tx_inputs_def tx_outputs_def split: option.splits)

lemma wf_output_id: "wf_output o' \<Longrightarrow> out_BoxID o' = Some (out_id o')"
  by (auto simp: wf_output_def out_id_def split: option.splits)

end
