(* ===== verification/Rosetta_Types.thy ===== *)
theory Rosetta_Types
  imports Ergo_Types
begin

text \<open>
  The Rosetta data the code builds and reads (the SDK's types package, the fields the
  repository uses), and the constants of pkg/rosetta/types.go and pkg/ergo/types.go.

  A Go pointer is an option where the code tests it against nil, reads through it without
  a test, or stores a pointer it was given (Account, Amount, CoinChange, Status,
  NetworkIndex). Identifiers that every constructor in the repository fills are stored by
  value.
\<close>

section \<open>Identifiers, amounts and coins\<close>

record block_identifier =
  bi_Index :: int64
  bi_Hash :: string

record partial_block_identifier =
  pbi_Index :: "int64 option"
  pbi_Hash :: "string option"

record network_identifier =
  ni_Blockchain :: string
  ni_Network :: string

record account_identifier =
  ai_Address :: string

record currency =
  cur_Symbol :: string
  cur_Decimals :: int32

record amount =
  am_Value :: string
  am_Currency :: currency

record coin_identifier =
  ci_Identifier :: string

record coin =
  co_CoinIdentifier :: coin_identifier
  co_Amount :: "amount option"

record account_coin =
  ac_Account :: "account_identifier option"
  ac_Coin :: coin

section \<open>Operations, transactions and blocks\<close>

text \<open>
  The coin action is a string type in Go with two named constants; any other string is
  representable.
\<close>

datatype coin_action = CoinCreated | CoinSpent | OtherAction string

record coin_change =
  cc_CoinIdentifier :: coin_identifier
  cc_CoinAction :: coin_action

record operation_identifier =
  oi_Index :: int64
  oi_NetworkIndex :: "int64 option"

record operation =
  op_OperationIdentifier :: operation_identifier
  op_RelatedOperations :: "operation_identifier list"
  op_Type :: string
  op_Status :: "string option"
  op_Account :: "account_identifier option"
  op_Amount :: "amount option"
  op_CoinChange :: "coin_change option"

record transaction_identifier =
  ti_Hash :: string

record transaction =
  tx_TransactionIdentifier :: transaction_identifier
  tx_Operations :: "operation list"

record block =
  bk_BlockIdentifier :: block_identifier
  bk_ParentBlockIdentifier :: block_identifier
  bk_Timestamp :: int64
  bk_Transactions :: "transaction list"

record operation_status =
  os_Status :: string
  os_Successful :: bool

text \<open>The metadata of a peer: the members of the JSON object, each as its JSON text.\<close>

record rosetta_peer =
  rp_PeerID :: string
  rp_Metadata :: "string \<rightharpoonup> string"

record block_response =
  br_Block :: block
  br_OtherTransactions :: "transaction_identifier list"

record network_status_response =
  ns_CurrentBlockIdentifier :: block_identifier
  ns_CurrentBlockTimestamp :: int64
  ns_GenesisBlockIdentifier :: block_identifier
  ns_Peers :: "rosetta_peer list"

section \<open>Constants of the Rosetta mapping\<close>

text \<open>
  The constants stand twice in the repository, in package rosetta (used by the converter) and
  in package ergo (used by the configuration, the asserters and the network options). Where
  the model uses both, the name of the ergo one has a prefix; those of package rosetta that
  nothing uses come after them with a prefix of theirs.
\<close>

definition genesisBlockIndex :: int64 where
  "genesisBlockIndex = 1"

definition Blockchain :: string where
  "Blockchain = ''Ergo''"

definition MainnetNetwork :: string where
  "MainnetNetwork = ''mainnet''"

definition TestnetNetwork :: string where
  "TestnetNetwork = ''testnet''"

definition ErgDecimals :: int32 where
  "ErgDecimals = 9"

definition NanoErgInErg :: int where
  "NanoErgInErg = 1000000000"

definition InputOpType :: string where
  "InputOpType = ''INPUT''"

definition OutputOpType :: string where
  "OutputOpType = ''OUTPUT''"

definition SuccessStatus :: string where
  "SuccessStatus = ''SUCCESS''"

definition rosetta_ErgDecimals :: int32 where
  "rosetta_ErgDecimals = 9"

definition Currency :: currency where
  "Currency = \<lparr>cur_Symbol = ''ERG'', cur_Decimals = rosetta_ErgDecimals\<rparr>"

definition ergo_InputOpType :: string where
  "ergo_InputOpType = ''INPUT''"

definition ergo_OutputOpType :: string where
  "ergo_OutputOpType = ''OUTPUT''"

definition ergo_SuccessStatus :: string where
  "ergo_SuccessStatus = ''SUCCESS''"

definition ergo_Currency :: currency where
  "ergo_Currency = \<lparr>cur_Symbol = ''ERG'', cur_Decimals = ErgDecimals\<rparr>"

definition OperationTypes :: "string list" where
  "OperationTypes = [ergo_InputOpType, ergo_OutputOpType]"

definition OperationStatuses :: "operation_status list" where
  "OperationStatuses = [\<lparr>os_Status = ergo_SuccessStatus, os_Successful = True\<rparr>]"

definition MainnetGenesisBlockIdentifier :: block_identifier where
  "MainnetGenesisBlockIdentifier =
     \<lparr>bi_Index = 1,
      bi_Hash = ''b0244dfc267baca974a4caee06120321562784303a8a688976ae56170e4d175b''\<rparr>"

definition TestnetGenesisBlockIdentifier :: block_identifier where
  "TestnetGenesisBlockIdentifier =
     \<lparr>bi_Index = 1,
      bi_Hash = ''78bc468ff36d5d6fa9707d382fe5b8947d6dd0ed2bc5c44707426ee12557c7fb''\<rparr>"

definition rosetta_Blockchain :: string where
  "rosetta_Blockchain = ''Ergo''"

definition rosetta_MainnetNetwork :: string where
  "rosetta_MainnetNetwork = ''mainnet''"

definition rosetta_TestnetNetwork :: string where
  "rosetta_TestnetNetwork = ''testnet''"

definition rosetta_NanoErgInErg :: int where
  "rosetta_NanoErgInErg = 1000000000"

definition rosetta_MainnetGenesisBlockIdentifier :: block_identifier where
  "rosetta_MainnetGenesisBlockIdentifier =
     \<lparr>bi_Index = 1,
      bi_Hash = ''b0244dfc267baca974a4caee06120321562784303a8a688976ae56170e4d175b''\<rparr>"

definition rosetta_TestnetGenesisBlockIdentifier :: block_identifier where
  "rosetta_TestnetGenesisBlockIdentifier =
     \<lparr>bi_Index = 1,
      bi_Hash = ''78bc468ff36d5d6fa9707d382fe5b8947d6dd0ed2bc5c44707426ee12557c7fb''\<rparr>"

definition rosetta_OperationTypes :: "string list" where
  "rosetta_OperationTypes = [InputOpType, OutputOpType]"

definition rosetta_OperationStatuses :: "operation_status list" where
  "rosetta_OperationStatuses = [\<lparr>os_Status = SuccessStatus, os_Successful = True\<rparr>]"

text \<open>The two packages agree, so what the converter emits is what the network options publish.\<close>

lemma packages_agree:
  "ergo_InputOpType = InputOpType" "ergo_OutputOpType = OutputOpType"
  "ergo_SuccessStatus = SuccessStatus" "ergo_Currency = Currency"
  "rosetta_Blockchain = Blockchain" "rosetta_MainnetNetwork = MainnetNetwork"
  "rosetta_TestnetNetwork = TestnetNetwork" "rosetta_NanoErgInErg = NanoErgInErg"
  "rosetta_MainnetGenesisBlockIdentifier = MainnetGenesisBlockIdentifier"
  "rosetta_TestnetGenesisBlockIdentifier = TestnetGenesisBlockIdentifier"
  "rosetta_OperationTypes = OperationTypes" "rosetta_OperationStatuses = OperationStatuses"
  by (simp_all add: ergo_InputOpType_def InputOpType_def ergo_OutputOpType_def OutputOpType_def
      ergo_SuccessStatus_def SuccessStatus_def ergo_Currency_def Currency_def ErgDecimals_def
      rosetta_ErgDecimals_def rosetta_Blockchain_def Blockchain_def rosetta_MainnetNetwork_def
      MainnetNetwork_def rosetta_TestnetNetwork_def TestnetNetwork_def rosetta_NanoErgInErg_def
      NanoErgInErg_def rosetta_MainnetGenesisBlockIdentifier_def MainnetGenesisBlockIdentifier_def
      rosetta_TestnetGenesisBlockIdentifier_def TestnetGenesisBlockIdentifier_def
      rosetta_OperationTypes_def OperationTypes_def rosetta_OperationStatuses_def OperationStatuses_def)

text \<open>One whole erg is \<open>NanoErgInErg\<close> units of a currency with \<open>ErgDecimals\<close> decimals.\<close>

lemma NanoErgInErg_decimals: "NanoErgInErg = 10 ^ unat ErgDecimals"
  by (simp add: NanoErgInErg_def ErgDecimals_def)

section \<open>The SDK functions the code calls\<close>

text \<open>
  Functions of github.com/coinbase/rosetta-sdk-go, whose code is not part of the
  repository: they are the fields of a record that every definition using them takes as
  an argument.
\<close>

record sdk =
  NegateValue :: "string \<Rightarrow> string go"
  ContainsString :: "string list \<Rightarrow> string \<Rightarrow> bool"
  SentinelText :: "sentinel \<Rightarrow> string"
  MarshalMap :: "peer \<Rightarrow> (string \<rightharpoonup> string) go"
  HashBlockID :: "block_identifier option \<Rightarrow> string"
  AssertBlock :: "block \<Rightarrow> unit go"
  FormatPartialID :: "partial_block_identifier \<Rightarrow> string"
  RosettaAPIVersion :: string

text \<open>
  Their documented behaviour: \<open>NegateValue\<close> flips the sign of a decimal integer and
  returns an error for any other string; \<open>ContainsString\<close> is membership.
\<close>

definition negates :: "sdk \<Rightarrow> bool" where
  "negates S \<longleftrightarrow>
     (\<forall>v. case SetString v of
            None \<Rightarrow> (\<exists>e. NegateValue S v = Err e)
          | Some z \<Rightarrow> NegateValue S v = Ok (show_int (- z)))"

definition contains_spec :: "sdk \<Rightarrow> bool" where
  "contains_spec S \<longleftrightarrow> (\<forall>xs x. ContainsString S xs x \<longleftrightarrow> x \<in> set xs)"

lemma NegateValue_Some:
  "negates S \<Longrightarrow> SetString v = Some z \<Longrightarrow> NegateValue S v = Ok (show_int (- z))"
  by (auto simp: negates_def dest: spec [of _ v])

lemma NegateValue_None:
  "negates S \<Longrightarrow> SetString v = None \<Longrightarrow> \<exists>e. NegateValue S v = Err e"
  by (auto simp: negates_def dest: spec [of _ v])

lemma NegateValue_not_Panic: "negates S \<Longrightarrow> NegateValue S v \<noteq> Panic p"
  by (cases "SetString v") (auto dest: NegateValue_Some NegateValue_None)

lemma NegateValue_Ok_iff:
  "negates S \<Longrightarrow> NegateValue S v = Ok w \<longleftrightarrow> (\<exists>z. SetString v = Some z \<and> w = show_int (- z))"
  by (cases "SetString v") (auto dest: NegateValue_Some NegateValue_None)

text \<open>A concrete instance, used where a closed statement needs one.\<close>

definition sdk_ref :: sdk where
  "sdk_ref =
     \<lparr>NegateValue = (\<lambda>v. case SetString v of None \<Rightarrow> Err (New (v @ '' is not an integer''))
                       | Some z \<Rightarrow> Ok (show_int (- z))),
      ContainsString = (\<lambda>xs x. x \<in> set xs),
      SentinelText = (\<lambda>s. ''sentinel''),
      MarshalMap = (\<lambda>p. Ok [''address'' \<mapsto> pe_Address p]),
      HashBlockID = (\<lambda>b. case b of None \<Rightarrow> [] | Some i \<Rightarrow> show_int (sint (bi_Index i)) @ '':'' @ bi_Hash i),
      AssertBlock = (\<lambda>b. Ok ()),
      FormatPartialID = (\<lambda>p. []),
      RosettaAPIVersion = ''1.4.10''\<rparr>"

lemma sdk_ref_ok [simp]: "negates sdk_ref" "contains_spec sdk_ref"
  by (auto simp: negates_def contains_spec_def sdk_ref_def split: option.splits)

end
