(* ===== verification/Ergo_Client.thy ===== *)
theory Ergo_Client
  imports Rosetta_Types
begin

text \<open>
  pkg/ergo/client.go: the REST client of the Ergo node. A request is built from the base
  URL and an endpoint, sent, and its body decoded into the type the caller expects. The
  network (what \<open>http.NewRequest\<close> and \<open>httpClient.Do\<close> return for a request) and the JSON
  codec are fields of the client record, so the answers of the node are a parameter of
  the model: one client value describes the answers during one handler call.
\<close>

section \<open>Requests, responses, clients\<close>

record http_request =
  rq_Method :: string
  rq_URL :: string
  rq_Header :: "string \<rightharpoonup> string"
  rq_Body :: string

text \<open>The body of a response is what \<open>ioutil.ReadAll\<close> reads, and the error it stopped at.\<close>

record http_response =
  rs_StatusCode :: int
  rs_Status :: string
  rs_Body :: string
  rs_ReadError :: "go_error option"

record client =
  cl_baseURL :: string
  cl_NewRequest :: "string \<Rightarrow> string \<Rightarrow> string \<Rightarrow> http_request go"
  cl_Do :: "http_request \<Rightarrow> http_response go"
  json_Marshal :: "string list \<Rightarrow> string go"
  json_NodeInfo :: "string \<Rightarrow> node_info go"
  json_Transactions :: "string \<Rightarrow> ergo_transaction list go"
  json_AddressHolder :: "string \<Rightarrow> address_holder go"
  json_Peers :: "string \<Rightarrow> peer list go"
  json_BlockHeaders :: "string \<Rightarrow> block_header list go"
  json_Strings :: "string \<Rightarrow> string list go"
  json_FullBlock :: "string \<Rightarrow> full_block go"

section \<open>Endpoints\<close>

definition nodeEndpointNodeInfo :: string where
  "nodeEndpointNodeInfo = ''info''"

definition nodeEndpointConnectedPeers :: string where
  "nodeEndpointConnectedPeers = ''peers/connected''"

definition nodeEndpointBlock :: string where
  "nodeEndpointBlock = ''blocks''"

definition nodeEndpointLastBlockHeaders :: string where
  "nodeEndpointLastBlockHeaders = ''blocks/lastHeaders''"

definition nodeEndpointBlockAtHeight :: string where
  "nodeEndpointBlockAtHeight = ''blocks/at''"

definition nodeEndpointTxUnconfirmed :: string where
  "nodeEndpointTxUnconfirmed = ''transactions/unconfirmed''"

definition nodeEndpointTreeToAddress :: string where
  "nodeEndpointTreeToAddress = ''utils/ergoTreeToAddress''"

definition nodeAPIToken :: string where
  "nodeAPIToken = ''rosetta''"

definition MethodGet :: string where
  "MethodGet = ''GET''"

definition StatusOK :: int where
  "StatusOK = 200"

definition LocalNodeURL :: "int \<Rightarrow> string" where
  "LocalNodeURL nodePort = ''http://127.0.0.1:'' @ show_int nodePort"

section \<open>makeRequest\<close>

text \<open>
  \<open>req.Header.Set\<close> stores under the canonical form of the name: the second one is
  \<open>Api_key\<close>.
\<close>

definition set_headers :: "http_request \<Rightarrow> http_request" where
  "set_headers req =
     req\<lparr>rq_Header := (rq_Header req)(''Content-Type'' \<mapsto> ''application/json'',
                                      ''Api_key'' \<mapsto> nodeAPIToken)\<rparr>"

text \<open>
  The reading of the response: the status is tested before the read error is, and the
  body is decoded only after both.
\<close>

definition read_response :: "(string \<Rightarrow> 'a go) \<Rightarrow> http_response \<Rightarrow> 'a go" where
  "read_response decode res =
     (if rs_StatusCode res \<noteq> StatusOK
      then Err (New (''invalid response: '' @ rs_Status res @ '' '' @ rs_Body res))
      else case rs_ReadError res of
             Some e \<Rightarrow> Err (Wrapf [] e '': failed to read response body'')
           | None \<Rightarrow>
               map_err (\<lambda>e. Wrapf [] e '': error unmarshalling response body'')
                 (decode (rs_Body res)))"

definition marshal_body :: "client \<Rightarrow> string list option \<Rightarrow> string go" where
  "marshal_body c requestBody =
     (case requestBody of
        None \<Rightarrow> Ok []
      | Some b \<Rightarrow>
          map_err (\<lambda>e. Wrapf [] e '': error marshalling api request body'') (json_Marshal c b))"

text \<open>
  The receiver is a pointer: reading \<open>e.baseURL\<close> through a nil client panics. (The body
  is marshalled before that read; every call of the repository passes none.)
\<close>

definition makeRequest ::
  "client option \<Rightarrow> string \<Rightarrow> string \<Rightarrow> string list option \<Rightarrow> (client \<Rightarrow> string \<Rightarrow> 'a go) \<Rightarrow> 'a go"
where
  "makeRequest e endpoint requestMethod requestBody decode =
     gbind (deref e) (\<lambda>c.
     gbind (marshal_body c requestBody) (\<lambda>requestBodyJSON.
     gbind (map_err (\<lambda>err. Wrapf [] err '': error constructing request'')
              (cl_NewRequest c requestMethod (cl_baseURL c @ ''/'' @ endpoint) requestBodyJSON)) (\<lambda>req.
     gbind (map_err (\<lambda>err. Wrapf [] err '': error posting to api'') (cl_Do c (set_headers req))) (\<lambda>res.
     read_response (decode c) res))))"

section \<open>The calls\<close>

definition GetNodeInfo :: "client option \<Rightarrow> node_info go" where
  "GetNodeInfo e =
     map_err (\<lambda>err. Wrapf [] err '': error fetching node info'')
       (makeRequest e nodeEndpointNodeInfo MethodGet None json_NodeInfo)"

definition GetUnconfirmedTxs :: "client option \<Rightarrow> ergo_transaction list go" where
  "GetUnconfirmedTxs e =
     map_err (\<lambda>err. Wrapf [] err '': error fetching unconfirmed txs'')
       (makeRequest e nodeEndpointTxUnconfirmed MethodGet None json_Transactions)"

definition TreeToAddress :: "client option \<Rightarrow> string \<Rightarrow> string go" where
  "TreeToAddress e et =
     gbind (map_err (\<lambda>err. Wrapf [] err '': error converting ergo tree to address'')
       (makeRequest e (nodeEndpointTreeToAddress @ ''/'' @ et) MethodGet None json_AddressHolder))
       (\<lambda>addr. Ok (ah_Address addr))"

definition GetConnectedPeers :: "client option \<Rightarrow> peer list go" where
  "GetConnectedPeers e =
     map_err (\<lambda>err. Wrapf [] err '': error fetching connected peers'')
       (makeRequest e nodeEndpointConnectedPeers MethodGet None json_Peers)"

definition GetLatestBlockHeaders :: "client option \<Rightarrow> int32 \<Rightarrow> block_header list go" where
  "GetLatestBlockHeaders e count =
     map_err (\<lambda>err. Wrapf [] err ('': error fetching last '' @ show_int (sint count) @ '' block headers''))
       (makeRequest e (nodeEndpointLastBlockHeaders @ ''/'' @ show_int (sint count)) MethodGet None
          json_BlockHeaders)"

definition GetBlockByID :: "client option \<Rightarrow> string \<Rightarrow> full_block go" where
  "GetBlockByID e i =
     map_err (\<lambda>err. Wrapf [] err ('': error fetching block with id '' @ i))
       (makeRequest e (nodeEndpointBlock @ ''/'' @ i) MethodGet None json_FullBlock)"

text \<open>
  With no header at the height, the error is formatted with \<open>%w\<close> from an \<open>err\<close> that is nil
  at that point: the text starts with \<open>%!w(<nil>)\<close> and nothing is wrapped.
\<close>

definition GetBlockByIndex :: "client option \<Rightarrow> int64 \<Rightarrow> full_block go" where
  "GetBlockByIndex e index =
     gbind (map_err (\<lambda>err. Wrapf [] err ('': error fetching block at index '' @ show_int (sint index)))
       (makeRequest e (nodeEndpointBlockAtHeight @ ''/'' @ show_int (sint index)) MethodGet None
          json_Strings)) (\<lambda>blockHeaders.
     case blockHeaders of
       [] \<Rightarrow> Err (New (''%!w(<nil>): no blocks found at index '' @ show_int (sint index)))
     | h # _ \<Rightarrow> GetBlockByID e h)"

lemmas client_call_defs =
  GetNodeInfo_def GetUnconfirmedTxs_def TreeToAddress_def GetConnectedPeers_def
  GetLatestBlockHeaders_def GetBlockByID_def GetBlockByIndex_def

section \<open>Facts about requests\<close>

lemma makeRequest_nil [simp]: "makeRequest None ep m b d = Panic NilDereference"
  by (simp add: makeRequest_def)

lemma client_calls_nil [simp]:
  "GetNodeInfo None = Panic NilDereference"
  "GetUnconfirmedTxs None = Panic NilDereference"
  "TreeToAddress None et = Panic NilDereference"
  "GetConnectedPeers None = Panic NilDereference"
  "GetLatestBlockHeaders None n = Panic NilDereference"
  "GetBlockByID None i = Panic NilDereference"
  "GetBlockByIndex None k = Panic NilDereference"
  by (simp_all add: client_call_defs)

text \<open>
  A response is used only if the node answered with status 200, the whole body was read
  and it decodes.
\<close>

lemma read_response_Ok_iff:
  "read_response decode res = Ok x \<longleftrightarrow>
     rs_StatusCode res = StatusOK \<and> rs_ReadError res = None \<and> decode (rs_Body res) = Ok x"
  by (auto simp: read_response_def split: option.splits)

lemma makeRequest_Ok_iff:
  "makeRequest (Some c) ep m None d = Ok x \<longleftrightarrow>
     (\<exists>req res. cl_NewRequest c m (cl_baseURL c @ ''/'' @ ep) [] = Ok req \<and>
        cl_Do c (set_headers req) = Ok res \<and>
        rs_StatusCode res = StatusOK \<and> rs_ReadError res = None \<and> d c (rs_Body res) = Ok x)"
  by (auto simp: makeRequest_def marshal_body_def read_response_Ok_iff)

end
