(* ===== verification/Converter.thy ===== *)
theory Converter
  imports Ergo_Client
begin

text \<open>
  pkg/rosetta/converter.go: the conversion of a full Ergo block (or of one mempool
  transaction) into Rosetta blocks, transactions and operations. The converter keeps the
  coins created so far by the block's own transactions (\<open>blockTxInputs\<close>) and the coins
  fetched beforehand (\<open>preFetchedInputs\<close>).
\<close>

section \<open>The converter\<close>

record block_converter =
  cv_e :: "client option"
  blockTxInputs :: "string \<rightharpoonup> account_coin"
  preFetchedInputs :: "string \<rightharpoonup> account_coin"

definition NewBlockConverter ::
  "client option \<Rightarrow> (string \<rightharpoonup> account_coin) \<Rightarrow> block_converter"
where
  "NewBlockConverter e pre = \<lparr>cv_e = e, blockTxInputs = Map.empty, preFetchedInputs = pre\<rparr>"

definition findCoinForInput :: "block_converter \<Rightarrow> string \<Rightarrow> account_coin go" where
  "findCoinForInput c inputID =
     (case blockTxInputs c inputID of
        Some acctCoin \<Rightarrow> Ok acctCoin
      | None \<Rightarrow>
          (case preFetchedInputs c inputID of
             Some acctCoin \<Rightarrow> Ok acctCoin
           | None \<Rightarrow> Err (New (''unable to find input with ID: '' @ inputID))))"

section \<open>Operations\<close>

definition InputToRosettaOp ::
  "sdk \<Rightarrow> ergo_transaction_input \<Rightarrow> int64 \<Rightarrow> int64 \<Rightarrow> account_coin \<Rightarrow> operation go"
where
  "InputToRosettaOp S i operationIndex inputIndex inputCoin =
     gbind (deref (co_Amount (ac_Coin inputCoin))) (\<lambda>am.
     gbind (map_err (\<lambda>err. Wrapf [] err '': unable to negate previous output'')
              (NegateValue S (am_Value am))) (\<lambda>negatedVal.
     Ok \<lparr>op_OperationIdentifier = \<lparr>oi_Index = operationIndex, oi_NetworkIndex = Some inputIndex\<rparr>,
         op_RelatedOperations = [],
         op_Type = InputOpType,
         op_Status = Some SuccessStatus,
         op_Account = ac_Account inputCoin,
         op_Amount = Some \<lparr>am_Value = negatedVal, am_Currency = Currency\<rparr>,
         op_CoinChange = Some \<lparr>cc_CoinIdentifier = \<lparr>ci_Identifier = in_BoxID i\<rparr>,
                               cc_CoinAction = CoinSpent\<rparr>\<rparr>))"

text \<open>The one ergo tree the node cannot parse has its address written into the code.\<close>

definition output_address :: "block_converter \<Rightarrow> string \<Rightarrow> string go" where
  "output_address c tree =
     (if tree = ''cd07021a8e6f59fd4a'' then Ok ''4MQyMKvMbnCJG3aJ''
      else map_err (\<lambda>err. Wrapf [] err '': failed to get address from ergo tree'')
             (TreeToAddress (cv_e c) tree))"

definition OutputToRosettaOp ::
  "block_converter \<Rightarrow> ergo_transaction_output \<Rightarrow> int64 \<Rightarrow> operation_identifier list \<Rightarrow> operation go"
where
  "OutputToRosettaOp c o' operationIndex relatedOps =
     gbind (output_address c (out_ErgoTree o')) (\<lambda>addr.
     gbind (deref (out_Index o')) (\<lambda>idx.
     gbind (deref (out_BoxID o')) (\<lambda>boxId.
     Ok \<lparr>op_OperationIdentifier =
           \<lparr>oi_Index = operationIndex, oi_NetworkIndex = Some (int64_of_int32 idx)\<rparr>,
         op_RelatedOperations = relatedOps,
         op_Type = OutputOpType,
         op_Status = Some SuccessStatus,
         op_Account = Some \<lparr>ai_Address = addr\<rparr>,
         op_Amount = Some \<lparr>am_Value = show_int (sint (out_Value o')), am_Currency = Currency\<rparr>,
         op_CoinChange = Some \<lparr>cc_CoinIdentifier = \<lparr>ci_Identifier = boxId\<rparr>,
                               cc_CoinAction = CoinCreated\<rparr>\<rparr>)))"

section \<open>Transactions\<close>

text \<open>
  The two loops of \<open>TxToRosettaTx\<close>. The index of an operation is the number of operations
  so far; the loop over the inputs also collects the identifiers (without network index)
  that every output lists as related.
\<close>

definition input_step ::
  "sdk \<Rightarrow> block_converter \<Rightarrow> ergo_transaction \<Rightarrow> nat \<times> ergo_transaction_input \<Rightarrow>
   operation list \<times> operation_identifier list \<Rightarrow> (operation list \<times> operation_identifier list) go"
where
  "input_step S c ergoTx = (\<lambda>(inputIdx, input) (txOps, relatedOps).
     gbind (wrap_ptr '': unable to find input (tx: '' (et_ID ergoTx) '')''
              (findCoinForInput c (in_BoxID input))) (\<lambda>acctCoin.
     gbind (map_err (\<lambda>err. Wrapf [] err ('': error parsing tx input, boxId: '' @ in_BoxID input))
              (InputToRosettaOp S input (int64_of_len (length txOps)) (int64_of_len inputIdx)
                 acctCoin)) (\<lambda>txOp.
     Ok (txOps @ [txOp],
         relatedOps @ [\<lparr>oi_Index = oi_Index (op_OperationIdentifier txOp),
                        oi_NetworkIndex = None\<rparr>]))))"

definition output_step ::
  "block_converter \<Rightarrow> operation_identifier list \<Rightarrow> ergo_transaction_output \<Rightarrow>
   operation list \<Rightarrow> operation list go"
where
  "output_step c relatedOps output txOps =
     gbind (wrap_ptr '': error parsing tx output, boxId: '' (out_BoxID output) []
              (OutputToRosettaOp c output (int64_of_len (length txOps)) relatedOps)) (\<lambda>txOp.
     Ok (txOps @ [txOp]))"

definition TxToRosettaTx ::
  "sdk \<Rightarrow> block_converter \<Rightarrow> ergo_transaction \<Rightarrow> transaction go"
where
  "TxToRosettaTx S c ergoTx =
     gbind (deref (et_Inputs ergoTx)) (\<lambda>inputs.
     gbind (gfold (input_step S c ergoTx) (List.enumerate 0 inputs) ([], [])) (\<lambda>(txOps, relatedOps).
     gbind (deref (et_Outputs ergoTx)) (\<lambda>outputs.
     gbind (gfold (output_step c relatedOps) outputs txOps) (\<lambda>txOps'.
     gbind (deref (et_ID ergoTx)) (\<lambda>i.
     Ok \<lparr>tx_TransactionIdentifier = \<lparr>ti_Hash = i\<rparr>, tx_Operations = txOps'\<rparr>)))))"

section \<open>Blocks\<close>

text \<open>
  The coin an operation creates, as \<open>storeTxCoins\<close> keeps it (and as the indexer's cache
  keeps it): nothing unless the operation carries a coin change that creates a coin.
\<close>

definition created_coin :: "operation \<Rightarrow> (string \<times> account_coin) option" where
  "created_coin op =
     (case op_CoinChange op of
        None \<Rightarrow> None
      | Some cc \<Rightarrow>
          if cc_CoinAction cc \<noteq> CoinCreated then None
          else Some (ci_Identifier (cc_CoinIdentifier cc),
                     \<lparr>ac_Account = op_Account op,
                      ac_Coin = \<lparr>co_CoinIdentifier = cc_CoinIdentifier cc,
                                 co_Amount = op_Amount op\<rparr>\<rparr>))"

definition store_op :: "(string \<rightharpoonup> account_coin) \<Rightarrow> operation \<Rightarrow> (string \<rightharpoonup> account_coin)" where
  "store_op m op =
     (case created_coin op of None \<Rightarrow> m | Some (i, ac) \<Rightarrow> m(i \<mapsto> ac))"

definition storeTxCoins :: "block_converter \<Rightarrow> transaction \<Rightarrow> block_converter" where
  "storeTxCoins c tx = c\<lparr>blockTxInputs := foldl store_op (blockTxInputs c) (tx_Operations tx)\<rparr>"

definition HeaderToRosettaBlock :: "block_header \<Rightarrow> block" where
  "HeaderToRosettaBlock bh =
     (let blockIndex = int64_of_int32 (bh_Height bh);
          isGenesis = (blockIndex = genesisBlockIndex);
          previousBlockIndex = (if isGenesis then genesisBlockIndex else blockIndex - 1);
          previousBlockHash = (if isGenesis then bh_ID bh else bh_ParentID bh)
      in \<lparr>bk_BlockIdentifier = \<lparr>bi_Index = blockIndex, bi_Hash = bh_ID bh\<rparr>,
          bk_ParentBlockIdentifier = \<lparr>bi_Index = previousBlockIndex, bi_Hash = previousBlockHash\<rparr>,
          bk_Timestamp = bh_Timestamp bh,
          bk_Transactions = []\<rparr>)"

definition block_step ::
  "sdk \<Rightarrow> ergo_transaction \<Rightarrow> block_converter \<times> transaction list \<Rightarrow>
   (block_converter \<times> transaction list) go"
where
  "block_step S ergoTx = (\<lambda>(c, parsedTxs).
     gbind (wrap_ptr '': error parsing transaction operations, txId: '' (et_ID ergoTx) []
              (TxToRosettaTx S c ergoTx)) (\<lambda>parsedTx.
     Ok (storeTxCoins c parsedTx, parsedTxs @ [parsedTx])))"

definition BlockToRosettaBlock ::
  "sdk \<Rightarrow> block_converter \<Rightarrow> full_block option \<Rightarrow> block go"
where
  "BlockToRosettaBlock S c blk =
     gbind (deref blk) (\<lambda>fb.
     gbind (deref (fb_Header fb)) (\<lambda>header.
     gbind (deref (fb_BlockTransactions fb)) (\<lambda>bt.
     gbind (deref (bt_Transactions bt)) (\<lambda>ergoTxs.
     gbind (gfold (block_step S) ergoTxs (c, [])) (\<lambda>(_, parsedTxs).
     Ok ((HeaderToRosettaBlock header)\<lparr>bk_Transactions := parsedTxs\<rparr>))))))"

definition PeerToRosettaPeer :: "sdk \<Rightarrow> peer \<Rightarrow> rosetta_peer go" where
  "PeerToRosettaPeer S p =
     gbind (map_err (\<lambda>err. Wrapf [] err '': unable to marshal peer metadata'') (MarshalMap S p))
       (\<lambda>metadata. Ok \<lparr>rp_PeerID = pe_Address p, rp_Metadata = metadata\<rparr>)"

end
