(* ===== verification/Ergo_Utils.thy ===== *)
theory Ergo_Utils
  imports Rosetta_Types
begin

text \<open>
  pkg/ergo/utils.go: the inputs of a set of transactions that must be fetched from
  elsewhere because no transaction seen so far in the set creates them.
\<close>

section \<open>GetInputsForTxs\<close>

record input_ctx =
  ic_TxID :: string
  ic_InputID :: string

text \<open>
  The inner loops: appending the box identifiers of the outputs (a nil identifier
  panics), and collecting the inputs that are not among the outputs so far.
\<close>

definition add_outputs :: "ergo_transaction_output list \<Rightarrow> string list \<Rightarrow> string list go" where
  "add_outputs outs outputs =
     gfold (\<lambda>output acc. gbind (deref (out_BoxID output)) (\<lambda>b. Ok (acc @ [b]))) outs outputs"

definition add_inputs ::
  "sdk \<Rightarrow> string option \<Rightarrow> string list \<Rightarrow> ergo_transaction_input list \<Rightarrow> input_ctx list \<Rightarrow> input_ctx list go"
where
  "add_inputs S txid outputs ins inputCoins =
     gfold (\<lambda>input acc.
              if \<not> ContainsString S outputs (in_BoxID input)
              then gbind (deref txid) (\<lambda>t. Ok (acc @ [\<lparr>ic_TxID = t, ic_InputID = in_BoxID input\<rparr>]))
              else Ok acc)
       ins inputCoins"

definition inputs_step ::
  "sdk \<Rightarrow> ergo_transaction \<Rightarrow> string list \<times> input_ctx list \<Rightarrow> (string list \<times> input_ctx list) go"
where
  "inputs_step S tx st =
     (case st of (outputs, inputCoins) \<Rightarrow>
        gbind (deref (et_Outputs tx)) (\<lambda>outs.
        gbind (add_outputs outs outputs) (\<lambda>outputs'.
        gbind (deref (et_Inputs tx)) (\<lambda>ins.
        gbind (add_inputs S (et_ID tx) outputs' ins inputCoins) (\<lambda>inputCoins'.
        Ok (outputs', inputCoins'))))))"

definition GetInputsForTxs :: "sdk \<Rightarrow> ergo_transaction list option \<Rightarrow> input_ctx list go" where
  "GetInputsForTxs S txs =
     gbind (deref txs) (\<lambda>ts. gbind (gfold (inputs_step S) ts ([], [])) (\<lambda>(_, inputCoins). Ok inputCoins))"

section \<open>What it computes\<close>

text \<open>
  On well-formed transactions: for each transaction in order, its inputs in order that
  are created neither by an earlier transaction of the set nor by itself, each paired
  with the identifier of the transaction that spends it.
\<close>

fun needed_inputs :: "string list \<Rightarrow> ergo_transaction list \<Rightarrow> input_ctx list" where
  "needed_inputs known [] = []"
| "needed_inputs known (t # ts) =
     map (\<lambda>b. \<lparr>ic_TxID = tx_id t, ic_InputID = b\<rparr>)
       (filter (\<lambda>b. b \<notin> set known \<union> set (created_ids t)) (spent_ids t)) @
     needed_inputs (known @ created_ids t) ts"

lemma add_outputs_wf:
  "list_all wf_output outs \<Longrightarrow> add_outputs outs acc = Ok (acc @ map out_id outs)"
  unfolding add_outputs_def
  by (induction outs arbitrary: acc) (auto simp: wf_output_id)

lemma add_inputs_wf:
  assumes "contains_spec S"
  shows "add_inputs S (Some i) outputs ins acc =
     Ok (acc @ map (\<lambda>b. \<lparr>ic_TxID = i, ic_InputID = b\<rparr>)
                 (filter (\<lambda>b. b \<notin> set outputs) (map in_BoxID ins)))"
  unfolding add_inputs_def
  using assms by (induction ins arbitrary: acc) (auto simp: contains_spec_def)

lemma inputs_step_wf:
  assumes "contains_spec S" and "wf_tx t"
  shows "inputs_step S t (outputs, acc) =
     Ok (outputs @ created_ids t,
         acc @ map (\<lambda>b. \<lparr>ic_TxID = tx_id t, ic_InputID = b\<rparr>)
                 (filter (\<lambda>b. b \<notin> set outputs \<union> set (created_ids t)) (spent_ids t)))"
  using assms wf_tx_fields [OF assms(2)]
  by (simp add: inputs_step_def add_outputs_wf add_inputs_wf created_ids_def spent_ids_def)

lemma inputs_loop_wf:
  assumes "contains_spec S" and "list_all wf_tx ts"
  shows "\<exists>outs. gfold (inputs_step S) ts (known, acc) = Ok (outs, acc @ needed_inputs known ts)"
  using assms(2)
proof (induction ts arbitrary: known acc)
  case Nil
  show ?case by simp
next
  case (Cons t ts)
  define acc' where "acc' = acc @ map (\<lambda>b. \<lparr>ic_TxID = tx_id t, ic_InputID = b\<rparr>)
    (filter (\<lambda>b. b \<notin> set known \<union> set (created_ids t)) (spent_ids t))"
  from Cons.prems have "wf_tx t" and "list_all wf_tx ts" by simp_all
  from Cons.IH [OF this(2), of "known @ created_ids t" acc'] obtain outs where
    "gfold (inputs_step S) ts (known @ created_ids t, acc')
      = Ok (outs, acc' @ needed_inputs (known @ created_ids t) ts)" by blast
  then show ?case
    unfolding gfold.simps inputs_step_wf [OF assms(1) \<open>wf_tx t\<close>] gbind.simps acc'_def by simp
qed

lemma GetInputsForTxs_wf:
  assumes "contains_spec S" and "list_all wf_tx ts"
  shows "GetInputsForTxs S (Some ts) = Ok (needed_inputs [] ts)"
  using inputs_loop_wf [OF assms, of "[]" "[]"]
  by (auto simp: GetInputsForTxs_def)

text \<open>Membership: an input is asked for exactly when no transaction up to its own creates it.\<close>

lemma All_le_Suc2: "(\<forall>j \<le> Suc k. P j) \<longleftrightarrow> P 0 \<and> (\<forall>j \<le> k. P (Suc j))"
  by (simp add: less_Suc_eq_le [symmetric] All_less_Suc2)

lemma needed_inputs_iff:
  "c \<in> set (needed_inputs known ts) \<longleftrightarrow>
     (\<exists>k < length ts. ic_TxID c = tx_id (ts ! k) \<and> ic_InputID c \<in> set (spent_ids (ts ! k)) \<and>
        ic_InputID c \<notin> set known \<and> (\<forall>j \<le> k. ic_InputID c \<notin> set (created_ids (ts ! j))))"
proof (induction ts arbitrary: known)
  case Nil
  show ?case by simp
next
  case (Cons t ts)
  have step: "c \<in> set (needed_inputs known (t # ts)) \<longleftrightarrow>
      (ic_TxID c = tx_id t \<and> ic_InputID c \<in> set (spent_ids t) \<and>
       ic_InputID c \<notin> set known \<and> ic_InputID c \<notin> set (created_ids t)) \<or>
      c \<in> set (needed_inputs (known @ created_ids t) ts)"
    by (cases c) auto
  show ?case
    unfolding step Cons.IH Ex_less_Suc2 list.size add_0_right add_Suc_right
    by (auto simp: Ex_less_Suc2 All_le_Suc2)
qed

lemma spent_covered:
  assumes "k < length ts" and "b \<in> set (spent_ids (ts ! k))"
    and "b \<notin> ic_InputID ` set (needed_inputs [] ts)"
  shows "\<exists>j \<le> k. b \<in> set (created_ids (ts ! j))"
proof (rule ccontr)
  assume "\<not> ?thesis"
  with assms(1,2) have "\<lparr>ic_TxID = tx_id (ts ! k), ic_InputID = b\<rparr> \<in> set (needed_inputs [] ts)"
    by (auto simp: needed_inputs_iff)
  with assms(3) show False by (force simp: image_iff)
qed

end
