(* ===== verification/Converter_Facts.thy ===== *)
theory Converter_Facts
  imports Converter Ergo_Utils
begin

text \<open>
  Facts about the converter: the two loops of \<open>TxToRosettaTx\<close> as position-wise maps, the
  shape of a converted transaction, the coins the converter knows after each transaction
  of a block, and when a conversion succeeds.
\<close>

section \<open>The loops of TxToRosettaTx, position by position\<close>

text \<open>The operation made from input number \<open>k\<close>, and the one made from operation slot \<open>k\<close>.\<close>

definition input_op ::
  "sdk \<Rightarrow> block_converter \<Rightarrow> ergo_transaction \<Rightarrow> nat \<times> ergo_transaction_input \<Rightarrow> operation go"
where
  "input_op S c t = (\<lambda>(k, input).
     gbind (wrap_ptr '': unable to find input (tx: '' (et_ID t) '')''
              (findCoinForInput c (in_BoxID input))) (\<lambda>ac.
     map_err (\<lambda>err. Wrapf [] err ('': error parsing tx input, boxId: '' @ in_BoxID input))
       (InputToRosettaOp S input (int64_of_len k) (int64_of_len k) ac)))"

definition output_op ::
  "block_converter \<Rightarrow> operation_identifier list \<Rightarrow> nat \<times> ergo_transaction_output \<Rightarrow> operation go"
where
  "output_op c rel = (\<lambda>(k, output).
     wrap_ptr '': error parsing tx output, boxId: '' (out_BoxID output) []
       (OutputToRosettaOp c output (int64_of_len k) rel))"

definition related_of :: "operation \<Rightarrow> operation_identifier" where
  "related_of op = \<lparr>oi_Index = oi_Index (op_OperationIdentifier op), oi_NetworkIndex = None\<rparr>"

lemma input_loop:
  "length ops = n \<Longrightarrow>
   gfold (input_step S c t) (List.enumerate n ins) (ops, rel) =
   gbind (gmapM (input_op S c t) (List.enumerate n ins))
     (\<lambda>new. Ok (ops @ new, rel @ map related_of new))"
proof (induction ins arbitrary: n ops rel)
  case Nil
  then show ?case by simp
next
  case (Cons i ins)
  show ?case
  proof (cases "input_op S c t (n, i)")
    case (Ok op)
    then have "input_step S c t (n, i) (ops, rel) = Ok (ops @ [op], rel @ [related_of op])"
      using Cons.prems by (auto simp: input_step_def input_op_def related_of_def)
    moreover have "length (ops @ [op]) = Suc n" using Cons.prems by simp
    ultimately show ?thesis
      using Ok Cons.IH [of "ops @ [op]" "Suc n" "rel @ [related_of op]"]
      by (cases "gmapM (input_op S c t) (List.enumerate (Suc n) ins)") simp_all
  next
    case (Err e)
    then have "input_step S c t (n, i) (ops, rel) = Err e"
      using Cons.prems by (auto simp: input_step_def input_op_def gbind_Err_iff)
    with Err show ?thesis by simp
  next
    case (Panic p)
    then have "input_step S c t (n, i) (ops, rel) = Panic p"
      using Cons.prems by (auto simp: input_step_def input_op_def gbind_Panic_iff)
    with Panic show ?thesis by simp
  qed
qed

lemma output_loop:
  "gfold (output_step c rel) outs ops =
   gbind (gmapM (output_op c rel) (List.enumerate (length ops) outs)) (\<lambda>new. Ok (ops @ new))"
proof (induction outs arbitrary: ops)
  case Nil
  show ?case by simp
next
  case (Cons x outs)
  show ?case
  proof (cases "output_op c rel (length ops, x)")
    case (Ok op)
    then have "output_step c rel x ops = Ok (ops @ [op])"
      by (auto simp: output_step_def output_op_def)
    with Ok Cons.IH [of "ops @ [op]"] show ?thesis
      by (cases "gmapM (output_op c rel) (List.enumerate (Suc (length ops)) outs)") simp_all
  next
    case (Err e)
    then have "output_step c rel x ops = Err e"
      by (auto simp: output_step_def output_op_def gbind_Err_iff)
    with Err show ?thesis by simp
  next
    case (Panic p)
    then have "output_step c rel x ops = Panic p"
      by (auto simp: output_step_def output_op_def gbind_Panic_iff)
    with Panic show ?thesis by simp
  qed
qed

text \<open>The whole function, with the loops replaced by maps.\<close>

lemma TxToRosettaTx_maps:
  assumes "wf_tx t"
  shows "TxToRosettaTx S c t =
    gbind (gmapM (input_op S c t) (List.enumerate 0 (tx_inputs t))) (\<lambda>ins.
    gbind (gmapM (output_op c (map related_of ins))
             (List.enumerate (length ins) (tx_outputs t))) (\<lambda>outs.
    Ok \<lparr>tx_TransactionIdentifier = \<lparr>ti_Hash = tx_id t\<rparr>, tx_Operations = ins @ outs\<rparr>))"
proof (cases "gmapM (input_op S c t) (List.enumerate 0 (tx_inputs t))")
  case (Ok ins)
  with wf_tx_fields [OF assms] show ?thesis
    by (cases "gmapM (output_op c (map related_of ins))
                 (List.enumerate (length ins) (tx_outputs t))")
      (simp_all add: TxToRosettaTx_def input_loop output_loop)
qed (simp_all add: TxToRosettaTx_def input_loop wf_tx_fields [OF assms])

section \<open>Single operations\<close>

text \<open>The integer value of an operation, an output and a coin.\<close>

definition op_value :: "operation \<Rightarrow> int option" where
  "op_value op = Option.bind (op_Amount op) (\<lambda>a. SetString (am_Value a))"

definition coin_value :: "account_coin \<Rightarrow> int option" where
  "coin_value ac = Option.bind (co_Amount (ac_Coin ac)) (\<lambda>a. SetString (am_Value a))"

lemma coin_value_Some_iff:
  "coin_value ac = Some z \<longleftrightarrow>
     (\<exists>am. co_Amount (ac_Coin ac) = Some am \<and> SetString (am_Value am) = Some z)"
  by (auto simp: coin_value_def bind_eq_Some_conv)

text \<open>
  The operation that spends box \<open>b\<close> of owner and value \<open>ac\<close>, \<open>z\<close> in slot \<open>k\<close>, and the
  operation in slot \<open>k\<close> for an output.
\<close>

definition spent_op :: "int64 \<Rightarrow> int64 \<Rightarrow> string \<Rightarrow> account_coin \<Rightarrow> int \<Rightarrow> operation" where
  "spent_op k n b ac z =
     \<lparr>op_OperationIdentifier = \<lparr>oi_Index = k, oi_NetworkIndex = Some n\<rparr>,
      op_RelatedOperations = [], op_Type = InputOpType, op_Status = Some SuccessStatus,
      op_Account = ac_Account ac,
      op_Amount = Some \<lparr>am_Value = show_int (- z), am_Currency = Currency\<rparr>,
      op_CoinChange = Some \<lparr>cc_CoinIdentifier = \<lparr>ci_Identifier = b\<rparr>, cc_CoinAction = CoinSpent\<rparr>\<rparr>"

definition made_op ::
  "int64 \<Rightarrow> operation_identifier list \<Rightarrow> string \<Rightarrow> int32 \<Rightarrow> ergo_transaction_output \<Rightarrow> operation"
where
  "made_op k rel addr idx x =
     \<lparr>op_OperationIdentifier = \<lparr>oi_Index = k, oi_NetworkIndex = Some (int64_of_int32 idx)\<rparr>,
      op_RelatedOperations = rel, op_Type = OutputOpType, op_Status = Some SuccessStatus,
      op_Account = Some \<lparr>ai_Address = addr\<rparr>,
      op_Amount = Some \<lparr>am_Value = show_int (sint (out_Value x)), am_Currency = Currency\<rparr>,
      op_CoinChange =
        Some \<lparr>cc_CoinIdentifier = \<lparr>ci_Identifier = out_id x\<rparr>, cc_CoinAction = CoinCreated\<rparr>\<rparr>"

lemma spent_op_fields [simp]:
  "op_OperationIdentifier (spent_op k n b ac z) = \<lparr>oi_Index = k, oi_NetworkIndex = Some n\<rparr>"
  "op_RelatedOperations (spent_op k n b ac z) = []"
  "op_Type (spent_op k n b ac z) = InputOpType"
  "op_Account (spent_op k n b ac z) = ac_Account ac"
  "op_value (spent_op k n b ac z) = Some (- z)"
  "op_CoinChange (spent_op k n b ac z) =
     Some \<lparr>cc_CoinIdentifier = \<lparr>ci_Identifier = b\<rparr>, cc_CoinAction = CoinSpent\<rparr>"
  "created_coin (spent_op k n b ac z) = None"
  by (simp_all add: spent_op_def op_value_def created_coin_def)

definition made_coin :: "string \<Rightarrow> ergo_transaction_output \<Rightarrow> account_coin" where
  "made_coin addr x =
     \<lparr>ac_Account = Some \<lparr>ai_Address = addr\<rparr>,
      ac_Coin = \<lparr>co_CoinIdentifier = \<lparr>ci_Identifier = out_id x\<rparr>,
                 co_Amount = Some \<lparr>am_Value = show_int (sint (out_Value x)),
                                   am_Currency = Currency\<rparr>\<rparr>\<rparr>"

lemma coin_value_made_coin [simp]: "coin_value (made_coin addr x) = Some (sint (out_Value x))"
  by (simp add: made_coin_def coin_value_def)

lemma made_op_fields [simp]:
  "op_OperationIdentifier (made_op k rel addr idx x) =
     \<lparr>oi_Index = k, oi_NetworkIndex = Some (int64_of_int32 idx)\<rparr>"
  "op_RelatedOperations (made_op k rel addr idx x) = rel"
  "op_Type (made_op k rel addr idx x) = OutputOpType"
  "op_Account (made_op k rel addr idx x) = Some \<lparr>ai_Address = addr\<rparr>"
  "op_value (made_op k rel addr idx x) = Some (sint (out_Value x))"
  "op_CoinChange (made_op k rel addr idx x) =
     Some \<lparr>cc_CoinIdentifier = \<lparr>ci_Identifier = out_id x\<rparr>, cc_CoinAction = CoinCreated\<rparr>"
  "created_coin (made_op k rel addr idx x) = Some (out_id x, made_coin addr x)"
  by (simp_all add: made_op_def op_value_def created_coin_def made_coin_def)

lemma InputToRosettaOp_Ok_iff:
  assumes "negates S"
  shows "InputToRosettaOp S i k n ac = Ok op \<longleftrightarrow>
    (\<exists>z. coin_value ac = Some z \<and> op = spent_op k n (in_BoxID i) ac z)"
  unfolding InputToRosettaOp_def coin_value_Some_iff spent_op_def
  by (auto simp: NegateValue_Ok_iff [OF assms] NegateValue_Some [OF assms])

lemma OutputToRosettaOp_Ok_iff:
  assumes "wf_output x"
  shows "OutputToRosettaOp c x k rel = Ok op \<longleftrightarrow>
    (\<exists>addr idx. output_address c (out_ErgoTree x) = Ok addr \<and> out_Index x = Some idx \<and>
       op = made_op k rel addr idx x)"
  unfolding OutputToRosettaOp_def made_op_def by (auto simp: wf_output_id [OF assms])

lemma findCoinForInput_Ok_iff:
  "findCoinForInput c b = Ok ac \<longleftrightarrow>
     blockTxInputs c b = Some ac \<or> (blockTxInputs c b = None \<and> preFetchedInputs c b = Some ac)"
  by (auto simp: findCoinForInput_def split: option.splits)

lemma input_op_Ok_iff:
  "input_op S c t (k, i) = Ok op \<longleftrightarrow>
     (\<exists>ac. findCoinForInput c (in_BoxID i) = Ok ac \<and>
           InputToRosettaOp S i (int64_of_len k) (int64_of_len k) ac = Ok op)"
  by (simp add: input_op_def)

lemma output_op_Ok_iff:
  "output_op c rel (k, x) = Ok op \<longleftrightarrow> OutputToRosettaOp c x (int64_of_len k) rel = Ok op"
  by (simp add: output_op_def)

section \<open>A converted transaction\<close>

lemma TxToRosettaTx_Ok_iff:
  assumes "wf_tx t"
  shows "TxToRosettaTx S c t = Ok r \<longleftrightarrow>
    (\<exists>ins outs. r = \<lparr>tx_TransactionIdentifier = \<lparr>ti_Hash = tx_id t\<rparr>, tx_Operations = ins @ outs\<rparr> \<and>
       length ins = length (tx_inputs t) \<and> length outs = length (tx_outputs t) \<and>
       (\<forall>k < length (tx_inputs t). input_op S c t (k, tx_inputs t ! k) = Ok (ins ! k)) \<and>
       (\<forall>k < length (tx_outputs t). output_op c (map related_of ins)
          (length ins + k, tx_outputs t ! k) = Ok (outs ! k)))"
  unfolding TxToRosettaTx_maps [OF assms] gbind_Ok_iff gmapM_enumerate_Ok_iff
  by (auto simp del: append_eq_append_conv)

text \<open>Elimination form, with the operations of each half spelt out.\<close>

lemma TxToRosettaTx_OkE:
  assumes "wf_tx t" and "negates S" and "TxToRosettaTx S c t = Ok r"
  obtains ins outs where
    "r = \<lparr>tx_TransactionIdentifier = \<lparr>ti_Hash = tx_id t\<rparr>, tx_Operations = ins @ outs\<rparr>"
    "length ins = length (tx_inputs t)" "length outs = length (tx_outputs t)"
    "\<And>k. k < length (tx_inputs t) \<Longrightarrow>
       \<exists>ac z. findCoinForInput c (in_BoxID (tx_inputs t ! k)) = Ok ac \<and> coin_value ac = Some z \<and>
         ins ! k = spent_op (int64_of_len k) (int64_of_len k) (in_BoxID (tx_inputs t ! k)) ac z"
    "\<And>k. k < length (tx_outputs t) \<Longrightarrow>
       \<exists>addr idx. output_address c (out_ErgoTree (tx_outputs t ! k)) = Ok addr \<and>
         out_Index (tx_outputs t ! k) = Some idx \<and>
         outs ! k = made_op (int64_of_len (length ins + k)) (map related_of ins) addr idx
                      (tx_outputs t ! k)"
proof -
  from assms(3) obtain ins outs where
    r: "r = \<lparr>tx_TransactionIdentifier = \<lparr>ti_Hash = tx_id t\<rparr>, tx_Operations = ins @ outs\<rparr>"
      "length ins = length (tx_inputs t)" "length outs = length (tx_outputs t)"
    and i: "\<And>k. k < length (tx_inputs t) \<Longrightarrow> input_op S c t (k, tx_inputs t ! k) = Ok (ins ! k)"
    and o': "\<And>k. k < length (tx_outputs t) \<Longrightarrow>
      output_op c (map related_of ins) (length ins + k, tx_outputs t ! k) = Ok (outs ! k)"
    unfolding TxToRosettaTx_Ok_iff [OF assms(1)] by blast
  have wf: "wf_output (tx_outputs t ! k)" if "k < length (tx_outputs t)" for k
    using that wf_tx_fields(4) [OF assms(1)] by (simp add: list_all_length)
  show thesis
    using i o' by (intro that [OF r])
      (auto simp: input_op_Ok_iff InputToRosettaOp_Ok_iff [OF assms(2)] output_op_Ok_iff
        OutputToRosettaOp_Ok_iff [OF wf])
qed

end
