(* ===== verification/Converter_Block.thy ===== *)
theory Converter_Block
  imports Converter_Facts
begin

text \<open>
  Facts about whole blocks: the loop of \<open>BlockToRosettaBlock\<close> transaction by transaction,
  the coins the converter knows at each of them, and when the conversion succeeds.
\<close>

section \<open>Storing created coins\<close>

definition created_coins :: "transaction \<Rightarrow> (string \<times> account_coin) list" where
  "created_coins r = List.map_filter created_coin (tx_Operations r)"

lemma foldl_store_op:
  "foldl store_op m ops = m ++ map_of (rev (List.map_filter created_coin ops))"
proof (induction ops arbitrary: m)
  case Nil
  show ?case by (simp add: List.map_filter_simps)
next
  case (Cons op ops)
  then show ?case
    by (cases "created_coin op")
      (auto simp: store_op_def List.map_filter_simps map_add_assoc [symmetric]
        simp del: fun_upd_apply split: prod.splits)
qed

lemma storeTxCoins_fields [simp]:
  "blockTxInputs (storeTxCoins c r) = blockTxInputs c ++ map_of (rev (created_coins r))"
  "preFetchedInputs (storeTxCoins c r) = preFetchedInputs c"
  "cv_e (storeTxCoins c r) = cv_e c"
  by (simp_all add: storeTxCoins_def foldl_store_op created_coins_def)

lemma foldl_storeTxCoins_fields [simp]:
  "preFetchedInputs (foldl storeTxCoins c rs) = preFetchedInputs c"
  "cv_e (foldl storeTxCoins c rs) = cv_e c"
  by (induction rs arbitrary: c) auto

lemma foldl_storeTxCoins_known:
  "blockTxInputs (foldl storeTxCoins c rs) =
     blockTxInputs c ++ map_of (rev (concat (map created_coins rs)))"
  by (induction rs arbitrary: c) simp_all

lemma dom_foldl_storeTxCoins:
  "dom (blockTxInputs (foldl storeTxCoins c rs)) =
     dom (blockTxInputs c) \<union> (\<Union>r \<in> set rs. fst ` set (created_coins r))"
  by (simp add: foldl_storeTxCoins_known dom_map_of_conv_image_fst image_UN Un_commute)

lemma output_address_cong [simp]:
  "output_address (storeTxCoins c r) = output_address c"
  "output_address (foldl storeTxCoins c rs) = output_address c"
  by (simp_all add: fun_eq_iff output_address_def)

text \<open>A converted transaction creates exactly the coins of its outputs, in order.\<close>

lemma created_coins_append_ops:
  "created_coins \<lparr>tx_TransactionIdentifier = h, tx_Operations = xs @ ys\<rparr> =
     List.map_filter created_coin xs @ List.map_filter created_coin ys"
  by (simp add: created_coins_def List.map_filter_def)

lemma map_filter_none: "(\<And>x. x \<in> set xs \<Longrightarrow> f x = None) \<Longrightarrow> List.map_filter f xs = []"
  by (induction xs) (simp_all add: List.map_filter_simps)

lemma map_filter_some:
  "length ys = length xs \<Longrightarrow> (\<And>k. k < length xs \<Longrightarrow> f (xs ! k) = Some (ys ! k)) \<Longrightarrow>
     List.map_filter f xs = ys"
proof (induction xs arbitrary: ys)
  case Nil
  then show ?case by (simp add: List.map_filter_simps)
next
  case (Cons x xs)
  then obtain y ys' where ys: "ys = y # ys'" by (cases ys) auto
  from Cons.prems(2) [of 0] ys have "f x = Some y" by simp
  moreover have "List.map_filter f xs = ys'"
  proof (rule Cons.IH)
    show "length ys' = length xs" using Cons.prems(1) ys by simp
    show "f (xs ! k) = Some (ys' ! k)" if "k < length xs" for k
      using Cons.prems(2) [of "Suc k"] that ys by simp
  qed
  ultimately show ?case by (simp add: List.map_filter_simps ys)
qed

lemma converted_created_coins:
  assumes "wf_tx t" and "negates S" and "TxToRosettaTx S c t = Ok r"
  obtains addrs where "length addrs = length (tx_outputs t)"
    "created_coins r = map2 (\<lambda>a x. (out_id x, made_coin a x)) addrs (tx_outputs t)"
    "\<And>k. k < length (tx_outputs t) \<Longrightarrow>
       output_address c (out_ErgoTree (tx_outputs t ! k)) = Ok (addrs ! k)"
proof -
  from TxToRosettaTx_OkE [OF assms] obtain ins outs where
    r: "r = \<lparr>tx_TransactionIdentifier = \<lparr>ti_Hash = tx_id t\<rparr>, tx_Operations = ins @ outs\<rparr>"
    and len: "length ins = length (tx_inputs t)" "length outs = length (tx_outputs t)"
    and i: "\<And>k. k < length (tx_inputs t) \<Longrightarrow>
       \<exists>ac z. findCoinForInput c (in_BoxID (tx_inputs t ! k)) = Ok ac \<and> coin_value ac = Some z \<and>
         ins ! k = spent_op (int64_of_len k) (int64_of_len k) (in_BoxID (tx_inputs t ! k)) ac z"
    and o': "\<And>k. k < length (tx_outputs t) \<Longrightarrow>
       \<exists>addr idx. output_address c (out_ErgoTree (tx_outputs t ! k)) = Ok addr \<and>
         out_Index (tx_outputs t ! k) = Some idx \<and>
         outs ! k = made_op (int64_of_len (length ins + k)) (map related_of ins) addr idx
                      (tx_outputs t ! k)"
    by metis
  define addrs where "addrs = map (\<lambda>x. case output_address c (out_ErgoTree x) of Ok a \<Rightarrow> a | _ \<Rightarrow> [])
    (tx_outputs t)"
  have made: "created_coin (outs ! k) = Some (map2 (\<lambda>a x. (out_id x, made_coin a x)) addrs (tx_outputs t) ! k)"
    if "k < length outs" for k
    using o' [of k] that len by (auto simp: addrs_def)
  have "List.map_filter created_coin ins = []"
  proof (rule map_filter_none)
    fix x assume "x \<in> set ins"
    then obtain k where "k < length ins" "x = ins ! k" by (auto simp: in_set_conv_nth)
    with i [of k] len show "created_coin x = None" by auto
  qed
  moreover have "List.map_filter created_coin outs =
      map2 (\<lambda>a x. (out_id x, made_coin a x)) addrs (tx_outputs t)"
    using made len by (intro map_filter_some) (simp_all add: addrs_def)
  ultimately have "created_coins r = map2 (\<lambda>a x. (out_id x, made_coin a x)) addrs (tx_outputs t)"
    by (simp add: r created_coins_append_ops)
  moreover have "output_address c (out_ErgoTree (tx_outputs t ! k)) = Ok (addrs ! k)"
    if "k < length (tx_outputs t)" for k
    using o' [OF that] that by (auto simp: addrs_def)
  ultimately show thesis by (intro that [of addrs]) (simp_all add: addrs_def)
qed

lemma converted_created_ids:
  assumes "wf_tx t" and "negates S" and "TxToRosettaTx S c t = Ok r"
  shows "map fst (created_coins r) = created_ids t"
proof -
  from converted_created_coins [OF assms] obtain addrs where
    "length addrs = length (tx_outputs t)"
    "created_coins r = map2 (\<lambda>a x. (out_id x, made_coin a x)) addrs (tx_outputs t)"
    by metis
  then show ?thesis
    by (auto simp: created_ids_def intro: nth_equalityI)
qed

section \<open>The loop over the transactions of a block\<close>

definition converts :: "sdk \<Rightarrow> block_converter \<Rightarrow> ergo_transaction list \<Rightarrow> transaction list \<Rightarrow> bool" where
  "converts S c ts rs \<longleftrightarrow> length rs = length ts \<and>
     (\<forall>k < length ts. TxToRosettaTx S (foldl storeTxCoins c (take k rs)) (ts ! k) = Ok (rs ! k))"

lemma converts_Nil [simp]: "converts S c [] rs \<longleftrightarrow> rs = []"
  by (auto simp: converts_def)

lemma converts_Cons:
  "converts S c (t # ts) rs \<longleftrightarrow>
     (\<exists>r rs'. rs = r # rs' \<and> TxToRosettaTx S c t = Ok r \<and> converts S (storeTxCoins c r) ts rs')"
  by (cases rs) (auto simp: converts_def All_less_Suc2)

lemma block_loop_Ok_iff:
  "gfold (block_step S) ts (c, acc) = Ok (c', out) \<longleftrightarrow>
     (\<exists>rs. converts S c ts rs \<and> out = acc @ rs \<and> c' = foldl storeTxCoins c rs)"
proof (induction ts arbitrary: c acc)
  case Nil
  show ?case by auto
next
  case (Cons t ts)
  then show ?case
    by (auto simp: block_step_def converts_Cons)
qed

lemma BlockToRosettaBlock_Ok_iff:
  assumes "fb_Header fb = Some h" and "fb_BlockTransactions fb = Some bt"
    and "bt_Transactions bt = Some ts"
  shows "BlockToRosettaBlock S c (Some fb) = Ok b \<longleftrightarrow>
    (\<exists>rs. converts S c ts rs \<and> b = (HeaderToRosettaBlock h)\<lparr>bk_Transactions := rs\<rparr>)"
  unfolding BlockToRosettaBlock_def
  using assms by (force simp: block_loop_Ok_iff)

lemma converts_hashes:
  assumes "converts S c ts rs" and "list_all wf_tx ts"
  shows "map (\<lambda>r. ti_Hash (tx_TransactionIdentifier r)) rs = map tx_id ts"
proof (rule nth_equalityI)
  show "length (map (\<lambda>r. ti_Hash (tx_TransactionIdentifier r)) rs) = length (map tx_id ts)"
    using assms(1) by (simp add: converts_def)
next
  fix k assume "k < length (map (\<lambda>r. ti_Hash (tx_TransactionIdentifier r)) rs)"
  with assms have "wf_tx (ts ! k)" "TxToRosettaTx S (foldl storeTxCoins c (take k rs)) (ts ! k) = Ok (rs ! k)"
    "k < length rs" "length rs = length ts"
    by (auto simp: converts_def list_all_length)
  then show "map (\<lambda>r. ti_Hash (tx_TransactionIdentifier r)) rs ! k = map tx_id ts ! k"
    by (auto simp: TxToRosettaTx_Ok_iff)
qed

lemma converts_created:
  assumes "converts S c ts rs" and "list_all wf_tx ts" and "negates S" and "k < length ts"
  shows "map fst (created_coins (rs ! k)) = created_ids (ts ! k)"
  using assms by (auto simp: converts_def list_all_length intro: converted_created_ids)

lemma known_after:
  assumes "converts S c ts rs" and "list_all wf_tx ts" and "negates S" and "k \<le> length ts"
  shows "dom (blockTxInputs (foldl storeTxCoins c (take k rs))) =
     dom (blockTxInputs c) \<union> (\<Union>j < k. set (created_ids (ts ! j)))"
proof -
  have len: "length rs = length ts" using assms(1) by (simp add: converts_def)
  have "set (take k rs) = (!) rs ` {..<k}"
    using nth_image [of k rs] assms(4) len by (simp add: lessThan_atLeast0)
  then have "(\<Union>r \<in> set (take k rs). fst ` set (created_coins r)) =
      (\<Union>j < k. fst ` set (created_coins (rs ! j)))"
    by simp
  also have "\<dots> = (\<Union>j < k. set (created_ids (ts ! j)))"
    using converts_created [OF assms(1-3)] assms(4)
    by (intro SUP_cong refl) (metis lessThan_iff list.set_map order_less_le_trans)
  finally show ?thesis by (simp add: dom_foldl_storeTxCoins)
qed

section \<open>When the conversion succeeds\<close>

text \<open>What one transaction needs: a coin with an integer value for every input, an address
  for every output.\<close>

definition inputs_known :: "block_converter \<Rightarrow> ergo_transaction \<Rightarrow> bool" where
  "inputs_known c t \<longleftrightarrow>
     (\<forall>b \<in> set (spent_ids t). \<exists>ac z. findCoinForInput c b = Ok ac \<and> coin_value ac = Some z)"

definition outputs_resolved :: "block_converter \<Rightarrow> ergo_transaction \<Rightarrow> bool" where
  "outputs_resolved c t \<longleftrightarrow>
     (\<forall>x \<in> set (tx_outputs t). is_ok (output_address c (out_ErgoTree x)))"

lemma is_ok_gmapM: "is_ok (gmapM f xs) \<longleftrightarrow> (\<forall>x \<in> set xs. is_ok (f x))"
proof (induction xs)
  case Nil
  show ?case by simp
next
  case (Cons x xs)
  then show ?case by (cases "f x"; cases "gmapM f xs") auto
qed

lemma ball_enumerate: "(\<forall>x \<in> set (List.enumerate n xs). P x) \<longleftrightarrow> (\<forall>k < length xs. P (n + k, xs ! k))"
  by (simp add: all_set_conv_all_nth nth_enumerate_eq)

lemma TxToRosettaTx_succeeds_iff:
  assumes "wf_tx t" and "negates S"
  shows "is_ok (TxToRosettaTx S c t) \<longleftrightarrow> inputs_known c t \<and> outputs_resolved c t"
proof -
  have ins: "is_ok (gmapM (input_op S c t) (List.enumerate 0 (tx_inputs t))) \<longleftrightarrow> inputs_known c t"
    unfolding is_ok_gmapM ball_enumerate inputs_known_def spent_ids_def
    by (auto simp: is_ok_iff input_op_Ok_iff InputToRosettaOp_Ok_iff [OF assms(2)] all_set_conv_all_nth)
  have wf: "wf_output (tx_outputs t ! k)" if "k < length (tx_outputs t)" for k
    using that wf_tx_fields(4) [OF assms(1)] by (simp add: list_all_length)
  have idx: "\<exists>i. out_Index (tx_outputs t ! k) = Some i" if "k < length (tx_outputs t)" for k
    using wf [OF that] by (auto simp: wf_output_def)
  have outs: "is_ok (gmapM (output_op c rel) (List.enumerate n (tx_outputs t))) \<longleftrightarrow> outputs_resolved c t"
    for rel n
    unfolding is_ok_gmapM ball_enumerate outputs_resolved_def
    using idx by (auto simp: is_ok_iff output_op_Ok_iff OutputToRosettaOp_Ok_iff [OF wf]
      all_set_conv_all_nth)
  have "is_ok (TxToRosettaTx S c t) \<longleftrightarrow>
    (\<exists>is. gmapM (input_op S c t) (List.enumerate 0 (tx_inputs t)) = Ok is \<and>
       is_ok (gmapM (output_op c (map related_of is)) (List.enumerate (length is) (tx_outputs t))))"
    unfolding TxToRosettaTx_maps [OF assms(1)] is_ok_iff by auto
  with ins outs show ?thesis by (auto simp: is_ok_iff)
qed

end
