(* ===== verification/Samples.thy ===== *)
theory Samples
  imports Ergo_Client
begin

text \<open>
  Concrete data for the closed instances of the properties: a block at height 2 whose
  first transaction spends a known box and whose second spends an output of the first.
\<close>

definition mk_input :: "string \<Rightarrow> ergo_transaction_input" where
  "mk_input b = \<lparr>in_BoxID = b, in_SpendingProof = None, in_Extension = None\<rparr>"

text \<open>The ergo tree is the one whose address the code knows, so no node is needed.\<close>

definition mk_output :: "string \<Rightarrow> int64 \<Rightarrow> int32 \<Rightarrow> ergo_transaction_output" where
  "mk_output b v k =
     \<lparr>out_BoxID = Some b, out_Value = v, out_ErgoTree = ''cd07021a8e6f59fd4a'',
      out_CreationHeight = 1, out_Assets = None, out_AdditionalRegisters = Map.empty,
      out_TransactionID = None, out_Index = Some k\<rparr>"

definition mk_tx ::
  "string \<Rightarrow> ergo_transaction_input list \<Rightarrow> ergo_transaction_output list \<Rightarrow> ergo_transaction"
where
  "mk_tx i ins outs =
     \<lparr>et_ID = Some i, et_Inputs = Some ins, et_DataInputs = Some [], et_Outputs = Some outs,
      et_Size = None\<rparr>"

definition mk_header :: "string \<Rightarrow> string \<Rightarrow> int32 \<Rightarrow> block_header" where
  "mk_header i parent height =
     \<lparr>bh_ID = i, bh_Timestamp = 1622012800818, bh_Version = 1, bh_AdProofsRoot = [],
      bh_StateRoot = [], bh_TransactionsRoot = [], bh_NBits = 0, bh_ExtensionHash = [],
      bh_PowSolutions = None, bh_Height = height, bh_Difficulty = [], bh_ParentID = parent,
      bh_Votes = [], bh_Size = None, bh_ExtensionID = None, bh_TransactionsID = None,
      bh_AdProofsID = None\<rparr>"

definition mk_block :: "block_header \<Rightarrow> ergo_transaction list \<Rightarrow> full_block" where
  "mk_block h ts =
     \<lparr>fb_Header = Some h,
      fb_BlockTransactions = Some \<lparr>bt_HeaderID = bh_ID h, bt_Transactions = Some ts, bt_Size = 0\<rparr>,
      fb_AdProofs = None, fb_Extension = None, fb_Size = 0\<rparr>"

definition mk_coin :: "string \<Rightarrow> string \<Rightarrow> string \<Rightarrow> account_coin" where
  "mk_coin addr b v =
     \<lparr>ac_Account = Some \<lparr>ai_Address = addr\<rparr>,
      ac_Coin = \<lparr>co_CoinIdentifier = \<lparr>ci_Identifier = b\<rparr>,
                 co_Amount = Some \<lparr>am_Value = v, am_Currency = Currency\<rparr>\<rparr>\<rparr>"

definition sample_tx1 :: ergo_transaction where
  "sample_tx1 = mk_tx ''t1'' [mk_input ''g''] [mk_output ''a'' 60 0, mk_output ''b'' 40 1]"

definition sample_tx2 :: ergo_transaction where
  "sample_tx2 = mk_tx ''t2'' [mk_input ''a''] [mk_output ''c'' 60 0]"

definition sample_header :: block_header where
  "sample_header = mk_header ''h2'' ''h1'' 2"

definition sample_block :: full_block where
  "sample_block = mk_block sample_header [sample_tx1, sample_tx2]"

definition sample_coins :: "string \<rightharpoonup> account_coin" where
  "sample_coins = [''g'' \<mapsto> mk_coin ''addr'' ''g'' ''100'']"

lemmas mk_defs =
  mk_input_def mk_output_def mk_tx_def mk_header_def mk_block_def mk_coin_def

lemmas sample_defs =
  sample_tx1_def sample_tx2_def sample_header_def sample_block_def sample_coins_def

lemma sample_fields:
  "fb_Header sample_block = Some sample_header"
  "fb_BlockTransactions sample_block =
     Some \<lparr>bt_HeaderID = ''h2'', bt_Transactions = Some [sample_tx1, sample_tx2], bt_Size = 0\<rparr>"
  "bt_Transactions \<lparr>bt_HeaderID = ''h2'', bt_Transactions = Some [sample_tx1, sample_tx2],
     bt_Size = 0\<rparr> = Some [sample_tx1, sample_tx2]"
  by (simp_all add: sample_defs mk_defs)

lemma sample_wf [simp]: "wf_tx sample_tx1" "wf_tx sample_tx2"
  by (simp_all add: sample_defs mk_defs wf_tx_def wf_output_def)

lemma sample_ids [simp]:
  "tx_id sample_tx1 = ''t1''" "tx_id sample_tx2 = ''t2''"
  "spent_ids sample_tx1 = [''g'']" "spent_ids sample_tx2 = [''a'']"
  "created_ids sample_tx1 = [''a'', ''b'']" "created_ids sample_tx2 = [''c'']"
  by (simp_all add: sample_defs mk_defs tx_id_def spent_ids_def created_ids_def tx_inputs_def
      tx_outputs_def out_id_def)

lemma sample_outputs [simp]:
  "tx_outputs sample_tx1 = [mk_output ''a'' 60 0, mk_output ''b'' 40 1]"
  "tx_outputs sample_tx2 = [mk_output ''c'' 60 0]"
  "tx_inputs sample_tx1 = [mk_input ''g'']" "tx_inputs sample_tx2 = [mk_input ''a'']"
  by (simp_all add: sample_defs mk_tx_def tx_outputs_def tx_inputs_def)

lemma mk_output_tree [simp]: "out_ErgoTree (mk_output b v k) = ''cd07021a8e6f59fd4a''"
  by (simp add: mk_output_def)

lemma mk_output_fields [simp]: "out_id (mk_output b v k) = b" "out_Value (mk_output b v k) = v"
  by (simp_all add: mk_output_def out_id_def)

lemma mk_input_fields [simp]: "in_BoxID (mk_input b) = b"
  by (simp add: mk_input_def)

text \<open>A node that answers every request with fixed data; its mempool holds two chained transactions.\<close>

definition sample_client :: client where
  "sample_client =
     \<lparr>cl_baseURL = ''http://node'',
      cl_NewRequest = (\<lambda>m u b. Ok \<lparr>rq_Method = m, rq_URL = u, rq_Header = Map.empty, rq_Body = b\<rparr>),
      cl_Do = (\<lambda>rq. Ok \<lparr>rs_StatusCode = 200, rs_Status = ''200 OK'', rs_Body = rq_URL rq, rs_ReadError = None\<rparr>),
      json_Marshal = (\<lambda>b. Ok []),
      json_NodeInfo = (\<lambda>b. Err (New ''no info'')),
      json_Transactions = (\<lambda>b. Ok [sample_tx1, sample_tx2]),
      json_AddressHolder = (\<lambda>b. Ok \<lparr>ah_Address = b\<rparr>),
      json_Peers = (\<lambda>b. Ok []),
      json_BlockHeaders = (\<lambda>b. Ok [sample_header]),
      json_Strings = (\<lambda>b. Ok [''h2'']),
      json_FullBlock = (\<lambda>b. Ok sample_block)\<rparr>"

lemma sample_client_answers [simp]:
  "GetUnconfirmedTxs (Some sample_client) = Ok [sample_tx1, sample_tx2]"
  "GetConnectedPeers (Some sample_client) = Ok []"
  "GetLatestBlockHeaders (Some sample_client) n = Ok [sample_header]"
  "GetBlockByID (Some sample_client) i = Ok sample_block"
  by (simp_all add: client_call_defs makeRequest_def marshal_body_def read_response_def
      set_headers_def sample_client_def StatusOK_def)

text \<open>A node that refuses every connection.\<close>

definition down_client :: client where
  "down_client = sample_client\<lparr>cl_Do := (\<lambda>rq. Err (New ''connection refused''))\<rparr>"

definition down_error :: go_error where
  "down_error = Wrapf [] (Wrapf [] (New ''connection refused'') '': error posting to api'')
     '': error fetching block with id h2''"

lemma down_client_answers [simp]: "GetBlockByID (Some down_client) ''h2'' = Err down_error"
  by (simp add: GetBlockByID_def makeRequest_def marshal_body_def set_headers_def down_client_def
      sample_client_def down_error_def)

end
