(* ===== verification/Converter_Props.thy ===== *)
theory Converter_Props
  imports Converter_Block Samples
begin

text \<open>
  The properties of block conversion: when it succeeds, that the inputs \<open>GetInputsForTxs\<close>
  asks for are enough, the layout and the values of the operations, spending inside a
  block, and the block header.
\<close>

section \<open>Success, exactly\<close>

definition coin_known :: "block_converter \<Rightarrow> string \<Rightarrow> bool" where
  "coin_known c b \<longleftrightarrow> (\<exists>ac z. findCoinForInput c b = Ok ac \<and> coin_value ac = Some z)"

lemma inputs_known_iff: "inputs_known c t \<longleftrightarrow> (\<forall>b \<in> set (spent_ids t). coin_known c b)"
  by (simp add: inputs_known_def coin_known_def)

lemma coin_known_store:
  assumes "wf_tx t" and "negates S" and "TxToRosettaTx S c t = Ok r"
  shows "coin_known (storeTxCoins c r) b \<longleftrightarrow> b \<in> set (created_ids t) \<or> coin_known c b"
proof -
  from converted_created_coins [OF assms] obtain addrs where
    l: "length addrs = length (tx_outputs t)" and
    cc: "created_coins r = map2 (\<lambda>a x. (out_id x, made_coin a x)) addrs (tx_outputs t)"
    by metis
  have dom: "fst ` set (created_coins r) = set (created_ids t)"
    using converted_created_ids [OF assms] by (metis list.set_map)
  have val: "\<exists>z. coin_value ac = Some z" if "map_of (rev (created_coins r)) b = Some ac" for ac
    using map_of_SomeD [OF that] by (auto simp: cc)
  show ?thesis
  proof (cases "map_of (rev (created_coins r)) b")
    case None
    then have "b \<notin> set (created_ids t)"
      unfolding dom [symmetric] by (simp add: map_of_eq_None_iff)
    with None show ?thesis
      by (auto simp: coin_known_def findCoinForInput_Ok_iff map_add_def)
  next
    case (Some ac)
    then have "b \<in> set (created_ids t)"
      unfolding dom [symmetric] using map_of_SomeD [OF Some] by force
    with Some val [OF Some] show ?thesis
      by (auto simp: coin_known_def findCoinForInput_Ok_iff map_add_def)
  qed
qed

lemma converts_exists_iff:
  assumes "list_all wf_tx ts" and "negates S"
  shows "(\<exists>rs. converts S c ts rs) \<longleftrightarrow>
    (\<forall>t \<in> set ts. outputs_resolved c t) \<and>
    (\<forall>k < length ts. \<forall>b \<in> set (spent_ids (ts ! k)).
       coin_known c b \<or> (\<exists>j < k. b \<in> set (created_ids (ts ! j))))"
  using assms(1)
proof (induction ts arbitrary: c)
  case Nil
  show ?case by simp
next
  case (Cons t ts)
  then have wf: "wf_tx t" and wfs: "list_all wf_tx ts" by simp_all
  show ?case
  proof (cases "is_ok (TxToRosettaTx S c t)")
    case False
    then have "\<not> (inputs_known c t \<and> outputs_resolved c t)"
      by (simp add: TxToRosettaTx_succeeds_iff [OF wf assms(2)])
    moreover from False have "\<not> (\<exists>rs. converts S c (t # ts) rs)"
      by (auto simp: converts_Cons is_ok_iff)
    ultimately show ?thesis
      by (auto simp: inputs_known_iff All_less_Suc2)
  next
    case True
    then obtain r where r: "TxToRosettaTx S c t = Ok r" by (auto simp: is_ok_iff)
    from True have t_ok: "inputs_known c t" "outputs_resolved c t"
      by (simp_all add: TxToRosettaTx_succeeds_iff [OF wf assms(2)])
    have "(\<exists>rs. converts S c (t # ts) rs) \<longleftrightarrow> (\<exists>rs. converts S (storeTxCoins c r) ts rs)"
      by (auto simp: converts_Cons r)
    also have "\<dots> \<longleftrightarrow> (\<forall>t \<in> set ts. outputs_resolved c t) \<and>
      (\<forall>k < length ts. \<forall>b \<in> set (spent_ids (ts ! k)).
         b \<in> set (created_ids t) \<or> coin_known c b \<or> (\<exists>j < k. b \<in> set (created_ids (ts ! j))))"
      unfolding Cons.IH [OF wfs] coin_known_store [OF wf assms(2) r] outputs_resolved_def
        output_address_cong disj_assoc by (rule refl)
    also have "\<dots> \<longleftrightarrow> (\<forall>t' \<in> set (t # ts). outputs_resolved c t') \<and>
      (\<forall>k < length (t # ts). \<forall>b \<in> set (spent_ids ((t # ts) ! k)).
         coin_known c b \<or> (\<exists>j < k. b \<in> set (created_ids ((t # ts) ! j))))"
      using t_ok by (simp add: All_less_Suc2 Ex_less_Suc2 inputs_known_iff) blast
    finally show ?thesis .
  qed
qed

text \<open>
  C1: Converting a full block with well-formed transactions succeeds exactly when every
  output's ergo tree resolves to an address and every input is a prefetched coin with an
  integer value or an output of an earlier transaction of the same block.
\<close>

theorem BlockToRosettaBlock_succeeds_iff:
  assumes "negates S" and "list_all wf_tx ts"
    and "fb_Header fb = Some h" and "fb_BlockTransactions fb = Some bt"
    and "bt_Transactions bt = Some ts"
  shows "is_ok (BlockToRosettaBlock S (NewBlockConverter e pre) (Some fb)) \<longleftrightarrow>
    (\<forall>t \<in> set ts. \<forall>x \<in> set (tx_outputs t).
       is_ok (output_address (NewBlockConverter e pre) (out_ErgoTree x))) \<and>
    (\<forall>k < length ts. \<forall>b \<in> set (spent_ids (ts ! k)).
       (\<exists>ac z. pre b = Some ac \<and> coin_value ac = Some z) \<or>
       (\<exists>j < k. b \<in> set (created_ids (ts ! j))))"
proof -
  have known: "coin_known (NewBlockConverter e pre) b \<longleftrightarrow>
      (\<exists>ac z. pre b = Some ac \<and> coin_value ac = Some z)" for b
    by (simp add: coin_known_def findCoinForInput_Ok_iff NewBlockConverter_def)
  have "is_ok (BlockToRosettaBlock S (NewBlockConverter e pre) (Some fb)) \<longleftrightarrow>
      (\<exists>rs. converts S (NewBlockConverter e pre) ts rs)"
    by (auto simp: is_ok_iff BlockToRosettaBlock_Ok_iff [OF assms(3-5)])
  then show ?thesis
    by (simp add: converts_exists_iff [OF assms(2,1)] known outputs_resolved_def)
qed

lemma sample_address [simp]: "output_address c ''cd07021a8e6f59fd4a'' = Ok ''4MQyMKvMbnCJG3aJ''"
  by (simp add: output_address_def)

lemma coin_value_mk_coin: "coin_value (mk_coin addr b v) = SetString v"
  by (simp add: coin_value_def mk_coin_def)

lemma sample_coin [simp]:
  "sample_coins ''g'' = Some (mk_coin ''addr'' ''g'' ''100'')"
  "coin_value (mk_coin ''addr'' ''g'' ''100'') = Some 100"
  by (simp_all add: sample_coins_def coin_value_mk_coin SetString_def read_nat_def digit_val_def)

theorem BlockToRosettaBlock_succeeds_iff_witness:
  "is_ok (BlockToRosettaBlock sdk_ref (NewBlockConverter None sample_coins) (Some sample_block)) \<and>
   \<not> is_ok (BlockToRosettaBlock sdk_ref (NewBlockConverter None Map.empty) (Some sample_block))"
proof -
  note iff = BlockToRosettaBlock_succeeds_iff [OF sdk_ref_ok(1) _ sample_fields, simplified]
  have "is_ok (BlockToRosettaBlock sdk_ref (NewBlockConverter None sample_coins) (Some sample_block))"
    unfolding iff by (auto simp: less_Suc_eq)
  moreover have "\<not> is_ok (BlockToRosettaBlock sdk_ref (NewBlockConverter None Map.empty) (Some sample_block))"
    unfolding iff by auto
  ultimately show ?thesis by simp
qed

section \<open>GetInputsForTxs\<close>

text \<open>
  C20: On well-formed transactions \<open>GetInputsForTxs\<close> succeeds and returns exactly the inputs
  that neither an earlier transaction of the list nor the spending transaction itself
  creates, each with the identifier of the transaction that spends it.
\<close>

theorem GetInputsForTxs_exact:
  assumes "contains_spec S" and "list_all wf_tx ts"
  shows "\<exists>cs. GetInputsForTxs S (Some ts) = Ok cs \<and>
    (\<forall>txid b. \<lparr>ic_TxID = txid, ic_InputID = b\<rparr> \<in> set cs \<longleftrightarrow>
       (\<exists>k < length ts. txid = tx_id (ts ! k) \<and> b \<in> set (spent_ids (ts ! k)) \<and>
          (\<forall>j \<le> k. b \<notin> set (created_ids (ts ! j)))))"
  using GetInputsForTxs_wf [OF assms] by (auto simp: needed_inputs_iff)

theorem GetInputsForTxs_exact_witness:
  "\<exists>cs. GetInputsForTxs sdk_ref (Some [sample_tx1, sample_tx2]) = Ok cs \<and>
     \<lparr>ic_TxID = ''t1'', ic_InputID = ''g''\<rparr> \<in> set cs \<and>
     \<lparr>ic_TxID = ''t2'', ic_InputID = ''a''\<rparr> \<notin> set cs"
  using GetInputsForTxs_exact [OF sdk_ref_ok(2), of "[sample_tx1, sample_tx2]"]
  by (auto simp: Ex_less_Suc2 All_less_Suc2 numeral_2_eq_2 All_le_Suc2)

lemma prefetched_suffices:
  assumes "negates S" and "contains_spec S" and "list_all wf_tx ts"
    and "fb_Header fb = Some h" and "fb_BlockTransactions fb = Some bt"
    and "bt_Transactions bt = Some ts"
    and "GetInputsForTxs S (Some ts) = Ok cs"
    and "\<And>i. i \<in> set cs \<Longrightarrow> \<exists>ac z. pre (ic_InputID i) = Some ac \<and> coin_value ac = Some z"
    and "\<And>t. t \<in> set ts \<Longrightarrow> set (spent_ids t) \<inter> set (created_ids t) = {}"
    and "\<And>t x. t \<in> set ts \<Longrightarrow> x \<in> set (tx_outputs t) \<Longrightarrow>
           is_ok (output_address (NewBlockConverter e pre) (out_ErgoTree x))"
  shows "\<exists>b. BlockToRosettaBlock S (NewBlockConverter e pre) (Some fb) = Ok b"
proof -
  have cs: "cs = needed_inputs [] ts"
    using GetInputsForTxs_wf [OF assms(2,3)] assms(7) by simp
  have "(\<exists>ac z. pre b = Some ac \<and> coin_value ac = Some z) \<or> (\<exists>j < k. b \<in> set (created_ids (ts ! j)))"
    if k: "k < length ts" and b: "b \<in> set (spent_ids (ts ! k))" for k b
  proof (cases "b \<in> ic_InputID ` set cs")
    case True
    with assms(8) show ?thesis by auto
  next
    case False
    then obtain j where "j \<le> k" "b \<in> set (created_ids (ts ! j))"
      using spent_covered [OF k b] cs by auto
    moreover from assms(9) [OF nth_mem [OF k]] b have "b \<notin> set (created_ids (ts ! k))" by auto
    ultimately show ?thesis by (metis le_neq_implies_less)
  qed
  with assms(10) have "is_ok (BlockToRosettaBlock S (NewBlockConverter e pre) (Some fb))"
    by (simp add: converts_exists_iff [OF assms(3,1)] is_ok_iff BlockToRosettaBlock_Ok_iff [OF assms(4-6)]
      coin_known_def findCoinForInput_Ok_iff outputs_resolved_def NewBlockConverter_def)
  then show ?thesis by (simp add: is_ok_iff)
qed

text \<open>
  The inputs \<open>GetInputsForTxs\<close> asks for are enough for the converter: if each of them
  is prefetched with an integer value, no transaction spends its own output and every
  output has an address, the block converts.
\<close>

theorem GetInputsForTxs_suffices:
  assumes "negates S" and "contains_spec S" and "list_all wf_tx ts"
    and "fb_Header fb = Some h" and "fb_BlockTransactions fb = Some bt"
    and "bt_Transactions bt = Some ts"
    and "GetInputsForTxs S (Some ts) = Ok cs"
    and "\<And>i. i \<in> set cs \<Longrightarrow> \<exists>ac z. pre (ic_InputID i) = Some ac \<and> coin_value ac = Some z"
    and "\<And>t. t \<in> set ts \<Longrightarrow> set (spent_ids t) \<inter> set (created_ids t) = {}"
    and "\<And>t x. t \<in> set ts \<Longrightarrow> x \<in> set (tx_outputs t) \<Longrightarrow>
           is_ok (output_address (NewBlockConverter e pre) (out_ErgoTree x))"
  shows "\<exists>b. BlockToRosettaBlock S (NewBlockConverter e pre) (Some fb) = Ok b"
  using assms by (rule prefetched_suffices)

theorem GetInputsForTxs_suffices_witness:
  "\<exists>b. BlockToRosettaBlock sdk_ref (NewBlockConverter None sample_coins) (Some sample_block) = Ok b"
proof (rule GetInputsForTxs_suffices [OF sdk_ref_ok _ sample_fields])
  show "GetInputsForTxs sdk_ref (Some [sample_tx1, sample_tx2]) =
      Ok [\<lparr>ic_TxID = ''t1'', ic_InputID = ''g''\<rparr>]"
    by (subst GetInputsForTxs_wf) simp_all
qed auto

section \<open>The layout and the values of a transaction\<close>

text \<open>The related operations of every output, and the numbering of inputs then outputs.\<close>

lemma related_of_inputs:
  assumes "\<And>k. k < length ins \<Longrightarrow>
    oi_Index (op_OperationIdentifier (ins ! k)) = int64_of_len k"
  shows "map related_of ins =
    map (\<lambda>j. \<lparr>oi_Index = int64_of_len j, oi_NetworkIndex = None\<rparr>) [0..<length ins]"
  by (rule nth_equalityI) (use assms in \<open>auto simp: related_of_def\<close>)

lemma numbered_append:
  assumes "\<And>k. k < length ins \<Longrightarrow> P (ins ! k) k"
    and "\<And>k. k < length outs \<Longrightarrow> P (outs ! k) (length ins + k)"
    and "k < length (ins @ outs)"
  shows "P ((ins @ outs) ! k) k"
proof (cases "k < length ins")
  case True
  with assms(1) show ?thesis by (simp add: nth_append)
next
  case False
  with assms(2) [of "k - length ins"] assms(3) show ?thesis by (auto simp: nth_append)
qed

lemma TxToRosettaTx_shape:
  assumes "wf_tx t" and "negates S" and "TxToRosettaTx S c t = Ok r"
  defines "n \<equiv> length (tx_inputs t)" and "ops \<equiv> tx_Operations r"
  shows "ti_Hash (tx_TransactionIdentifier r) = tx_id t"
    and "length ops = n + length (tx_outputs t)"
    and "\<forall>k < length ops. oi_Index (op_OperationIdentifier (ops ! k)) = int64_of_len k"
    and "\<forall>k < n. op_Type (ops ! k) = InputOpType \<and>
           op_CoinChange (ops ! k) = Some \<lparr>cc_CoinIdentifier = \<lparr>ci_Identifier = spent_ids t ! k\<rparr>,
                                           cc_CoinAction = CoinSpent\<rparr>"
    and "\<forall>k < length (tx_outputs t). op_Type (ops ! (n + k)) = OutputOpType \<and>
           op_CoinChange (ops ! (n + k)) =
             Some \<lparr>cc_CoinIdentifier = \<lparr>ci_Identifier = created_ids t ! k\<rparr>,
                   cc_CoinAction = CoinCreated\<rparr> \<and>
           op_RelatedOperations (ops ! (n + k)) =
             map (\<lambda>j. \<lparr>oi_Index = int64_of_len j, oi_NetworkIndex = None\<rparr>) [0..<n]"
proof -
  from TxToRosettaTx_OkE [OF assms(1-3)] obtain ins outs where
    r: "r = \<lparr>tx_TransactionIdentifier = \<lparr>ti_Hash = tx_id t\<rparr>, tx_Operations = ins @ outs\<rparr>"
    and len: "length ins = n" "length outs = length (tx_outputs t)"
    and i: "\<And>k. k < n \<Longrightarrow> \<exists>ac z. findCoinForInput c (in_BoxID (tx_inputs t ! k)) = Ok ac \<and>
         coin_value ac = Some z \<and>
         ins ! k = spent_op (int64_of_len k) (int64_of_len k) (in_BoxID (tx_inputs t ! k)) ac z"
    and o': "\<And>k. k < length (tx_outputs t) \<Longrightarrow>
       \<exists>addr idx. output_address c (out_ErgoTree (tx_outputs t ! k)) = Ok addr \<and>
         out_Index (tx_outputs t ! k) = Some idx \<and>
         outs ! k = made_op (int64_of_len (length ins + k)) (map related_of ins) addr idx
                      (tx_outputs t ! k)"
    unfolding n_def by metis
  have num: "oi_Index (op_OperationIdentifier (ins ! k)) = int64_of_len k" if "k < length ins" for k
    using i [of k] that len(1) by auto
  have num': "oi_Index (op_OperationIdentifier (outs ! k)) = int64_of_len (length ins + k)"
    if "k < length outs" for k
    using o' [of k] that len(2) by auto
  have rel: "map related_of ins = map (\<lambda>j. \<lparr>oi_Index = int64_of_len j, oi_NetworkIndex = None\<rparr>) [0..<n]"
    unfolding len(1) [symmetric] by (rule related_of_inputs [OF num])
  have ops_in: "ops ! k = ins ! k" if "k < n" for k
    using that len by (simp add: ops_def r nth_append)
  have ops_out: "ops ! (n + k) = outs ! k" for k
    using len by (simp add: ops_def r nth_append)
  show "ti_Hash (tx_TransactionIdentifier r) = tx_id t" by (simp add: r)
  show "length ops = n + length (tx_outputs t)" by (simp add: ops_def r len)
  show "\<forall>k < n. op_Type (ops ! k) = InputOpType \<and>
           op_CoinChange (ops ! k) = Some \<lparr>cc_CoinIdentifier = \<lparr>ci_Identifier = spent_ids t ! k\<rparr>,
                                           cc_CoinAction = CoinSpent\<rparr>"
    using i by (fastforce simp: ops_in spent_ids_def n_def)
  show "\<forall>k < length (tx_outputs t). op_Type (ops ! (n + k)) = OutputOpType \<and>
           op_CoinChange (ops ! (n + k)) =
             Some \<lparr>cc_CoinIdentifier = \<lparr>ci_Identifier = created_ids t ! k\<rparr>,
                   cc_CoinAction = CoinCreated\<rparr> \<and>
           op_RelatedOperations (ops ! (n + k)) =
             map (\<lambda>j. \<lparr>oi_Index = int64_of_len j, oi_NetworkIndex = None\<rparr>) [0..<n]"
    using o' unfolding rel by (fastforce simp: ops_out created_ids_def)
  have "oi_Index (op_OperationIdentifier ((ins @ outs) ! k)) = int64_of_len k" if "k < length (ins @ outs)" for k
    by (rule numbered_append [OF num num' that])
  then show "\<forall>k < length ops. oi_Index (op_OperationIdentifier (ops ! k)) = int64_of_len k"
    by (simp add: ops_def r)
qed

text \<open>
  C21: A converted transaction keeps the identifier and has one operation per input followed
  by one per output, numbered consecutively from 0; the input operations spend the input
  boxes in order, the output operations create the output boxes in order, and every output
  operation is related to exactly the input operations.
\<close>

theorem TxToRosettaTx_layout:
  assumes "wf_tx t" and "negates S" and "TxToRosettaTx S c t = Ok r"
  shows "ti_Hash (tx_TransactionIdentifier r) = tx_id t \<and>
    length (tx_Operations r) = length (tx_inputs t) + length (tx_outputs t) \<and>
    (\<forall>k < length (tx_Operations r).
       oi_Index (op_OperationIdentifier (tx_Operations r ! k)) = int64_of_len k) \<and>
    (\<forall>k < length (tx_inputs t). op_Type (tx_Operations r ! k) = InputOpType \<and>
       op_CoinChange (tx_Operations r ! k) =
         Some \<lparr>cc_CoinIdentifier = \<lparr>ci_Identifier = spent_ids t ! k\<rparr>, cc_CoinAction = CoinSpent\<rparr>) \<and>
    (\<forall>k < length (tx_outputs t). let op = tx_Operations r ! (length (tx_inputs t) + k) in
       op_Type op = OutputOpType \<and>
       op_CoinChange op =
         Some \<lparr>cc_CoinIdentifier = \<lparr>ci_Identifier = created_ids t ! k\<rparr>,
               cc_CoinAction = CoinCreated\<rparr> \<and>
       op_RelatedOperations op =
         map (\<lambda>j. \<lparr>oi_Index = int64_of_len j, oi_NetworkIndex = None\<rparr>)
           [0..<length (tx_inputs t)])"
  using TxToRosettaTx_shape [OF assms] by (simp add: Let_def)

lemma sample_tx1_converts:
  "\<exists>r. TxToRosettaTx sdk_ref (NewBlockConverter None sample_coins) sample_tx1 = Ok r"
  using TxToRosettaTx_succeeds_iff [OF sample_wf(1) sdk_ref_ok(1)]
  by (auto simp: is_ok_iff inputs_known_def outputs_resolved_def findCoinForInput_Ok_iff
      NewBlockConverter_def)

theorem TxToRosettaTx_layout_witness:
  "\<exists>r. TxToRosettaTx sdk_ref (NewBlockConverter None sample_coins) sample_tx1 = Ok r \<and>
     length (tx_Operations r) = 3 \<and>
     op_RelatedOperations (tx_Operations r ! 2) = [\<lparr>oi_Index = 0, oi_NetworkIndex = None\<rparr>]"
proof -
  from sample_tx1_converts obtain r where
    r: "TxToRosettaTx sdk_ref (NewBlockConverter None sample_coins) sample_tx1 = Ok r" ..
  note l = TxToRosettaTx_layout [OF sample_wf(1) sdk_ref_ok(1) r]
  from l have "length (tx_Operations r) = 3" by simp
  moreover from l have "op_RelatedOperations (tx_Operations r ! (1 + 1)) =
      [\<lparr>oi_Index = 0, oi_NetworkIndex = None\<rparr>]"
    by (auto simp: Let_def int64_of_len_def dest: spec [of _ 1])
  ultimately show ?thesis using r by (auto simp: numeral_2_eq_2)
qed

text \<open>
  The integer an operation moves, and the value the converter has for a box (0 where there
  is none).
\<close>

definition op_amount :: "operation \<Rightarrow> int" where
  "op_amount op = (case op_value op of Some z \<Rightarrow> z | None \<Rightarrow> 0)"

definition known_value :: "block_converter \<Rightarrow> string \<Rightarrow> int" where
  "known_value c b =
     (case findCoinForInput c b of
        Ok ac \<Rightarrow> (case coin_value ac of Some z \<Rightarrow> z | None \<Rightarrow> 0)
      | _ \<Rightarrow> 0)"

text \<open>
  C22: The operations of a converted transaction move exactly the value of its outputs minus
  the value of the boxes it spends, so those of a balanced transaction sum to zero.
\<close>

theorem TxToRosettaTx_balance:
  assumes "wf_tx t" and "negates S" and "TxToRosettaTx S c t = Ok r"
  shows "(\<Sum>op \<leftarrow> tx_Operations r. op_amount op) =
    (\<Sum>x \<leftarrow> tx_outputs t. sint (out_Value x)) - (\<Sum>b \<leftarrow> spent_ids t. known_value c b)"
proof -
  from TxToRosettaTx_OkE [OF assms] obtain ins outs where
    r: "r = \<lparr>tx_TransactionIdentifier = \<lparr>ti_Hash = tx_id t\<rparr>, tx_Operations = ins @ outs\<rparr>"
    and len: "length ins = length (tx_inputs t)" "length outs = length (tx_outputs t)"
    and i: "\<And>k. k < length (tx_inputs t) \<Longrightarrow>
       \<exists>ac z. findCoinForInput c (in_BoxID (tx_inputs t ! k)) = Ok ac \<and> coin_value ac = Some z \<and>
         ins ! k = spent_op (int64_of_len k) (int64_of_len k) (in_BoxID (tx_inputs t ! k)) ac z"
    and o': "\<And>k. k < length (tx_outputs t) \<Longrightarrow>
       \<exists>addr idx. output_address c (out_ErgoTree (tx_outputs t ! k)) = Ok addr \<and>
         out_Index (tx_outputs t ! k) = Some idx \<and>
         outs ! k = made_op (int64_of_len (length ins + k)) (map related_of ins) addr idx
                      (tx_outputs t ! k)"
    by metis
  have "map op_amount ins = map (\<lambda>b. - known_value c b) (spent_ids t)"
  proof (rule nth_equalityI)
    show "length (map op_amount ins) = length (map (\<lambda>b. - known_value c b) (spent_ids t))"
      using len by (simp add: spent_ids_def)
    show "map op_amount ins ! k = map (\<lambda>b. - known_value c b) (spent_ids t) ! k"
      if "k < length (map op_amount ins)" for k
      using i [of k] that len by (auto simp: op_amount_def known_value_def spent_ids_def)
  qed
  moreover have "map op_amount outs = map (\<lambda>x. sint (out_Value x)) (tx_outputs t)"
  proof (rule nth_equalityI)
    show "length (map op_amount outs) = length (map (\<lambda>x. sint (out_Value x)) (tx_outputs t))"
      using len by simp
    show "map op_amount outs ! k = map (\<lambda>x. sint (out_Value x)) (tx_outputs t) ! k"
      if "k < length (map op_amount outs)" for k
      using o' [of k] that len by (auto simp: op_amount_def)
  qed
  moreover have "(\<Sum>b \<leftarrow> spent_ids t. - known_value c b) = - (\<Sum>b \<leftarrow> spent_ids t. known_value c b)"
    by (induction "spent_ids t") (simp_all add: uminus_sum_list_map o_def)
  ultimately show ?thesis by (simp add: r)
qed

theorem TxToRosettaTx_balance_witness:
  "\<exists>r. TxToRosettaTx sdk_ref (NewBlockConverter None sample_coins) sample_tx1 = Ok r \<and>
     (\<Sum>op \<leftarrow> tx_Operations r. op_amount op) = 0"
proof -
  from sample_tx1_converts obtain r where
    r: "TxToRosettaTx sdk_ref (NewBlockConverter None sample_coins) sample_tx1 = Ok r" ..
  have "known_value (NewBlockConverter None sample_coins) ''g'' = 100"
    by (simp add: known_value_def findCoinForInput_def NewBlockConverter_def)
  with TxToRosettaTx_balance [OF sample_wf(1) sdk_ref_ok(1) r] r show ?thesis by simp
qed

section \<open>Spending inside a block\<close>

lemma known_in_block:
  assumes "converts S c ts rs" and "list_all wf_tx ts" and "negates S"
    and "distinct (concat (map created_ids ts))" and "j < k" and "k < length ts"
    and "q < length (tx_outputs (ts ! j))"
  shows "\<exists>addr. output_address c (out_ErgoTree (tx_outputs (ts ! j) ! q)) = Ok addr \<and>
    blockTxInputs (foldl storeTxCoins c (take k rs)) (out_id (tx_outputs (ts ! j) ! q)) =
      Some (made_coin addr (tx_outputs (ts ! j) ! q))"
proof -
  let ?x = "tx_outputs (ts ! j) ! q"
  have j: "j < length ts" "j < length rs" and len: "length rs = length ts"
    using assms(1,5,6) by (simp_all add: converts_def)
  have tj: "wf_tx (ts ! j)" "TxToRosettaTx S (foldl storeTxCoins c (take j rs)) (ts ! j) = Ok (rs ! j)"
    using assms(1,2) j by (auto simp: converts_def list_all_length)
  obtain addrs where
    addrs: "length addrs = length (tx_outputs (ts ! j))"
      "created_coins (rs ! j) = map2 (\<lambda>a x. (out_id x, made_coin a x)) addrs (tx_outputs (ts ! j))"
      "\<And>k. k < length (tx_outputs (ts ! j)) \<Longrightarrow> output_address (foldl storeTxCoins c (take j rs))
         (out_ErgoTree (tx_outputs (ts ! j) ! k)) = Ok (addrs ! k)"
    by (rule converted_created_coins [OF tj(1) assms(3) tj(2)]) blast
  let ?cs = "concat (map created_coins (take k rs))"
  have "created_coins (rs ! j) ! q = (out_id ?x, made_coin (addrs ! q) ?x)"
    and "q < length (created_coins (rs ! j))"
    using addrs assms(7) by simp_all
  then have "(out_id ?x, made_coin (addrs ! q) ?x) \<in> set (created_coins (rs ! j))"
    by (metis nth_mem)
  moreover have "rs ! j \<in> set (take k rs)"
    using assms(5) j(2) by (auto simp: in_set_conv_nth intro: exI [of _ j])
  ultimately have mem: "(out_id ?x, made_coin (addrs ! q) ?x) \<in> set ?cs" by auto
  have "map fst ?cs = concat (map created_ids (take k ts))"
  proof -
    have "map (\<lambda>r. map fst (created_coins r)) (take k rs) = map created_ids (take k ts)"
      using converts_created [OF assms(1-3)] assms(6) len by (intro nth_equalityI) auto
    then show ?thesis by (simp add: map_concat o_def)
  qed
  moreover have "distinct (concat (map created_ids (take k ts)))"
    using assms(4) by (metis append_take_drop_id concat_append distinct_append map_append)
  ultimately have "distinct (map fst ?cs)" by (rule ssubst)
  then have "distinct (map fst (rev ?cs))" by (simp only: rev_map [symmetric] distinct_rev)
  with mem have "map_of (rev ?cs) (out_id ?x) = Some (made_coin (addrs ! q) ?x)"
    by (simp add: map_of_is_SomeI)
  then have "blockTxInputs (foldl storeTxCoins c (take k rs)) (out_id ?x) =
      Some (made_coin (addrs ! q) ?x)"
    by (simp add: foldl_storeTxCoins_known)
  with addrs(3) [OF assms(7)] show ?thesis by auto
qed

text \<open>
  Where a transaction of a block spends an output of an earlier transaction of the same
  block (box identifiers being unique in the block), the input operation carries the
  address of that output and minus its value, whatever the prefetched coins say.
\<close>

theorem in_block_spend:
  assumes "negates S" and "list_all wf_tx ts"
    and "fb_Header fb = Some h" and "fb_BlockTransactions fb = Some bt"
    and "bt_Transactions bt = Some ts"
    and "BlockToRosettaBlock S c (Some fb) = Ok b"
    and "distinct (concat (map created_ids ts))"
    and "j < k" and "k < length ts" and "q < length (tx_outputs (ts ! j))"
    and "p < length (spent_ids (ts ! k))"
    and "spent_ids (ts ! k) ! p = created_ids (ts ! j) ! q"
  shows "\<exists>addr. output_address c (out_ErgoTree (tx_outputs (ts ! j) ! q)) = Ok addr \<and>
    op_Account (tx_Operations (bk_Transactions b ! k) ! p) = Some \<lparr>ai_Address = addr\<rparr> \<and>
    op_value (tx_Operations (bk_Transactions b ! k) ! p) =
      Some (- sint (out_Value (tx_outputs (ts ! j) ! q)))"
proof -
  let ?x = "tx_outputs (ts ! j) ! q" and ?ck = "\<lambda>rs. foldl storeTxCoins c (take k rs)"
  from assms(6) obtain rs where conv: "converts S c ts rs" and b: "bk_Transactions b = rs"
    unfolding BlockToRosettaBlock_Ok_iff [OF assms(3-5)] by auto
  from known_in_block [OF conv assms(2,1,7-10)] obtain addr where
    addr: "output_address c (out_ErgoTree ?x) = Ok addr"
    and known: "blockTxInputs (?ck rs) (out_id ?x) = Some (made_coin addr ?x)" by blast
  have "wf_tx (ts ! k)" and "TxToRosettaTx S (?ck rs) (ts ! k) = Ok (rs ! k)"
    using conv assms(2,9) by (auto simp: converts_def list_all_length)
  from TxToRosettaTx_OkE [OF this(1) assms(1) this(2)] obtain ins outs where
    r: "rs ! k = \<lparr>tx_TransactionIdentifier = \<lparr>ti_Hash = tx_id (ts ! k)\<rparr>, tx_Operations = ins @ outs\<rparr>"
      "length ins = length (tx_inputs (ts ! k))"
    and i: "\<And>p. p < length (tx_inputs (ts ! k)) \<Longrightarrow>
       \<exists>ac z. findCoinForInput (?ck rs) (in_BoxID (tx_inputs (ts ! k) ! p)) = Ok ac \<and>
         coin_value ac = Some z \<and> ins ! p = spent_op (int64_of_len p) (int64_of_len p)
           (in_BoxID (tx_inputs (ts ! k) ! p)) ac z"
    by metis
  from i [of p] assms(11) obtain ac z where
    op: "findCoinForInput (?ck rs) (in_BoxID (tx_inputs (ts ! k) ! p)) = Ok ac"
      "coin_value ac = Some z"
      "ins ! p = spent_op (int64_of_len p) (int64_of_len p) (in_BoxID (tx_inputs (ts ! k) ! p)) ac z"
    by (auto simp: spent_ids_def)
  have box: "in_BoxID (tx_inputs (ts ! k) ! p) = out_id ?x"
    using assms(10-12) by (simp add: spent_ids_def created_ids_def)
  with op(1) known have "ac = made_coin addr ?x" by (simp add: findCoinForInput_Ok_iff)
  with op addr assms(11) r show ?thesis
    by (simp add: b nth_append spent_ids_def) (simp add: made_coin_def)
qed

theorem in_block_spend_witness:
  "\<exists>b. BlockToRosettaBlock sdk_ref (NewBlockConverter None sample_coins) (Some sample_block) = Ok b \<and>
     op_value (tx_Operations (bk_Transactions b ! 1) ! 0) = Some (- 60)"
proof -
  obtain rs where "converts sdk_ref (NewBlockConverter None sample_coins) [sample_tx1, sample_tx2] rs"
    using converts_exists_iff [of "[sample_tx1, sample_tx2]" sdk_ref "NewBlockConverter None sample_coins"]
    by (auto simp: less_Suc_eq outputs_resolved_def coin_known_def findCoinForInput_Ok_iff
        NewBlockConverter_def)
  then obtain b where
    b: "BlockToRosettaBlock sdk_ref (NewBlockConverter None sample_coins) (Some sample_block) = Ok b"
    using BlockToRosettaBlock_Ok_iff [OF sample_fields] by blast
  from in_block_spend [OF sdk_ref_ok(1) _ sample_fields b, of 0 1 0 0] b show ?thesis by auto
qed

section \<open>The header\<close>

text \<open>
  The converted header has the height as its index. Above height 1 the parent is the
  header's own parent at the index one below (no wrap-around, whatever the 32-bit height);
  at height 1 the block is its own parent.
\<close>

theorem HeaderToRosettaBlock_parent:
  "sint (bi_Index (bk_BlockIdentifier (HeaderToRosettaBlock h))) = sint (bh_Height h) \<and>
   bi_Hash (bk_BlockIdentifier (HeaderToRosettaBlock h)) = bh_ID h \<and>
   (if sint (bh_Height h) = 1
    then bk_ParentBlockIdentifier (HeaderToRosettaBlock h) =
           bk_BlockIdentifier (HeaderToRosettaBlock h)
    else sint (bi_Index (bk_ParentBlockIdentifier (HeaderToRosettaBlock h))) =
           sint (bh_Height h) - 1 \<and>
         bi_Hash (bk_ParentBlockIdentifier (HeaderToRosettaBlock h)) = bh_ParentID h)"
proof -
  have one: "int64_of_int32 (bh_Height h) = 1 \<longleftrightarrow> sint (bh_Height h) = 1"
  proof -
    have "int64_of_int32 (bh_Height h) = 1 \<longleftrightarrow> sint (int64_of_int32 (bh_Height h)) = sint (1 :: int64)"
      by (auto intro: signed_word_eqI simp del: sint_int64_of_int32)
    then show ?thesis by simp
  qed
  have "sint (int64_of_int32 (bh_Height h) - 1) = sint (bh_Height h) - 1"
  proof -
    have "sint (int64_of_int32 (bh_Height h) - 1) =
        signed_take_bit 63 (sint (int64_of_int32 (bh_Height h)) - 1)"
      by (simp add: sint_word_ariths)
    also have "\<dots> = sint (int64_of_int32 (bh_Height h)) - 1"
      using sint_int32_bounds [of "bh_Height h"] by (intro signed_take_bit_int_eq_self) simp_all
    finally show ?thesis by simp
  qed
  with one show ?thesis by (simp add: HeaderToRosettaBlock_def Let_def genesisBlockIndex_def)
qed

end
