(* ===== verification/Keyed_Table.thy ===== *)
theory Keyed_Table
  imports Main
begin

text \<open>
  The interface of the indexer's two mutable tables, the wait table and the coin cache:
  look a key up, store under a key, remove a key. The lemmas a client needs are proved
  once from the laws; each table's theory interprets the locale on its own operations.
\<close>

locale keyed_table =
  fixes get :: "'t \<Rightarrow> 'k \<Rightarrow> 'v option"
    and put :: "'t \<Rightarrow> 'k \<Rightarrow> 'v \<Rightarrow> 't"
    and del :: "'t \<Rightarrow> 'k \<Rightarrow> 't"
    and inv :: "'t \<Rightarrow> bool"
  assumes get_put: "inv t \<Longrightarrow> get (put t k v) = (get t)(k \<mapsto> v)"
    and get_del: "inv t \<Longrightarrow> get (del t k) = (get t)(k := None)"
    and inv_put: "inv t \<Longrightarrow> inv (put t k v)"
    and inv_del: "inv t \<Longrightarrow> inv (del t k)"
begin

text \<open>The decision at the end of a wait: remove the entry or store it back.\<close>

lemma get_put_or_del:
  "inv t \<Longrightarrow> get (if P then del t k else put t k v) k' =
     (if k' = k then (if P then None else Some v) else get t k')"
  by (simp add: get_put get_del)

lemma inv_put_or_del: "inv t \<Longrightarrow> inv (if P then del t k else put t k v)"
  by (simp add: inv_put inv_del)

text \<open>A property of all entries.\<close>

lemma all_put:
  assumes "inv t" and "\<And>k' v'. get t k' = Some v' \<Longrightarrow> k' \<noteq> k \<Longrightarrow> P k' v'" and "P k v"
    and "get (put t k v) k' = Some v'"
  shows "P k' v'"
  using assms by (auto simp: get_put split: if_splits)

lemma all_del:
  assumes "inv t" and "\<And>k' v'. get t k' = Some v' \<Longrightarrow> P k' v'"
    and "get (del t k) k' = Some v'"
  shows "P k' v'"
  using assms by (auto simp: get_del split: if_splits)

text \<open>Storing many and removing many.\<close>

lemma inv_foldl_put: "inv t \<Longrightarrow> inv (foldl (\<lambda>t kv. put t (fst kv) (snd kv)) t kvs)"
  by (induction kvs arbitrary: t) (simp_all add: inv_put)

lemma get_foldl_put:
  "inv t \<Longrightarrow> get (foldl (\<lambda>t kv. put t (fst kv) (snd kv)) t kvs) = get t ++ map_of (rev kvs)"
  by (induction kvs arbitrary: t) (simp_all add: inv_put get_put)

lemma inv_foldl_del: "inv t \<Longrightarrow> inv (foldl del t ks)"
  by (induction ks arbitrary: t) (simp_all add: inv_del)

lemma get_foldl_del: "inv t \<Longrightarrow> get (foldl del t ks) k = (if k \<in> set ks then None else get t k)"
  by (induction ks arbitrary: t) (auto simp: inv_del get_del)

text \<open>Storing entries and then removing their keys leaves the other keys as they were.\<close>

lemma get_del_after_put:
  assumes "inv t" and "set ks = fst ` set kvs"
  shows "get (foldl del (foldl (\<lambda>t kv. put t (fst kv) (snd kv)) t kvs) ks) k =
     (if k \<in> set ks then None else get t k)"
proof -
  have "map_of (rev kvs) k = None" if "k \<notin> set ks"
    using that assms(2) by (simp add: map_of_eq_None_iff)
  then show ?thesis
    using assms(1) by (simp add: get_foldl_del inv_foldl_put get_foldl_put map_add_def)
qed

end

end
