(* ===== verification/Wait_Table.thy ===== *)
theory Wait_Table
  imports Rosetta_Types Keyed_Table "HOL-Library.AList"
begin

text \<open>
  pkg/indexer/wait_table.go: the table of transactions that block fetchers wait for. The
  Go map is an association list with distinct keys, so that the loop over it in
  \<open>BlockAdded\<close> can be executed; its mutex is a flag. A channel is a number: two entries
  share a channel only if their numbers are equal.
\<close>

record wait_table_entry =
  wte_listeners :: int
  wte_channel :: nat
  wte_channelClosed :: bool
  wte_aborted :: bool
  wte_earliestBlock :: int64

record wait_table =
  wt_table :: "(string \<times> wait_table_entry) list"
  wt_locked :: bool

definition newWaitTable :: wait_table where
  "newWaitTable = \<lparr>wt_table = [], wt_locked = False\<rparr>"

definition wt_Lock :: "wait_table \<Rightarrow> wait_table" where
  "wt_Lock t = t\<lparr>wt_locked := True\<rparr>"

definition wt_Unlock :: "wait_table \<Rightarrow> wait_table" where
  "wt_Unlock t = t\<lparr>wt_locked := False\<rparr>"

text \<open>
  The three operations, without their \<open>safe\<close> argument: with it they take and release the
  mutex around the same access, which is one atomic step in the model.
\<close>

definition wt_Get :: "wait_table \<Rightarrow> string \<Rightarrow> wait_table_entry option" where
  "wt_Get t key = map_of (wt_table t) key"

definition wt_Set :: "wait_table \<Rightarrow> string \<Rightarrow> wait_table_entry \<Rightarrow> wait_table" where
  "wt_Set t key v = t\<lparr>wt_table := AList.update key v (wt_table t)\<rparr>"

definition wt_Delete :: "wait_table \<Rightarrow> string \<Rightarrow> wait_table" where
  "wt_Delete t key = t\<lparr>wt_table := AList.delete key (wt_table t)\<rparr>"

definition wt_wf :: "wait_table \<Rightarrow> bool" where
  "wt_wf t \<longleftrightarrow> distinct (map fst (wt_table t))"

interpretation wt: keyed_table wt_Get wt_Set wt_Delete wt_wf
proof unfold_locales
  show "wt_Get (wt_Set t k v) = (wt_Get t)(k \<mapsto> v)" if "wt_wf t" for t k v
    by (simp add: wt_Get_def wt_Set_def fun_eq_iff AList.update_conv')
  show "wt_Get (wt_Delete t k) = (wt_Get t)(k := None)" if "wt_wf t" for t k
    by (simp add: wt_Get_def wt_Delete_def fun_eq_iff AList.delete_conv')
  show "wt_wf (wt_Set t k v)" if "wt_wf t" for t k v
    using that by (simp add: wt_wf_def wt_Set_def AList.distinct_update)
  show "wt_wf (wt_Delete t k)" if "wt_wf t" for t k
    using that by (simp add: wt_wf_def wt_Delete_def AList.distinct_delete)
qed

lemma wt_lock_simps [simp]:
  "wt_Get (wt_Lock t) = wt_Get t" "wt_Get (wt_Unlock t) = wt_Get t"
  "wt_wf (wt_Lock t) = wt_wf t" "wt_wf (wt_Unlock t) = wt_wf t"
  "wt_table (wt_Lock t) = wt_table t" "wt_table (wt_Unlock t) = wt_table t"
  "wt_locked (wt_Lock t)" "\<not> wt_locked (wt_Unlock t)"
  "wt_Unlock (wt_Lock t) = wt_Unlock t"
  by (simp_all add: wt_Get_def wt_Lock_def wt_Unlock_def wt_wf_def fun_eq_iff)

lemma wt_locked_simps [simp]:
  "wt_locked (wt_Set t k v) = wt_locked t" "wt_locked (wt_Delete t k) = wt_locked t"
  by (simp_all add: wt_Set_def wt_Delete_def)

lemma wt_wf_new [simp]: "wt_wf newWaitTable" "wt_Get newWaitTable k = None" "\<not> wt_locked newWaitTable"
  by (simp_all add: newWaitTable_def wt_wf_def wt_Get_def)

lemma wt_Get_in_table: "wt_wf t \<Longrightarrow> wt_Get t k = Some v \<longleftrightarrow> (k, v) \<in> set (wt_table t)"
  by (simp add: wt_wf_def wt_Get_def)

text \<open>The number of listeners registered under a key; none when there is no entry.\<close>

definition listeners :: "wait_table \<Rightarrow> string \<Rightarrow> int" where
  "listeners t key = (case wt_Get t key of None \<Rightarrow> 0 | Some v \<Rightarrow> wte_listeners v)"

lemma listeners_lock [simp]: "listeners (wt_Lock t) = listeners t" "listeners (wt_Unlock t) = listeners t"
  by (simp_all add: listeners_def fun_eq_iff)

end
