(* ===== verification/Storage.thy ===== *)
theory Storage
  imports Rosetta_Types
begin

text \<open>
  pkg/storage: the repository's helpers for the SDK's storage modules, and the interface
  of those modules (block, coin and balance storage over one database), which are not part
  of the repository. The modules are a record of operations over an abstract database
  \<open>'db\<close>; every definition that uses storage takes that record as an argument.
\<close>

section \<open>The SDK's storage modules\<close>

text \<open>
  A database transaction is a copy of the database: \<open>st_GetHead\<close>, \<open>st_GetCoin\<close> and the
  other reads work on the copy they are given, \<open>st_SetBalance\<close> updates the copy of a write
  transaction and \<open>st_Commit\<close> installs it.
\<close>

record 'db storage_api =
  st_GetHead :: "'db \<Rightarrow> block_identifier go"
  st_AddBlock :: "block \<Rightarrow> ('db, unit) stm"
  st_RemoveBlock :: "block_identifier \<Rightarrow> ('db, unit) stm"
  st_SeeBlock :: "block \<Rightarrow> ('db, unit) stm"
  st_GetBlockLazy :: "'db \<Rightarrow> partial_block_identifier option \<Rightarrow> block_response go"
  st_GetBlockTransaction :: "'db \<Rightarrow> block_identifier \<Rightarrow> transaction_identifier \<Rightarrow> transaction go"
  st_GetCoin :: "'db \<Rightarrow> coin_identifier \<Rightarrow> (coin \<times> account_identifier option) go"
  st_GetCoins :: "'db \<Rightarrow> account_identifier \<Rightarrow> (coin list \<times> block_identifier) go"
  st_SetCoinsImported :: "(account_identifier option \<times> coin list) list \<Rightarrow> ('db, unit) stm"
  st_GetBalance :: "'db \<Rightarrow> account_identifier \<Rightarrow> currency \<Rightarrow> int64 \<Rightarrow> amount go"
  st_SetBalance :: "account_identifier option \<Rightarrow> amount \<Rightarrow> block_identifier \<Rightarrow> ('db, unit) stm"
  st_Commit :: "'db \<Rightarrow> ('db, unit) stm"

section \<open>The balance storage handler and helper\<close>

text \<open>The handler ignores every notification.\<close>

definition handler_BlockAdded :: "block \<Rightarrow> 'change list \<Rightarrow> unit go" where
  "handler_BlockAdded blk changes = Ok ()"

definition handler_BlockRemoved :: "block \<Rightarrow> 'change list \<Rightarrow> unit go" where
  "handler_BlockRemoved blk changes = Ok ()"

definition handler_AccountsReconciled :: "int \<Rightarrow> unit go" where
  "handler_AccountsReconciled count = Ok ()"

definition handler_AccountsSeen :: "int \<Rightarrow> unit go" where
  "handler_AccountsSeen count = Ok ()"

text \<open>The helper starts every unknown account at zero and exempts nothing.\<close>

definition helper_AccountBalance ::
  "account_identifier \<Rightarrow> currency \<Rightarrow> block_identifier \<Rightarrow> amount go"
where
  "helper_AccountBalance account cur blk = Ok \<lparr>am_Value = ''0'', am_Currency = cur\<rparr>"

definition helper_BalanceExemptions :: "'exemption list" where
  "helper_BalanceExemptions = []"

definition helper_ExemptFunc :: "operation \<Rightarrow> bool" where
  "helper_ExemptFunc op = False"

definition helper_AccountsReconciled :: "int go" where
  "helper_AccountsReconciled = Err (Sentinel errNotImplemented)"

definition helper_AccountsSeen :: "int go" where
  "helper_AccountsSeen = Err (Sentinel errNotImplemented)"

definition CurrentBlockIdentifier :: "'db storage_api \<Rightarrow> 'db \<Rightarrow> block_identifier go" where
  "CurrentBlockIdentifier A db = st_GetHead A db"

end
