(* ===== verification/Configuration.thy ===== *)
theory Configuration
  imports Rosetta_Types
begin

text \<open>
  pkg/config/config.go: the configuration record the services and the indexer read.
\<close>

datatype mode = Online | Offline

record bootstrap_balance =
  bb_Account :: "account_identifier option"
  bb_Value :: string
  bb_Currency :: currency

record configuration =
  cfg_Mode :: mode
  cfg_Version :: string
  cfg_Network :: network_identifier
  cfg_Currency :: currency
  cfg_GenesisBlockIdentifier :: block_identifier
  cfg_RosettaPort :: int
  cfg_NodePort :: int
  cfg_IndexerPath :: string
  cfg_GenesisUtxos :: "account_coin list"
  cfg_BootstrapBalances :: "bootstrap_balance list"
  cfg_NodeConfigPath :: string

end
