(* ===== verification/Indexer.thy ===== *)
theory Indexer
  imports Converter Ergo_Utils Wait_Table Storage Configuration
begin

text \<open>
  pkg/indexer/indexer.go: the state of the indexer and the methods the syncer calls on it
  when a block is seen, added or removed, the fetching of a block, and the bootstrapping
  of the state before the genesis block. The search for the coins of a block, which
  waits for other goroutines, is in \<open>Indexer_Find\<close>.
\<close>

section \<open>State\<close>

text \<open>
  The database, the coin cache, the counter of seen blocks, the wait table, and the
  channels: those that are closed, and the next unused number. Loggers, semaphores and
  the mutexes of the cache and the counter are not state of the model: each access they
  guard is one atomic section below.
\<close>

record 'db indexer =
  ix_db :: 'db
  ix_coinCache :: "string \<rightharpoonup> account_coin"
  ix_seen :: int64
  ix_waiter :: wait_table
  ix_closed :: "nat set"
  ix_nextChan :: nat

definition retryLimit :: nat where
  "retryLimit = 5"

definition InitIndexer :: "'db \<Rightarrow> 'db indexer" where
  "InitIndexer db =
     \<lparr>ix_db = db, ix_coinCache = Map.empty, ix_seen = 0, ix_waiter = newWaitTable,
      ix_closed = {}, ix_nextChan = 0\<rparr>"

definition with_db :: "('db, 'a) stm \<Rightarrow> ('db indexer, 'a) stm" where
  "with_db m i = (case m (ix_db i) of (r, db) \<Rightarrow> (r, i\<lparr>ix_db := db\<rparr>))"

definition upd_waiter :: "(wait_table \<Rightarrow> wait_table) \<Rightarrow> ('db indexer, unit) stm" where
  "upd_waiter f = supd (\<lambda>i. i\<lparr>ix_waiter := f (ix_waiter i)\<rparr>)"

text \<open>\<open>close(ch)\<close>\<close>

definition close_chan :: "nat \<Rightarrow> ('db indexer, unit) stm" where
  "close_chan ch i =
     (if ch \<in> ix_closed i then (Panic CloseOfClosedChannel, i)
      else (Ok (), i\<lparr>ix_closed := insert ch (ix_closed i)\<rparr>))"

section \<open>The coin cache\<close>

definition cache_put :: "(string \<rightharpoonup> account_coin) \<Rightarrow> string \<Rightarrow> account_coin \<Rightarrow> (string \<rightharpoonup> account_coin)" where
  "cache_put m k v = m(k \<mapsto> v)"

definition cache_delete :: "(string \<rightharpoonup> account_coin) \<Rightarrow> string \<Rightarrow> (string \<rightharpoonup> account_coin)" where
  "cache_delete m k = m(k := None)"

interpretation cc: keyed_table "\<lambda>m. m" cache_put cache_delete "\<lambda>_. True"
  by unfold_locales (simp_all add: cache_put_def cache_delete_def)

text \<open>
  The loops over the operations of a block: an operation that creates a coin (the test is
  the one of \<open>created_coin\<close>) stores it when the block is seen, and removes it when the
  block is added.
\<close>

definition block_operations :: "block \<Rightarrow> operation list" where
  "block_operations blk = concat (map tx_Operations (bk_Transactions blk))"

definition cache_op :: "(string \<rightharpoonup> account_coin) \<Rightarrow> operation \<Rightarrow> (string \<rightharpoonup> account_coin)" where
  "cache_op m op = (case created_coin op of None \<Rightarrow> m | Some (i, ac) \<Rightarrow> cache_put m i ac)"

definition uncache_op :: "(string \<rightharpoonup> account_coin) \<Rightarrow> operation \<Rightarrow> (string \<rightharpoonup> account_coin)" where
  "uncache_op m op = (case created_coin op of None \<Rightarrow> m | Some (i, ac) \<Rightarrow> cache_delete m i)"

section \<open>BlockSeen\<close>

text \<open>Its four atomic sections: cache, counter, storage, and waking the waiters.\<close>

definition BlockSeen_cache :: "block \<Rightarrow> ('db indexer, unit) stm" where
  "BlockSeen_cache blk =
     supd (\<lambda>i. i\<lparr>ix_coinCache := foldl cache_op (ix_coinCache i) (block_operations blk)\<rparr>)"

definition BlockSeen_count :: "('db indexer, unit) stm" where
  "BlockSeen_count = supd (\<lambda>i. i\<lparr>ix_seen := ix_seen i + 1\<rparr>)"

definition id_text :: "block_identifier \<Rightarrow> string" where
  "id_text b = bi_Hash b @ '':'' @ show_int (sint (bi_Index b))"

definition BlockSeen_store :: "'db storage_api \<Rightarrow> block \<Rightarrow> ('db indexer, unit) stm" where
  "BlockSeen_store A blk =
     smap_err (\<lambda>err. Wrapf [] err ('': unable to encounter block to storage '' @
                                   id_text (bk_BlockIdentifier blk)))
       (with_db (st_SeeBlock A blk))"

text \<open>The entry is shared by pointer: setting its flag is visible in the table.\<close>

definition wake_tx :: "transaction \<Rightarrow> ('db indexer, unit) stm" where
  "wake_tx tx i =
     (let txHash = ti_Hash (tx_TransactionIdentifier tx)
      in case wt_Get (ix_waiter i) txHash of
           None \<Rightarrow> (Ok (), i)
         | Some val \<Rightarrow>
             if wte_channelClosed val then (Ok (), i)
             else sbind (upd_waiter (\<lambda>t. wt_Set t txHash (val\<lparr>wte_channelClosed := True\<rparr>)))
                    (\<lambda>_. close_chan (wte_channel val)) i)"

definition BlockSeen_wake :: "block \<Rightarrow> ('db indexer, unit) stm" where
  "BlockSeen_wake blk =
     sbind (upd_waiter wt_Lock) (\<lambda>_.
     sbind (sfor wake_tx (bk_Transactions blk)) (\<lambda>_.
     upd_waiter wt_Unlock))"

text \<open>\<open>acquire\<close> is the result of acquiring the semaphore.\<close>

definition BlockSeen :: "'db storage_api \<Rightarrow> unit go \<Rightarrow> block \<Rightarrow> ('db indexer, unit) stm" where
  "BlockSeen A acquire blk =
     sbind (sgo acquire) (\<lambda>_.
     sbind (BlockSeen_cache blk) (\<lambda>_.
     sbind BlockSeen_count (\<lambda>_.
     sbind (BlockSeen_store A blk) (\<lambda>_.
     BlockSeen_wake blk))))"

section \<open>BlockAdded\<close>

text \<open>
  Inputs must carry negative values before a block is stored. The action of an operation
  is read through its coin change without a nil test. With an unparsable value the nil
  big integer is printed into the message.
\<close>

definition ensure_op :: "sdk \<Rightarrow> operation \<Rightarrow> operation go" where
  "ensure_op S op =
     gbind (deref (op_CoinChange op)) (\<lambda>cc.
     if cc_CoinAction cc \<noteq> CoinSpent then Ok op
     else gbind (deref (op_Amount op)) (\<lambda>am.
       case SetString (am_Value am) of
         None \<Rightarrow> Err (New ''<nil> is not an integer'')
       | Some bigVal \<Rightarrow>
           if sgn bigVal = 1
           then gbind (map_err (\<lambda>err. Wrapf [] err '': unable to negate input'')
                         (NegateValue S (am_Value am)))
                  (\<lambda>negatedVal. Ok (op\<lparr>op_Amount := Some (am\<lparr>am_Value := negatedVal\<rparr>)\<rparr>))
           else Ok op))"

definition ensureNegativeValueInputs :: "sdk \<Rightarrow> block \<Rightarrow> block go" where
  "ensureNegativeValueInputs S blk =
     gbind (gmapM (\<lambda>tx. gbind (gmapM (ensure_op S) (tx_Operations tx))
                          (\<lambda>ops. Ok (tx\<lparr>tx_Operations := ops\<rparr>)))
              (bk_Transactions blk))
       (\<lambda>txs. Ok (blk\<lparr>bk_Transactions := txs\<rparr>))"

definition BlockAdded_store :: "'db storage_api \<Rightarrow> block \<Rightarrow> ('db indexer, unit) stm" where
  "BlockAdded_store A blk =
     smap_err (\<lambda>err. Wrapf [] err ('': unable to add block to storage '' @
                                   id_text (bk_BlockIdentifier blk)))
       (with_db (st_AddBlock A blk))"

definition BlockAdded_uncache :: "block \<Rightarrow> ('db indexer, unit) stm" where
  "BlockAdded_uncache blk =
     supd (\<lambda>i. i\<lparr>ix_coinCache := foldl uncache_op (ix_coinCache i) (block_operations blk)\<rparr>)"

text \<open>
  Waits for the next block that are still open can no longer be satisfied: they are
  marked aborted and woken.
\<close>

definition abort_entry :: "block \<Rightarrow> string \<times> wait_table_entry \<Rightarrow> ('db indexer, unit) stm" where
  "abort_entry blk = (\<lambda>(txHash, val).
     if wte_earliestBlock val = bi_Index (bk_BlockIdentifier blk) + 1 \<and> \<not> wte_channelClosed val
     then sbind (upd_waiter (\<lambda>t. wt_Set t txHash
                   (val\<lparr>wte_channelClosed := True, wte_aborted := True\<rparr>)))
            (\<lambda>_. close_chan (wte_channel val))
     else sret ())"

definition BlockAdded_abort :: "block \<Rightarrow> ('db indexer, unit) stm" where
  "BlockAdded_abort blk =
     sbind (upd_waiter wt_Lock) (\<lambda>_.
     sbind (\<lambda>i. sfor (abort_entry blk) (wt_table (ix_waiter i)) i) (\<lambda>_.
     upd_waiter wt_Unlock))"

definition BlockAdded :: "sdk \<Rightarrow> 'db storage_api \<Rightarrow> block \<Rightarrow> ('db indexer, unit) stm" where
  "BlockAdded S A blk =
     sbind (sgo (map_err (\<lambda>err. Wrapf ''failed to ensure negative value inputs: '' err [])
                   (ensureNegativeValueInputs S blk))) (\<lambda>blk'.
     sbind (BlockAdded_store A blk') (\<lambda>_.
     sbind (BlockAdded_uncache blk') (\<lambda>_.
     BlockAdded_abort blk')))"

section \<open>BlockRemoved\<close>

definition BlockRemoved :: "'db storage_api \<Rightarrow> block_identifier \<Rightarrow> ('db indexer, unit) stm" where
  "BlockRemoved A blockIdentifier =
     smap_err (\<lambda>err. Wrapf [] err ('': unable to remove block from storage '' @
                                   id_text blockIdentifier))
       (with_db (st_RemoveBlock A blockIdentifier))"

section \<open>Fetching a block\<close>

text \<open>With both a hash and an index the second answer wins; with neither the block is nil.\<close>

definition getBlockByIdentifier ::
  "client option \<Rightarrow> partial_block_identifier \<Rightarrow> full_block option go"
where
  "getBlockByIdentifier c blockID =
     gbind (case pbi_Hash blockID of
              None \<Rightarrow> Ok None
            | Some h \<Rightarrow> gbind (GetBlockByID c h) (\<lambda>b. Ok (Some b))) (\<lambda>blk.
     case pbi_Index blockID of
       None \<Rightarrow> Ok blk
     | Some k \<Rightarrow> gbind (GetBlockByIndex c k) (\<lambda>b. Ok (Some b)))"

text \<open>
  The retry loop of \<open>Block\<close>. The environment of an attempt is the context's state before
  it, the client's answers during it and the outcome of the sleep after it. When the
  context is cancelled before an attempt the loop ends with a nil block and no inputs.
\<close>

record attempt =
  at_ctxErr :: "go_error option"
  at_client :: "client option"
  at_sleep :: "go_error option"

definition block_inputs :: "sdk \<Rightarrow> full_block option \<Rightarrow> input_ctx list go" where
  "block_inputs S blk =
     gbind (deref blk) (\<lambda>fb.
     gbind (deref (fb_BlockTransactions fb)) (\<lambda>bt. GetInputsForTxs S (bt_Transactions bt)))"

function fetch_loop ::
  "sdk \<Rightarrow> (nat \<Rightarrow> attempt) \<Rightarrow> partial_block_identifier \<Rightarrow> nat \<Rightarrow>
   (full_block option \<times> input_ctx list) go"
where
  "fetch_loop S env blockID retries =
     (let a = env retries
      in if at_ctxErr a \<noteq> None then Ok (None, [])
         else case getBlockByIdentifier (at_client a) blockID of
                Ok blk \<Rightarrow> gbind (block_inputs S blk) (\<lambda>ins. Ok (blk, ins))
              | Panic p \<Rightarrow> Panic p
              | Err err \<Rightarrow>
                  if retries + 1 > retryLimit
                  then Err (Wrapf [] err ('': unable to get raw block '' @ FormatPartialID S blockID))
                  else case at_sleep a of
                         Some e \<Rightarrow> Err e
                       | None \<Rightarrow> fetch_loop S env blockID (retries + 1))"
  by pat_completeness auto
termination
  by (relation "measure (\<lambda>(S, env, blockID, retries). Suc retryLimit - retries)") auto

declare fetch_loop.simps [simp del]

text \<open>
  \<open>Block\<close> itself. The coins come from \<open>findCoins\<close>, which runs concurrently with the other
  handlers; its result is an argument here.
\<close>

definition Block ::
  "sdk \<Rightarrow> (nat \<Rightarrow> attempt) \<Rightarrow> client option \<Rightarrow>
   (full_block option \<Rightarrow> input_ctx list \<Rightarrow> (string \<rightharpoonup> account_coin) go) \<Rightarrow>
   partial_block_identifier \<Rightarrow> block go"
where
  "Block S env c findCoins blockID =
     gbind (fetch_loop S env blockID 0) (\<lambda>(ergoBlock, requiredInputs).
     gbind (map_err (\<lambda>err. Wrapf ''findCoins failed: '' err []) (findCoins ergoBlock requiredInputs))
       (\<lambda>coinMap.
     gbind (BlockToRosettaBlock S (NewBlockConverter c coinMap) ergoBlock) (\<lambda>blk.
     gbind (map_err (\<lambda>err. Wrapf [] err ('': block is not valid '' @ FormatPartialID S blockID))
              (AssertBlock S blk)) (\<lambda>_.
     Ok blk))))"

section \<open>Bootstrapping the pre-genesis state\<close>

text \<open>The body of the loop, on the copy of the database held by the write transaction.\<close>

definition bootstrap_balance_step ::
  "configuration \<Rightarrow> 'db storage_api \<Rightarrow> bootstrap_balance \<Rightarrow> ('db, unit) stm"
where
  "bootstrap_balance_step cfg A balance =
     (case SetString (bb_Value balance) of
        None \<Rightarrow> sgo (Err (New (bb_Value balance @ '' is not an integer'')))
      | Some amountValue \<Rightarrow>
          if sgn amountValue < 1
          then sgo (Err (New (''cannot bootstrap zero or negative balance '' @ show_int amountValue)))
          else sbind (sgo (deref (bb_Account balance))) (\<lambda>acct.
            st_SetBalance A (Some acct)
              \<lparr>am_Value = bb_Value balance, am_Currency = bb_Currency balance\<rparr>
              (cfg_GenesisBlockIdentifier cfg)))"

definition bootstrapBalances :: "configuration \<Rightarrow> 'db storage_api \<Rightarrow> ('db indexer, unit) stm" where
  "bootstrapBalances cfg A i =
     (case sfor (bootstrap_balance_step cfg A) (cfg_BootstrapBalances cfg) (ix_db i) of
        (Ok _, dbTransaction) \<Rightarrow> with_db (st_Commit A dbTransaction) i
      | (Err e, _) \<Rightarrow> (Err e, i)
      | (Panic p, _) \<Rightarrow> (Panic p, i))"

definition bootstrapGenesisState ::
  "configuration \<Rightarrow> 'db storage_api \<Rightarrow> ('db indexer, unit) stm"
where
  "bootstrapGenesisState cfg A =
     sbind (bootstrapBalances cfg A) (\<lambda>_.
     with_db (st_SetCoinsImported A
       (map (\<lambda>coin. (ac_Account coin, [ac_Coin coin])) (cfg_GenesisUtxos cfg))))"

section \<open>Header checks\<close>

definition isGenesis :: "configuration \<Rightarrow> full_block option \<Rightarrow> bool go" where
  "isGenesis cfg b =
     gbind (deref b) (\<lambda>fb. gbind (deref (fb_Header fb)) (\<lambda>h.
     Ok (bi_Hash (cfg_GenesisBlockIdentifier cfg) = bh_ID h)))"

text \<open>
  \<open>headBlock\<close> is nil when the lookup returned an error. The block's header is read only
  when there is a head block and a block.
\<close>

definition checkHeaderMatch :: "'db storage_api \<Rightarrow> 'db \<Rightarrow> full_block option \<Rightarrow> unit go" where
  "checkHeaderMatch A db blk =
     (case st_GetHead A db of
        Panic p \<Rightarrow> Panic p
      | Err err \<Rightarrow>
          if \<not> errors_Is err ErrHeadBlockNotFound
          then Err (Wrapf [] err '': unable to lookup head block'') else Ok ()
      | Ok headBlock \<Rightarrow>
          (case blk of
             None \<Rightarrow> Ok ()
           | Some fb \<Rightarrow>
               gbind (deref (fb_Header fb)) (\<lambda>h.
               if int64_of_int32 (bh_Height h) = bi_Index headBlock + 1 \<and>
                  bh_ParentID h \<noteq> bi_Hash headBlock
               then Err (Sentinel ErrOrphanHead) else Ok ())))"

end
