(* ===== verification/Indexer_Find.thy ===== *)
theory Indexer_Find
  imports Indexer
begin

text \<open>
  \<open>findCoins\<close> and \<open>findCoin\<close> of pkg/indexer/indexer.go as a thread: the point it has
  reached, its local variables, and one function that performs its next atomic section on
  the shared state. A section is what the code does under one lock, on one database
  snapshot, or as one access to a shared variable, so any interleaving with the block
  handlers is a sequence of such steps (\<open>Indexer_Machine\<close>).
\<close>

section \<open>The sections of findCoin\<close>

text \<open>
  Reading the snapshot: the head block and the coin, in one read transaction. Without a
  head block the search sleeps and retries, except for the genesis block, where the
  head stays nil.
\<close>

datatype read_result =
    RdSleep
  | RdFound coin "account_identifier option"
  | RdMissing "block_identifier option"
  | RdFail go_error
  | RdCrash go_panic

definition read_coin ::
  "'db storage_api \<Rightarrow> 'db \<Rightarrow> string \<Rightarrow> block_identifier option \<Rightarrow> read_result"
where
  "read_coin A db inputID coinHeadBlock =
     (case st_GetCoin A db \<lparr>ci_Identifier = inputID\<rparr> of
        Ok (coin, owner) \<Rightarrow> RdFound coin owner
      | Panic p \<Rightarrow> RdCrash p
      | Err err \<Rightarrow>
          if \<not> errors_Is err ErrCoinNotFound
          then RdFail (Wrapf [] err ('': unable to lookup coin '' @ inputID))
          else RdMissing coinHeadBlock)"

definition findCoin_read :: "'db storage_api \<Rightarrow> bool \<Rightarrow> 'db \<Rightarrow> string \<Rightarrow> read_result" where
  "findCoin_read A genesis db inputID =
     (case st_GetHead A db of
        Panic p \<Rightarrow> RdCrash p
      | Ok h \<Rightarrow> read_coin A db inputID (Some h)
      | Err err \<Rightarrow>
          if errors_Is err ErrHeadBlockNotFound \<and> \<not> genesis then RdSleep
          else if \<not> genesis
          then RdFail (Wrapf [] err '': unable to get transactional head block identifier'')
          else read_coin A db inputID None)"

text \<open>
  Joining the wait table, under its lock: create the entry if there is none (with the
  channel numbered \<open>ch\<close>), lower its earliest block, count one more listener.
\<close>

definition join_wait :: "string \<Rightarrow> int64 \<Rightarrow> nat \<Rightarrow> wait_table \<Rightarrow> wait_table" where
  "join_wait transactionHash height ch t =
     (let val = (case wt_Get t transactionHash of
                   Some v \<Rightarrow> v
                 | None \<Rightarrow> \<lparr>wte_listeners = 0, wte_channel = ch, wte_channelClosed = False,
                            wte_aborted = False, wte_earliestBlock = height\<rparr>);
          val = (if sint (wte_earliestBlock val) > sint height
                 then val\<lparr>wte_earliestBlock := height\<rparr> else val);
          val = val\<lparr>wte_listeners := wte_listeners val + 1\<rparr>
      in wt_Set t transactionHash val)"

text \<open>
  The whole locked section: look at the head again, give up the attempt if the head or the
  counter changed since the snapshot, otherwise join. A fresh channel number is drawn
  whether or not the entry exists.
\<close>

datatype register_result = RgRetry | RgJoined | RgFail go_error | RgCrash go_panic

definition findCoin_register ::
  "sdk \<Rightarrow> 'db storage_api \<Rightarrow> string \<Rightarrow> int64 \<Rightarrow> int64 \<Rightarrow> block_identifier option \<Rightarrow>
   'db indexer \<Rightarrow> register_result \<times> 'db indexer"
where
  "findCoin_register S A transactionHash height startSeen coinHeadBlock i =
     (case st_GetHead A (ix_db i) of
        Panic p \<Rightarrow> (RgCrash p, i\<lparr>ix_waiter := wt_Lock (ix_waiter i)\<rparr>)
      | Err err \<Rightarrow> (RgFail (Wrapf [] err '': unable to get head block identifier''), i)
      | Ok currHeadBlock \<Rightarrow>
          if HashBlockID S (Some currHeadBlock) \<noteq> HashBlockID S coinHeadBlock \<or> ix_seen i \<noteq> startSeen
          then (RgRetry, i)
          else (RgJoined,
                i\<lparr>ix_waiter := join_wait transactionHash height (ix_nextChan i) (ix_waiter i),
                  ix_nextChan := Suc (ix_nextChan i)\<rparr>))"

text \<open>
  Leaving it again after waking, under its lock: note whether the wait was aborted, count
  one listener less, remove the entry with its last listener.
\<close>

definition leave_wait :: "string \<Rightarrow> wait_table \<Rightarrow> (bool \<times> wait_table) option" where
  "leave_wait txHash t =
     (case wt_Get t txHash of
        None \<Rightarrow> None
      | Some val \<Rightarrow>
          let val' = val\<lparr>wte_listeners := wte_listeners val - 1\<rparr>
          in Some (wte_aborted val,
                   if wte_listeners val' = 0 then wt_Delete t txHash else wt_Set t txHash val'))"

section \<open>The thread\<close>

text \<open>
  The points: entering \<open>findCoins\<close> with a list of coins; the loop over the coins, where the
  first of the list is the one \<open>findCoin\<close> works on; its sections, with the values it has
  read; the loop over the remaining coins (getting the entry, waiting on its channel,
  leaving it); and the end.
\<close>

datatype fetch_pc =
    PcEnter "input_ctx list"
  | PcLoop "input_ctx list"
  | PcRead "input_ctx list" int64
  | PcSleep "input_ctx list"
  | PcCache "input_ctx list" int64 "block_identifier option"
  | PcRegister "input_ctx list" int64 "block_identifier option"
  | PcGet "input_ctx list"
  | PcAwait "input_ctx list" nat
  | PcLeave "input_ctx list"
  | PcReturn "(string \<rightharpoonup> account_coin) go"

text \<open>
  \<open>ft_coinMap\<close>, \<open>ft_remaining\<close> and \<open>ft_abort\<close> are the variables of the running activation
  of \<open>findCoins\<close>; \<open>ft_depth\<close> counts the activations around it and \<open>ft_acc\<close> is the merge of
  their maps (merging inner results into outer maps is associative).
\<close>

record fetcher =
  ft_block :: "full_block option"
  ft_request :: "input_ctx list"
  ft_acc :: "string \<rightharpoonup> account_coin"
  ft_depth :: nat
  ft_coinMap :: "string \<rightharpoonup> account_coin"
  ft_remaining :: "input_ctx list"
  ft_abort :: bool
  ft_pc :: fetch_pc

definition new_fetcher :: "full_block option \<Rightarrow> input_ctx list \<Rightarrow> fetcher" where
  "new_fetcher blk coins =
     \<lparr>ft_block = blk, ft_request = coins, ft_acc = Map.empty, ft_depth = 0,
      ft_coinMap = Map.empty, ft_remaining = [], ft_abort = False, ft_pc = PcEnter coins\<rparr>"

text \<open>Returning an error passes through the enclosing activations, each of which wraps it.\<close>

primrec wrap_remaining :: "nat \<Rightarrow> go_error \<Rightarrow> go_error" where
  "wrap_remaining 0 e = e"
| "wrap_remaining (Suc d) e =
     wrap_remaining d (Wrapf [] e '': unable to get remaining transactions'')"

definition ft_err :: "fetcher \<Rightarrow> go_error \<Rightarrow> fetcher" where
  "ft_err f e = f\<lparr>ft_pc := PcReturn (Err (wrap_remaining (ft_depth f) e))\<rparr>"

definition ft_panic :: "fetcher \<Rightarrow> go_panic \<Rightarrow> fetcher" where
  "ft_panic f p = f\<lparr>ft_pc := PcReturn (Panic p)\<rparr>"

text \<open>
  \<open>findCoin\<close> returning a coin or an error for the first coin of the list. (An error of the
  database or the context never is the package's own \<open>errMissingTransaction\<close>, which only
  joining the wait table returns.)
\<close>

definition ft_found :: "fetcher \<Rightarrow> input_ctx \<Rightarrow> input_ctx list \<Rightarrow> coin \<Rightarrow> account_identifier option \<Rightarrow> fetcher" where
  "ft_found f inputCtx todo coin owner =
     f\<lparr>ft_coinMap := (ft_coinMap f)(ic_InputID inputCtx \<mapsto> \<lparr>ac_Account = owner, ac_Coin = coin\<rparr>),
       ft_pc := PcLoop todo\<rparr>"

definition ft_fail :: "fetcher \<Rightarrow> input_ctx \<Rightarrow> go_error \<Rightarrow> fetcher" where
  "ft_fail f inputCtx e =
     ft_err f (Wrapf [] e ('': unable to find coin, input id: '' @ ic_InputID inputCtx @
                           '', tx id: '' @ ic_TxID inputCtx))"

text \<open>How a fetcher ends or finds a coin; the collection opens the four at once.\<close>

named_theorems end_defs \<open>the ways a search for one coin ends\<close>

declare ft_err_def [end_defs] ft_panic_def [end_defs] ft_fail_def [end_defs] ft_found_def [end_defs]

definition not_in_waiter :: "string \<Rightarrow> go_error" where
  "not_in_waiter txHash = New (''transaction '' @ txHash @ '' not in waiter'')"

definition block_height :: "full_block option \<Rightarrow> int64" where
  "block_height blk =
     (case blk of
        None \<Rightarrow> 0
      | Some fb \<Rightarrow> (case fb_Header fb of None \<Rightarrow> 0 | Some h \<Rightarrow> int64_of_int32 (bh_Height h)))"

section \<open>The steps\<close>

text \<open>Each returns \<open>None\<close> while it has to wait for a lock or a channel.\<close>

definition step_enter ::
  "'db storage_api \<Rightarrow> fetcher \<Rightarrow> input_ctx list \<Rightarrow> 'db indexer \<Rightarrow> fetcher"
where
  "step_enter A f coins i =
     (case checkHeaderMatch A (ix_db i) (ft_block f) of
        Ok _ \<Rightarrow> f\<lparr>ft_coinMap := Map.empty, ft_remaining := [], ft_abort := False,
                   ft_pc := PcLoop coins\<rparr>
      | Err err \<Rightarrow> ft_err f (Wrapf [] err '': check header match failed'')
      | Panic p \<Rightarrow> ft_panic f p)"

text \<open>
  The top of the loops: either all coins are done, and the map is returned or the remaining
  ones are waited for; or \<open>findCoin\<close> (re)starts on the first coin, tests the context and
  reads the counter.
\<close>

definition step_loop ::
  "configuration \<Rightarrow> go_error option \<Rightarrow> fetcher \<Rightarrow> input_ctx list \<Rightarrow> 'db indexer \<Rightarrow> fetcher"
where
  "step_loop cfg ctx f todo i =
     (case todo of
        [] \<Rightarrow>
          if ft_remaining f = [] then f\<lparr>ft_pc := PcReturn (Ok (ft_acc f ++ ft_coinMap f))\<rparr>
          else f\<lparr>ft_pc := PcGet (ft_remaining f)\<rparr>
      | inputCtx # rest \<Rightarrow>
          (case isGenesis cfg (ft_block f) of
             Panic p \<Rightarrow> ft_panic f p
           | Err err \<Rightarrow> ft_fail f inputCtx err
           | Ok _ \<Rightarrow>
               (case ctx of
                  Some err \<Rightarrow> ft_fail f inputCtx err
                | None \<Rightarrow> f\<lparr>ft_pc := PcRead todo (ix_seen i)\<rparr>)))"

definition step_read ::
  "configuration \<Rightarrow> 'db storage_api \<Rightarrow> fetcher \<Rightarrow> input_ctx \<Rightarrow> input_ctx list \<Rightarrow> int64 \<Rightarrow>
   'db indexer \<Rightarrow> fetcher"
where
  "step_read cfg A f inputCtx rest startSeen i =
     (case findCoin_read A (isGenesis cfg (ft_block f) = Ok True) (ix_db i) (ic_InputID inputCtx) of
        RdSleep \<Rightarrow> f\<lparr>ft_pc := PcSleep (inputCtx # rest)\<rparr>
      | RdFound coin owner \<Rightarrow> ft_found f inputCtx rest coin owner
      | RdMissing h \<Rightarrow> f\<lparr>ft_pc := PcCache (inputCtx # rest) startSeen h\<rparr>
      | RdFail err \<Rightarrow> ft_fail f inputCtx err
      | RdCrash p \<Rightarrow> ft_panic f p)"

definition step_cache ::
  "fetcher \<Rightarrow> input_ctx \<Rightarrow> input_ctx list \<Rightarrow> int64 \<Rightarrow> block_identifier option \<Rightarrow> 'db indexer \<Rightarrow> fetcher"
where
  "step_cache f inputCtx rest startSeen h i =
     (case ix_coinCache i (ic_InputID inputCtx) of
        Some accCoin \<Rightarrow> ft_found f inputCtx rest (ac_Coin accCoin) (ac_Account accCoin)
      | None \<Rightarrow> f\<lparr>ft_pc := PcRegister (inputCtx # rest) startSeen h\<rparr>)"

definition step_register ::
  "sdk \<Rightarrow> 'db storage_api \<Rightarrow> fetcher \<Rightarrow> input_ctx \<Rightarrow> input_ctx list \<Rightarrow> int64 \<Rightarrow>
   block_identifier option \<Rightarrow> 'db indexer \<Rightarrow> fetcher \<times> 'db indexer"
where
  "step_register S A f inputCtx rest startSeen h i =
     (case findCoin_register S A (ic_TxID inputCtx) (block_height (ft_block f)) startSeen h i of
        (RgRetry, i') \<Rightarrow> (f\<lparr>ft_pc := PcLoop (inputCtx # rest)\<rparr>, i')
      | (RgJoined, i') \<Rightarrow>
          (f\<lparr>ft_remaining := ft_remaining f @ [inputCtx], ft_pc := PcLoop rest\<rparr>, i')
      | (RgFail err, i') \<Rightarrow> (ft_fail f inputCtx err, i')
      | (RgCrash p, i') \<Rightarrow> (ft_panic f p, i'))"

text \<open>
  The loop over the remaining coins. At its end the search is aborted, or repeated for
  these coins in a new activation.
\<close>

definition step_get :: "fetcher \<Rightarrow> input_ctx list \<Rightarrow> 'db indexer \<Rightarrow> fetcher" where
  "step_get f ws i =
     (case ws of
        [] \<Rightarrow>
          if ft_abort f then ft_err f (Sentinel ErrOrphanHead)
          else f\<lparr>ft_acc := ft_acc f ++ ft_coinMap f, ft_depth := Suc (ft_depth f),
                 ft_coinMap := Map.empty, ft_remaining := [], ft_pc := PcEnter (ft_remaining f)\<rparr>
      | coin # rest \<Rightarrow>
          (case wt_Get (ix_waiter i) (ic_TxID coin) of
             None \<Rightarrow> ft_err f (not_in_waiter (ic_TxID coin))
           | Some entry \<Rightarrow> f\<lparr>ft_pc := PcAwait ws (wte_channel entry)\<rparr>))"

definition step_await ::
  "go_error option \<Rightarrow> fetcher \<Rightarrow> input_ctx list \<Rightarrow> nat \<Rightarrow> 'db indexer \<Rightarrow> fetcher option"
where
  "step_await ctx f ws ch i =
     (case ctx of
        Some err \<Rightarrow> Some (ft_err f err)
      | None \<Rightarrow> if ch \<in> ix_closed i then Some (f\<lparr>ft_pc := PcLeave ws\<rparr>) else None)"

text \<open>
  When the entry is gone the code returns without releasing the lock.
\<close>

definition step_leave ::
  "fetcher \<Rightarrow> input_ctx \<Rightarrow> input_ctx list \<Rightarrow> 'db indexer \<Rightarrow> fetcher \<times> 'db indexer"
where
  "step_leave f coin rest i =
     (case leave_wait (ic_TxID coin) (ix_waiter i) of
        None \<Rightarrow> (ft_err f (not_in_waiter (ic_TxID coin)),
                 i\<lparr>ix_waiter := wt_Lock (ix_waiter i)\<rparr>)
      | Some (aborted, t) \<Rightarrow>
          (f\<lparr>ft_abort := (ft_abort f \<or> aborted), ft_pc := PcGet rest\<rparr>, i\<lparr>ix_waiter := t\<rparr>))"

text \<open>
  One step of a fetcher. \<open>ctx\<close> is what the context reports at this step. A section that
  needs the wait table's lock cannot run while the lock is held.
\<close>

definition fetch_step ::
  "sdk \<Rightarrow> 'db storage_api \<Rightarrow> configuration \<Rightarrow> go_error option \<Rightarrow> fetcher \<Rightarrow> 'db indexer \<Rightarrow>
   (fetcher \<times> 'db indexer) option"
where
  "fetch_step S A cfg ctx f i =
     (let locked = wt_locked (ix_waiter i)
      in case ft_pc f of
           PcEnter coins \<Rightarrow> Some (step_enter A f coins i, i)
         | PcLoop todo \<Rightarrow> Some (step_loop cfg ctx f todo i, i)
         | PcRead (x # rest) s \<Rightarrow> Some (step_read cfg A f x rest s i, i)
         | PcSleep (x # rest) \<Rightarrow>
             (case ctx of
                Some err \<Rightarrow> Some (ft_fail f x err, i)
              | None \<Rightarrow> Some (f\<lparr>ft_pc := PcLoop (x # rest)\<rparr>, i))
         | PcCache (x # rest) s h \<Rightarrow> Some (step_cache f x rest s h i, i)
         | PcRegister (x # rest) s h \<Rightarrow>
             if locked then None else Some (step_register S A f x rest s h i)
         | PcGet ws \<Rightarrow> if locked \<and> ws \<noteq> [] then None else Some (step_get f ws i, i)
         | PcAwait ws ch \<Rightarrow> map_option (\<lambda>f'. (f', i)) (step_await ctx f ws ch i)
         | PcLeave (x # rest) \<Rightarrow> if locked then None else Some (step_leave f x rest i)
         | _ \<Rightarrow> None)"

text \<open>A step by the program counter it is taken at.\<close>

lemma fetch_stepE [consumes 1, case_names enter loop read sleep cache register get await leave]:
  assumes step: "fetch_step S A cfg ctx f i = Some (f', i')"
  obtains (enter) coins where "ft_pc f = PcEnter coins" and "f' = step_enter A f coins i" and "i' = i"
  | (loop) todo where "ft_pc f = PcLoop todo" and "f' = step_loop cfg ctx f todo i" and "i' = i"
  | (read) x rest n where "ft_pc f = PcRead (x # rest) n" and "f' = step_read cfg A f x rest n i"
      and "i' = i"
  | (sleep) x rest where "ft_pc f = PcSleep (x # rest)" and "i' = i"
      and "f' = (case ctx of Some err \<Rightarrow> ft_fail f x err | None \<Rightarrow> f\<lparr>ft_pc := PcLoop (x # rest)\<rparr>)"
  | (cache) x rest n h where "ft_pc f = PcCache (x # rest) n h" and "f' = step_cache f x rest n h i"
      and "i' = i"
  | (register) x rest n h where "ft_pc f = PcRegister (x # rest) n h"
      and "step_register S A f x rest n h i = (f', i')"
  | (get) ws where "ft_pc f = PcGet ws" and "f' = step_get f ws i" and "i' = i"
  | (await) ws ch where "ft_pc f = PcAwait ws ch" and "step_await ctx f ws ch i = Some f'" and "i' = i"
  | (leave) x rest where "ft_pc f = PcLeave (x # rest)" and "step_leave f x rest i = (f', i')"
proof (cases "ft_pc f")
  case (PcEnter coins)
  with step show thesis by (intro that(1)) (auto simp: fetch_step_def)
next
  case (PcLoop todo)
  with step show thesis by (intro that(2)) (auto simp: fetch_step_def)
next
  case (PcRead todo n)
  with step obtain x rest where "todo = x # rest" by (cases todo) (simp_all add: fetch_step_def)
  with PcRead step show thesis by (intro that(3)) (auto simp: fetch_step_def)
next
  case (PcSleep todo)
  with step obtain x rest where "todo = x # rest" by (cases todo) (simp_all add: fetch_step_def)
  with PcSleep step show thesis
    by (intro that(4)) (auto simp: fetch_step_def split: option.splits)
next
  case (PcCache todo n h)
  with step obtain x rest where "todo = x # rest" by (cases todo) (simp_all add: fetch_step_def)
  with PcCache step show thesis by (intro that(5)) (auto simp: fetch_step_def)
next
  case (PcRegister todo n h)
  with step obtain x rest where "todo = x # rest" by (cases todo) (simp_all add: fetch_step_def)
  with PcRegister step show thesis
    by (intro that(6)) (auto simp: fetch_step_def split: if_splits)
next
  case (PcGet ws)
  with step show thesis by (intro that(7)) (auto simp: fetch_step_def split: if_splits)
next
  case (PcAwait ws ch)
  with step show thesis by (intro that(8)) (auto simp: fetch_step_def)
next
  case (PcLeave ws)
  with step obtain x rest where "ws = x # rest" by (cases ws) (simp_all add: fetch_step_def)
  with PcLeave step show thesis
    by (intro that(9)) (auto simp: fetch_step_def split: if_splits)
qed (use step in \<open>simp add: fetch_step_def\<close>)

end
