(* ===== verification/Indexer_Machine.thy ===== *)
theory Indexer_Machine
  imports Indexer_Find
begin

text \<open>
  The indexer as a concurrent system: any number of block fetchers (\<open>findCoins\<close>) and block
  handlers (\<open>BlockSeen\<close>, \<open>BlockAdded\<close>, \<open>BlockRemoved\<close>) interleave at the granularity of
  their atomic sections over one shared state. A step relation, its reachable states, and
  the run of one handler alone.
\<close>

section \<open>Handlers as threads\<close>

datatype handler =
    HSeenCache block
  | HSeenCount block
  | HSeenStore block
  | HSeenWake block
  | HAddStart block
  | HAddStore block
  | HAddUncache block
  | HAddAbort block
  | HRemove block_identifier
  | HDone "unit go"

definition after_section :: "(unit go \<times> 'db indexer) \<Rightarrow> handler \<Rightarrow> handler \<times> 'db indexer" where
  "after_section rs next =
     (case rs of
        (Ok _, i') \<Rightarrow> (next, i')
      | (Err e, i') \<Rightarrow> (HDone (Err e), i')
      | (Panic p, i') \<Rightarrow> (HDone (Panic p), i'))"

definition add_start :: "sdk \<Rightarrow> block \<Rightarrow> handler" where
  "add_start S blk =
     (case map_err (\<lambda>err. Wrapf ''failed to ensure negative value inputs: '' err [])
             (ensureNegativeValueInputs S blk) of
        Ok blk' \<Rightarrow> HAddStore blk'
      | Err e \<Rightarrow> HDone (Err e)
      | Panic p \<Rightarrow> HDone (Panic p))"

definition handler_step ::
  "sdk \<Rightarrow> 'db storage_api \<Rightarrow> handler \<Rightarrow> 'db indexer \<Rightarrow> (handler \<times> 'db indexer) option"
where
  "handler_step S A h i =
     (let locked = wt_locked (ix_waiter i)
      in case h of
           HSeenCache blk \<Rightarrow> Some (after_section (BlockSeen_cache blk i) (HSeenCount blk))
         | HSeenCount blk \<Rightarrow> Some (after_section (BlockSeen_count i) (HSeenStore blk))
         | HSeenStore blk \<Rightarrow> Some (after_section (BlockSeen_store A blk i) (HSeenWake blk))
         | HSeenWake blk \<Rightarrow>
             if locked then None
             else Some (after_section (BlockSeen_wake blk i) (HDone (Ok ())))
         | HAddStart blk \<Rightarrow> Some (add_start S blk, i)
         | HAddStore blk \<Rightarrow> Some (after_section (BlockAdded_store A blk i) (HAddUncache blk))
         | HAddUncache blk \<Rightarrow> Some (after_section (BlockAdded_uncache blk i) (HAddAbort blk))
         | HAddAbort blk \<Rightarrow>
             if locked then None
             else Some (after_section (BlockAdded_abort blk i) (HDone (Ok ())))
         | HRemove b \<Rightarrow> Some (after_section (BlockRemoved A b i) (HDone (Ok ())))
         | HDone r \<Rightarrow> None)"

section \<open>The system\<close>

record 'db sys =
  sy_ix :: "'db indexer"
  sy_fetchers :: "fetcher list"
  sy_handlers :: "handler list"

definition sys_init :: "'db \<Rightarrow> 'db sys" where
  "sys_init db = \<lparr>sy_ix = InitIndexer db, sy_fetchers = [], sy_handlers = []\<rparr>"

text \<open>
  The syncer may call \<open>Block\<close> for any block and any handler at any time; every started
  thread may take its next step at any time.
\<close>

inductive sys_step :: "sdk \<Rightarrow> 'db storage_api \<Rightarrow> configuration \<Rightarrow> 'db sys \<Rightarrow> 'db sys \<Rightarrow> bool"
  for S A cfg
where
  call_Block:
    "sys_step S A cfg s (s\<lparr>sy_fetchers := sy_fetchers s @ [new_fetcher blk coins]\<rparr>)"
| call_BlockSeen:
    "sys_step S A cfg s (s\<lparr>sy_handlers := sy_handlers s @ [HSeenCache blk]\<rparr>)"
| call_BlockAdded:
    "sys_step S A cfg s (s\<lparr>sy_handlers := sy_handlers s @ [HAddStart blk]\<rparr>)"
| call_BlockRemoved:
    "sys_step S A cfg s (s\<lparr>sy_handlers := sy_handlers s @ [HRemove b]\<rparr>)"
| run_fetcher:
    "k < length (sy_fetchers s) \<Longrightarrow>
     fetch_step S A cfg ctx (sy_fetchers s ! k) (sy_ix s) = Some (f', i') \<Longrightarrow>
     sys_step S A cfg s (s\<lparr>sy_ix := i', sy_fetchers := (sy_fetchers s)[k := f']\<rparr>)"
| run_handler:
    "k < length (sy_handlers s) \<Longrightarrow>
     handler_step S A (sy_handlers s ! k) (sy_ix s) = Some (h', i') \<Longrightarrow>
     sys_step S A cfg s (s\<lparr>sy_ix := i', sy_handlers := (sy_handlers s)[k := h']\<rparr>)"

inductive reachable :: "sdk \<Rightarrow> 'db storage_api \<Rightarrow> configuration \<Rightarrow> 'db sys \<Rightarrow> bool"
  for S A cfg
where
  start: "reachable S A cfg (sys_init db)"
| step: "reachable S A cfg s \<Longrightarrow> sys_step S A cfg s s' \<Longrightarrow> reachable S A cfg s'"

inductive_cases sys_stepE: "sys_step S A cfg s s'"

text \<open>The rule every invariant is proved with.\<close>

lemma reachable_invariant
  [consumes 1, case_names init call_Block call_BlockSeen call_BlockAdded call_BlockRemoved
    run_fetcher run_handler]:
  assumes "reachable S A cfg s"
    and "\<And>db. P (sys_init db)"
    and "\<And>s blk coins. P s \<Longrightarrow> P (s\<lparr>sy_fetchers := sy_fetchers s @ [new_fetcher blk coins]\<rparr>)"
    and "\<And>s blk. P s \<Longrightarrow> P (s\<lparr>sy_handlers := sy_handlers s @ [HSeenCache blk]\<rparr>)"
    and "\<And>s blk. P s \<Longrightarrow> P (s\<lparr>sy_handlers := sy_handlers s @ [HAddStart blk]\<rparr>)"
    and "\<And>s b. P s \<Longrightarrow> P (s\<lparr>sy_handlers := sy_handlers s @ [HRemove b]\<rparr>)"
    and "\<And>s k ctx f' i'. P s \<Longrightarrow> k < length (sy_fetchers s) \<Longrightarrow>
           fetch_step S A cfg ctx (sy_fetchers s ! k) (sy_ix s) = Some (f', i') \<Longrightarrow>
           P (s\<lparr>sy_ix := i', sy_fetchers := (sy_fetchers s)[k := f']\<rparr>)"
    and "\<And>s k h' i'. P s \<Longrightarrow> k < length (sy_handlers s) \<Longrightarrow>
           handler_step S A (sy_handlers s ! k) (sy_ix s) = Some (h', i') \<Longrightarrow>
           P (s\<lparr>sy_ix := i', sy_handlers := (sy_handlers s)[k := h']\<rparr>)"
  shows "P s"
  using assms(1)
proof (induction rule: reachable.induct)
  case (start db)
  show ?case by (rule assms(2))
next
  case (step s s')
  from step.hyps(2) show ?case
  proof (cases rule: sys_step.cases)
    case (call_Block blk coins)
    then show ?thesis using assms(3) [OF step.IH] by simp
  next
    case (call_BlockSeen blk)
    then show ?thesis using assms(4) [OF step.IH] by simp
  next
    case (call_BlockAdded blk)
    then show ?thesis using assms(5) [OF step.IH] by simp
  next
    case (call_BlockRemoved b)
    then show ?thesis using assms(6) [OF step.IH] by simp
  next
    case (run_fetcher k ctx f' i')
    then show ?thesis using assms(7) [OF step.IH] by simp
  next
    case (run_handler k h' i')
    then show ?thesis using assms(8) [OF step.IH] by simp
  qed
qed

section \<open>Executable schedules\<close>

text \<open>
  A schedule names who moves next; running it is a function, and the steps of the relation
  are exactly the moves that run.
\<close>

datatype move =
    MBlock "full_block option" "input_ctx list"
  | MSeen block
  | MAdded block
  | MRemoved block_identifier
  | MFetch nat "go_error option"
  | MHandle nat

definition do_move ::
  "sdk \<Rightarrow> 'db storage_api \<Rightarrow> configuration \<Rightarrow> move \<Rightarrow> 'db sys \<Rightarrow> 'db sys option"
where
  "do_move S A cfg m s =
     (case m of
        MBlock blk coins \<Rightarrow> Some (s\<lparr>sy_fetchers := sy_fetchers s @ [new_fetcher blk coins]\<rparr>)
      | MSeen blk \<Rightarrow> Some (s\<lparr>sy_handlers := sy_handlers s @ [HSeenCache blk]\<rparr>)
      | MAdded blk \<Rightarrow> Some (s\<lparr>sy_handlers := sy_handlers s @ [HAddStart blk]\<rparr>)
      | MRemoved b \<Rightarrow> Some (s\<lparr>sy_handlers := sy_handlers s @ [HRemove b]\<rparr>)
      | MFetch k ctx \<Rightarrow>
          if k < length (sy_fetchers s)
          then (case fetch_step S A cfg ctx (sy_fetchers s ! k) (sy_ix s) of
                  None \<Rightarrow> None
                | Some (f', i') \<Rightarrow> Some (s\<lparr>sy_ix := i', sy_fetchers := (sy_fetchers s)[k := f']\<rparr>))
          else None
      | MHandle k \<Rightarrow>
          if k < length (sy_handlers s)
          then (case handler_step S A (sy_handlers s ! k) (sy_ix s) of
                  None \<Rightarrow> None
                | Some (h', i') \<Rightarrow> Some (s\<lparr>sy_ix := i', sy_handlers := (sy_handlers s)[k := h']\<rparr>))
          else None)"

lemma do_move_step: "do_move S A cfg m s = Some s' \<Longrightarrow> sys_step S A cfg s s'"
  by (cases m) (auto simp: do_move_def split: if_splits option.splits intro: sys_step.intros)

lemma sys_step_iff_move: "sys_step S A cfg s s' \<longleftrightarrow> (\<exists>m. do_move S A cfg m s = Some s')"
proof
  assume "sys_step S A cfg s s'"
  then show "\<exists>m. do_move S A cfg m s = Some s'"
  proof cases
    case (call_Block blk coins)
    then show ?thesis by (intro exI [of _ "MBlock blk coins"]) (simp add: do_move_def)
  next
    case (call_BlockSeen blk)
    then show ?thesis by (intro exI [of _ "MSeen blk"]) (simp add: do_move_def)
  next
    case (call_BlockAdded blk)
    then show ?thesis by (intro exI [of _ "MAdded blk"]) (simp add: do_move_def)
  next
    case (call_BlockRemoved b)
    then show ?thesis by (intro exI [of _ "MRemoved b"]) (simp add: do_move_def)
  next
    case (run_fetcher k ctx f' i')
    then show ?thesis by (intro exI [of _ "MFetch k ctx"]) (simp add: do_move_def)
  next
    case (run_handler k h' i')
    then show ?thesis by (intro exI [of _ "MHandle k"]) (simp add: do_move_def)
  qed
qed (auto intro: do_move_step)

fun run_schedule ::
  "sdk \<Rightarrow> 'db storage_api \<Rightarrow> configuration \<Rightarrow> move list \<Rightarrow> 'db sys \<Rightarrow> 'db sys option"
where
  "run_schedule S A cfg [] s = Some s"
| "run_schedule S A cfg (m # ms) s =
     (case do_move S A cfg m s of None \<Rightarrow> None | Some s' \<Rightarrow> run_schedule S A cfg ms s')"

lemma run_schedule_reachable:
  "run_schedule S A cfg ms s = Some s' \<Longrightarrow> reachable S A cfg s \<Longrightarrow> reachable S A cfg s'"
  by (induction ms arbitrary: s) (auto split: option.splits dest: do_move_step intro: reachable.step)

text \<open>
  The interface of the inductions over runs: a property that every allowed move keeps holds
  after every run of allowed moves, and in every reachable state if all moves are allowed.
\<close>

locale run_invariant =
  fixes S :: sdk and A :: "'db storage_api" and cfg :: configuration
    and allowed :: "move \<Rightarrow> bool" and P :: "'db sys \<Rightarrow> bool"
  assumes keep: "P s \<Longrightarrow> allowed m \<Longrightarrow> do_move S A cfg m s = Some s' \<Longrightarrow> P s'"
begin

lemma run: "run_schedule S A cfg ms s = Some s' \<Longrightarrow> P s \<Longrightarrow> list_all allowed ms \<Longrightarrow> P s'"
proof (induction ms arbitrary: s)
  case (Cons m ms)
  from Cons.prems(1) obtain t where t: "do_move S A cfg m s = Some t"
    and r: "run_schedule S A cfg ms t = Some s'" by (auto split: option.splits)
  have "P t" using keep [OF Cons.prems(2) _ t] Cons.prems(3) by simp
  with Cons.IH [OF r] Cons.prems(3) show ?case by simp
qed simp

lemma reach:
  assumes "reachable S A cfg s" and "\<And>db. P (sys_init db)" and "\<And>m. allowed m"
  shows "P s"
  using assms(1) by (induction) (use assms(2,3) keep in \<open>auto simp: sys_step_iff_move\<close>)

end

text \<open>Storages whose head lookup does not panic.\<close>

definition quiet :: "'db storage_api \<Rightarrow> bool" where
  "quiet A \<longleftrightarrow> (\<forall>db p. st_GetHead A db \<noteq> Panic p)"

lemma quietI: "(\<And>db p. st_GetHead A db \<noteq> Panic p) \<Longrightarrow> quiet A"
  by (simp add: quiet_def)

text \<open>A fetcher's block and request never change, and only a call of \<open>Block\<close> adds a fetcher.\<close>

lemma fetch_step_block:
  "fetch_step S A cfg ctx f i = Some (f', i') \<Longrightarrow> ft_block f' = ft_block f \<and> ft_request f' = ft_request f"
  by (auto simp: fetch_step_def Let_def step_enter_def step_loop_def step_read_def step_cache_def
      step_register_def step_get_def step_await_def step_leave_def end_defs
      split: fetch_pc.splits list.splits if_splits option.splits prod.splits
        register_result.splits go.splits read_result.splits)

lemma do_move_block:
  "do_move S A cfg m s = Some s' \<Longrightarrow> (\<And>b cs. m \<noteq> MBlock b cs) \<Longrightarrow>
     map ft_block (sy_fetchers s') = map ft_block (sy_fetchers s)"
  by (cases m) (auto simp: do_move_def map_update list_update_same_conv split: if_splits option.splits
      dest: fetch_step_block)

interpretation blocks: run_invariant S A cfg "\<lambda>m. \<forall>b cs. m \<noteq> MBlock b cs"
  "\<lambda>s. map ft_block (sy_fetchers s) = bs" for S A cfg bs
  by unfold_locales (auto dest: do_move_block)

lemma run_schedule_block:
  assumes "run_schedule S A cfg ms s = Some s'" and "\<And>b cs. MBlock b cs \<notin> set ms"
  shows "map ft_block (sy_fetchers s') = map ft_block (sy_fetchers s)"
  by (rule blocks.run [OF assms(1) refl]) (use assms(2) in \<open>auto simp: list_all_iff\<close>)

section \<open>One handler alone\<close>

text \<open>
  The sections of a handler, run one after the other with nothing in between, are the
  handler.
\<close>

fun run_handler_alone ::
  "nat \<Rightarrow> sdk \<Rightarrow> 'db storage_api \<Rightarrow> handler \<Rightarrow> 'db indexer \<Rightarrow> handler \<times> 'db indexer"
where
  "run_handler_alone 0 S A h i = (h, i)"
| "run_handler_alone (Suc n) S A h i =
     (case handler_step S A h i of
        None \<Rightarrow> (h, i)
      | Some (h', i') \<Rightarrow> run_handler_alone n S A h' i')"

lemma run_handler_alone_done [simp]: "run_handler_alone n S A (HDone r) i = (HDone r, i)"
  by (cases n) (simp_all add: handler_step_def)

lemma with_db_waiter: "with_db m i = (r, i') \<Longrightarrow> ix_waiter i' = ix_waiter i"
  by (auto simp: with_db_def split: prod.splits)

lemma smap_err_state: "snd (smap_err f m s) = snd (m s)"
  by (simp add: smap_err_def split: prod.splits)

lemma with_db_frame [simp]:
  "ix_waiter (snd (with_db m i)) = ix_waiter i" "ix_coinCache (snd (with_db m i)) = ix_coinCache i"
  "ix_seen (snd (with_db m i)) = ix_seen i" "ix_closed (snd (with_db m i)) = ix_closed i"
  "ix_nextChan (snd (with_db m i)) = ix_nextChan i"
  by (simp_all add: with_db_def split: prod.splits)

lemma store_frame [simp]:
  "ix_waiter (snd (BlockSeen_store A b i)) = ix_waiter i"
  "ix_waiter (snd (BlockAdded_store A b i)) = ix_waiter i"
  "ix_closed (snd (BlockSeen_store A b i)) = ix_closed i"
  "ix_closed (snd (BlockAdded_store A b i)) = ix_closed i"
  "ix_nextChan (snd (BlockSeen_store A b i)) = ix_nextChan i"
  "ix_nextChan (snd (BlockAdded_store A b i)) = ix_nextChan i"
  "ix_coinCache (snd (BlockSeen_store A b i)) = ix_coinCache i"
  "ix_seen (snd (BlockSeen_store A b i)) = ix_seen i"
  by (simp_all add: BlockSeen_store_def BlockAdded_store_def smap_err_state)

lemma go_cases_pair:
  obtains (Ok) x s where "p = (Ok x, s)" | (Err) e s where "p = (Err e, s)"
    | (Panic) q s where "p = (Panic q, s)"
  by (cases p, cases "fst p") auto

lemma after_section_simps [simp]:
  "after_section (Ok u, i) h = (h, i)"
  "after_section (Err e, i) h = (HDone (Err e), i)"
  "after_section (Panic p, i) h = (HDone (Panic p), i)"
  by (simp_all add: after_section_def)

lemma after_section_last: "after_section p (HDone (Ok ())) = (HDone (fst p), snd p)"
  by (cases p rule: go_cases_pair) simp_all

lemma run_BlockSeen:
  assumes "\<not> wt_locked (ix_waiter i)"
  shows "run_handler_alone 4 S A (HSeenCache blk) i =
    (HDone (fst (BlockSeen A (Ok ()) blk i)), snd (BlockSeen A (Ok ()) blk i))"
proof -
  obtain i1 where c: "BlockSeen_cache blk i = (Ok (), i1)" and w1: "ix_waiter i1 = ix_waiter i"
    by (simp add: BlockSeen_cache_def)
  obtain i2 where n: "BlockSeen_count i1 = (Ok (), i2)" and w2: "ix_waiter i2 = ix_waiter i"
    using w1 by (simp add: BlockSeen_count_def)
  show ?thesis
  proof (cases "BlockSeen_store A blk i2" rule: go_cases_pair)
    case (Ok u i3)
    then have "ix_waiter i3 = ix_waiter i" using w2 store_frame(1) [of A blk i2] by simp
    with Ok c n assms show ?thesis
      by (simp add: numeral_eq_Suc handler_step_def BlockSeen_def after_section_last)
  qed (use c n assms in \<open>simp_all add: numeral_eq_Suc handler_step_def BlockSeen_def\<close>)
qed

lemma run_BlockAdded:
  assumes "\<not> wt_locked (ix_waiter i)"
  shows "run_handler_alone 4 S A (HAddStart blk) i =
    (HDone (fst (BlockAdded S A blk i)), snd (BlockAdded S A blk i))"
proof (cases "ensureNegativeValueInputs S blk")
  case (Ok b)
  show ?thesis
  proof (cases "BlockAdded_store A b i" rule: go_cases_pair)
    case (Ok u i1)
    then have w1: "ix_waiter i1 = ix_waiter i" using store_frame(2) [of A b i] by simp
    obtain i2 where c: "BlockAdded_uncache b i1 = (Ok (), i2)" and w2: "ix_waiter i2 = ix_waiter i"
      using w1 by (simp add: BlockAdded_uncache_def)
    show ?thesis
      using \<open>ensureNegativeValueInputs S blk = Ok b\<close> Ok c w1 w2 assms
      by (simp add: numeral_eq_Suc handler_step_def add_start_def BlockAdded_def after_section_last)
  qed (use Ok in \<open>simp_all add: numeral_eq_Suc handler_step_def add_start_def BlockAdded_def\<close>)
qed (simp_all add: numeral_eq_Suc handler_step_def add_start_def BlockAdded_def)

end
