(* ===== verification/Indexer_Channels.thy ===== *)
theory Indexer_Channels
  imports Indexer_Machine
begin

text \<open>
  The channels of the wait table: the invariant that ties an entry's \<open>channelClosed\<close> flag
  to the state of its channel, and what waking (\<open>BlockSeen\<close>), aborting (\<open>BlockAdded\<close>),
  joining and leaving (\<open>findCoins\<close>) do to the table. Under the invariant the loops are
  functions of the table's contents: they do not depend on the order of a Go map and never
  close a channel twice.
\<close>

section \<open>The invariant\<close>

definition chan_ok :: "'db indexer \<Rightarrow> bool" where
  "chan_ok i \<longleftrightarrow>
     wt_wf (ix_waiter i) \<and> ix_closed i \<subseteq> {..<ix_nextChan i} \<and>
     (\<forall>k v. wt_Get (ix_waiter i) k = Some v \<longrightarrow>
        wte_channel v < ix_nextChan i \<and>
        (wte_channelClosed v \<longleftrightarrow> wte_channel v \<in> ix_closed i) \<and>
        (wte_aborted v \<longrightarrow> wte_channelClosed v)) \<and>
     (\<forall>k k' v v'. wt_Get (ix_waiter i) k = Some v \<longrightarrow> wt_Get (ix_waiter i) k' = Some v' \<longrightarrow>
        wte_channel v = wte_channel v' \<longrightarrow> k = k')"

lemma chan_okD:
  assumes "chan_ok i"
  shows chan_ok_wf: "wt_wf (ix_waiter i)"
    and chan_ok_less: "wt_Get (ix_waiter i) k = Some v \<Longrightarrow> wte_channel v < ix_nextChan i"
    and chan_ok_closed:
      "wt_Get (ix_waiter i) k = Some v \<Longrightarrow> wte_channelClosed v \<longleftrightarrow> wte_channel v \<in> ix_closed i"
    and chan_ok_aborted:
      "wt_Get (ix_waiter i) k = Some v \<Longrightarrow> wte_aborted v \<Longrightarrow> wte_channelClosed v"
    and chan_ok_inj:
      "wt_Get (ix_waiter i) k = Some v \<Longrightarrow> wt_Get (ix_waiter i) k' = Some v' \<Longrightarrow>
       wte_channel v = wte_channel v' \<Longrightarrow> k = k'"
    and chan_ok_bound: "c \<in> ix_closed i \<Longrightarrow> c < ix_nextChan i"
  using assms unfolding chan_ok_def by (blast+)

lemma chan_ok_init: "chan_ok (InitIndexer db)"
  by (simp add: chan_ok_def InitIndexer_def)

text \<open>Only the wait table's contents and the channels matter.\<close>

lemma chan_ok_cong:
  assumes "wt_table (ix_waiter i') = wt_table (ix_waiter i)"
    and "ix_closed i' = ix_closed i" and "ix_nextChan i' = ix_nextChan i"
  shows "chan_ok i' \<longleftrightarrow> chan_ok i"
  using assms by (simp add: chan_ok_def wt_wf_def wt_Get_def)

section \<open>Closing the channels of some entries\<close>

text \<open>
  \<open>retagged g i i'\<close>: the entry of every key \<open>k\<close> went through \<open>g k\<close>, the channels of entries
  that are closed then are closed, and nothing else changed.
\<close>

definition retagged ::
  "(string \<Rightarrow> wait_table_entry \<Rightarrow> wait_table_entry) \<Rightarrow> 'db indexer \<Rightarrow> 'db indexer \<Rightarrow> bool"
where
  "retagged g i i' \<longleftrightarrow>
     (\<forall>k. wt_Get (ix_waiter i') k = map_option (g k) (wt_Get (ix_waiter i) k)) \<and>
     ix_closed i' = ix_closed i \<union>
       {c. \<exists>k v. wt_Get (ix_waiter i) k = Some v \<and> wte_channelClosed (g k v) \<and> c = wte_channel v} \<and>
     wt_locked (ix_waiter i') = wt_locked (ix_waiter i) \<and>
     ix_db i' = ix_db i \<and> ix_coinCache i' = ix_coinCache i \<and> ix_seen i' = ix_seen i \<and>
     ix_nextChan i' = ix_nextChan i"

definition keeps_channel :: "(string \<Rightarrow> wait_table_entry \<Rightarrow> wait_table_entry) \<Rightarrow> bool" where
  "keeps_channel g \<longleftrightarrow>
     (\<forall>k v. wte_channel (g k v) = wte_channel v \<and>
            (wte_channelClosed v \<longrightarrow> wte_channelClosed (g k v)))"

lemma retagged_refl: "chan_ok i \<Longrightarrow> retagged (\<lambda>k v. v) i i"
  by (auto simp: retagged_def option.map_ident dest: chan_ok_closed)

lemma retagged_trans:
  assumes "retagged g i j" and "retagged h j l" and "keeps_channel g" and "keeps_channel h"
  shows "retagged (\<lambda>k v. h k (g k v)) i l"
proof -
  have "{c. \<exists>k v. wt_Get (ix_waiter i) k = Some v \<and> wte_channelClosed (g k v) \<and> c = wte_channel v} \<union>
        {c. \<exists>k v. wt_Get (ix_waiter j) k = Some v \<and> wte_channelClosed (h k v) \<and> c = wte_channel v} =
        {c. \<exists>k v. wt_Get (ix_waiter i) k = Some v \<and> wte_channelClosed (h k (g k v)) \<and> c = wte_channel v}"
    (is "?A \<union> ?B = ?C")
  proof (intro equalityI subsetI)
    fix c assume "c \<in> ?A \<union> ?B"
    then show "c \<in> ?C"
      using assms unfolding retagged_def keeps_channel_def by fastforce
  next
    fix c assume "c \<in> ?C"
    then obtain k v where "wt_Get (ix_waiter i) k = Some v"
      and "wte_channelClosed (h k (g k v))" and "c = wte_channel v" by blast
    then have "wt_Get (ix_waiter j) k = Some (g k v) \<and> wte_channelClosed (h k (g k v)) \<and>
               c = wte_channel (g k v)"
      using assms unfolding retagged_def keeps_channel_def by simp
    then show "c \<in> ?A \<union> ?B" by blast
  qed
  then show ?thesis
    using assms(1,2) unfolding retagged_def by (simp add: option.map_comp comp_def Un_assoc)
qed

text \<open>One entry.\<close>

definition mark :: "string \<Rightarrow> wait_table_entry \<Rightarrow> 'db indexer \<Rightarrow> 'db indexer" where
  "mark k v i =
     i\<lparr>ix_waiter := wt_Set (ix_waiter i) k v, ix_closed := insert (wte_channel v) (ix_closed i)\<rparr>"

lemma chan_ok_mark:
  assumes "chan_ok i" and "wt_Get (ix_waiter i) k = Some v" and "wte_channel w = wte_channel v"
    and "wte_channelClosed w"
  shows "chan_ok (mark k w i)"
  unfolding chan_ok_def
proof (intro conjI allI impI)
  show "wt_wf (ix_waiter (mark k w i))"
    using assms(1) by (simp add: mark_def wt.inv_put chan_ok_wf)
  show "ix_closed (mark k w i) \<subseteq> {..<ix_nextChan (mark k w i)}"
    using assms by (auto simp: mark_def chan_ok_less dest: chan_ok_bound)
next
  fix k' v' assume "wt_Get (ix_waiter (mark k w i)) k' = Some v'"
  then have *: "if k' = k then v' = w else wt_Get (ix_waiter i) k' = Some v'"
    using assms(1) by (auto simp: mark_def wt.get_put chan_ok_wf)
  show "wte_channel v' < ix_nextChan (mark k w i)"
    using * assms by (auto simp: mark_def chan_ok_less split: if_splits)
  show "wte_channelClosed v' \<longleftrightarrow> wte_channel v' \<in> ix_closed (mark k w i)"
  proof (cases "k' = k")
    case True
    with * assms(3,4) show ?thesis by (simp add: mark_def)
  next
    case False
    with * have v': "wt_Get (ix_waiter i) k' = Some v'" by simp
    then have "wte_channel v' \<noteq> wte_channel v"
      using False chan_ok_inj [OF assms(1) v' assms(2)] by blast
    with chan_ok_closed [OF assms(1) v'] assms(3) show ?thesis by (simp add: mark_def)
  qed
  show "wte_channelClosed v'" if "wte_aborted v'"
    using * that assms(4) chan_ok_aborted [OF assms(1), of k' v'] by (cases "k' = k") simp_all
next
  fix k1 k2 v1 v2
  assume "wt_Get (ix_waiter (mark k w i)) k1 = Some v1" "wt_Get (ix_waiter (mark k w i)) k2 = Some v2"
    and "wte_channel v1 = wte_channel v2"
  then show "k1 = k2"
    using assms by (auto simp: mark_def wt.get_put chan_ok_wf split: if_splits dest: chan_ok_inj)
qed

lemma retagged_mark:
  assumes "chan_ok i" and "wt_Get (ix_waiter i) k = Some v" and "\<not> wte_channelClosed v"
    and "wte_channel w = wte_channel v" and "wte_channelClosed w"
  shows "retagged (\<lambda>k' v'. if k' = k then w else v') i (mark k w i)"
  unfolding retagged_def
proof (intro conjI allI)
  show "wt_Get (ix_waiter (mark k w i)) k' =
      map_option (\<lambda>v'. if k' = k then w else v') (wt_Get (ix_waiter i) k')" for k'
    using assms by (simp add: mark_def wt.get_put chan_ok_wf option.map_ident)
  show "ix_closed (mark k w i) = ix_closed i \<union>
      {c. \<exists>k' v'. wt_Get (ix_waiter i) k' = Some v' \<and> wte_channelClosed (if k' = k then w else v') \<and>
            c = wte_channel v'}"
    using assms by (auto simp: mark_def dest: chan_ok_closed)
qed (simp_all add: mark_def)

section \<open>Waking\<close>

definition wake_entry :: "string set \<Rightarrow> string \<Rightarrow> wait_table_entry \<Rightarrow> wait_table_entry" where
  "wake_entry K k v = (if k \<in> K then v\<lparr>wte_channelClosed := True\<rparr> else v)"

definition tx_hashes :: "block \<Rightarrow> string list" where
  "tx_hashes blk = map (\<lambda>tx. ti_Hash (tx_TransactionIdentifier tx)) (bk_Transactions blk)"

lemma keeps_channel_wake [simp]: "keeps_channel (wake_entry K)"
  by (simp add: keeps_channel_def wake_entry_def)

lemma close_fresh:
  assumes "chan_ok i" and "wt_Get (ix_waiter i) k = Some v" and "\<not> wte_channelClosed v"
  shows "sbind (upd_waiter (\<lambda>t. wt_Set t k w)) (\<lambda>_. close_chan (wte_channel v)) i =
     (Ok (), i\<lparr>ix_waiter := wt_Set (ix_waiter i) k w,
               ix_closed := insert (wte_channel v) (ix_closed i)\<rparr>)"
  using assms chan_ok_closed [OF assms(1,2)] by (simp add: upd_waiter_def close_chan_def)

lemma retagged_noop:
  assumes "chan_ok i" and "\<And>k v. wt_Get (ix_waiter i) k = Some v \<Longrightarrow> g k v = v"
  shows "retagged g i i"
proof -
  have "wt_Get (ix_waiter i) k = map_option (g k) (wt_Get (ix_waiter i) k)" for k
    using assms(2) [of k] by (cases "wt_Get (ix_waiter i) k") simp_all
  moreover have "wte_channel v \<in> ix_closed i"
    if "wt_Get (ix_waiter i) k = Some v" "wte_channelClosed (g k v)" for k v
    using that assms(2) [OF that(1)] chan_ok_closed [OF assms(1) that(1)] by simp
  ultimately show ?thesis by (auto simp: retagged_def)
qed

lemma retagged_cong:
  assumes "retagged g i i'" and "\<And>k v. wt_Get (ix_waiter i) k = Some v \<Longrightarrow> g k v = h k v"
  shows "retagged h i i'"
proof -
  have "map_option (g k) (wt_Get (ix_waiter i) k) = map_option (h k) (wt_Get (ix_waiter i) k)" for k
    using assms(2) [of k] by (cases "wt_Get (ix_waiter i) k") simp_all
  moreover have "(\<exists>k v. wt_Get (ix_waiter i) k = Some v \<and> wte_channelClosed (g k v) \<and> c = wte_channel v)
     \<longleftrightarrow> (\<exists>k v. wt_Get (ix_waiter i) k = Some v \<and> wte_channelClosed (h k v) \<and> c = wte_channel v)" for c
    using assms(2) by metis
  ultimately show ?thesis using assms(1) unfolding retagged_def by simp
qed

lemma wake_tx_ok:
  assumes "chan_ok i"
  shows "\<exists>i'. wake_tx tx i = (Ok (), i') \<and> chan_ok i' \<and>
           retagged (wake_entry {ti_Hash (tx_TransactionIdentifier tx)}) i i'"
proof -
  define k where "k = ti_Hash (tx_TransactionIdentifier tx)"
  show ?thesis
  proof (cases "\<exists>v. wt_Get (ix_waiter i) k = Some v \<and> \<not> wte_channelClosed v")
    case True
    then obtain v where v: "wt_Get (ix_waiter i) k = Some v" "\<not> wte_channelClosed v" by blast
    let ?w = "v\<lparr>wte_channelClosed := True\<rparr>"
    have "wake_tx tx i = (Ok (), mark k ?w i)"
      using v close_fresh [OF assms v] by (simp add: wake_tx_def k_def [symmetric] mark_def)
    moreover have "chan_ok (mark k ?w i)" by (rule chan_ok_mark [OF assms v(1)]) simp_all
    moreover have "retagged (wake_entry {k}) i (mark k ?w i)"
      by (rule retagged_cong [OF retagged_mark [OF assms v]]) (use v in \<open>auto simp: wake_entry_def\<close>)
    ultimately show ?thesis by (simp add: k_def)
  next
    case False
    have "retagged (wake_entry {k}) i i"
      by (rule retagged_noop [OF assms]) (use False in \<open>auto simp: wake_entry_def\<close>)
    moreover have "wake_tx tx i = (Ok (), i)"
      using False by (auto simp: wake_tx_def k_def [symmetric] split: option.split)
    ultimately show ?thesis using assms by (simp add: k_def)
  qed
qed

lemma wake_txs_ok:
  assumes "chan_ok i"
  shows "\<exists>i'. sfor wake_tx txs i = (Ok (), i') \<and> chan_ok i' \<and>
    retagged (wake_entry ((\<lambda>tx. ti_Hash (tx_TransactionIdentifier tx)) ` set txs)) i i'"
  using assms
proof (induction txs arbitrary: i)
  case Nil
  then show ?case by (simp add: retagged_noop wake_entry_def)
next
  case (Cons tx txs)
  obtain j where j: "wake_tx tx i = (Ok (), j)" "chan_ok j"
      "retagged (wake_entry {ti_Hash (tx_TransactionIdentifier tx)}) i j"
    using wake_tx_ok [OF Cons.prems] by blast
  obtain l where l: "sfor wake_tx txs j = (Ok (), l)" "chan_ok l"
      "retagged (wake_entry ((\<lambda>tx. ti_Hash (tx_TransactionIdentifier tx)) ` set txs)) j l"
    using Cons.IH [OF j(2)] by blast
  have "retagged (wake_entry ((\<lambda>tx. ti_Hash (tx_TransactionIdentifier tx)) ` set (tx # txs))) i l"
    by (rule retagged_cong [OF retagged_trans [OF j(3) l(3)]]) (simp_all add: wake_entry_def)
  with j(1) l(1,2) show ?case by simp
qed

section \<open>Aborting\<close>

definition stale :: "block \<Rightarrow> wait_table_entry \<Rightarrow> bool" where
  "stale blk v \<longleftrightarrow>
     wte_earliestBlock v = bi_Index (bk_BlockIdentifier blk) + 1 \<and> \<not> wte_channelClosed v"

definition abort_stale :: "block \<Rightarrow> string set \<Rightarrow> string \<Rightarrow> wait_table_entry \<Rightarrow> wait_table_entry" where
  "abort_stale blk K k v =
     (if k \<in> K \<and> stale blk v then v\<lparr>wte_channelClosed := True, wte_aborted := True\<rparr> else v)"

lemma keeps_channel_abort [simp]: "keeps_channel (abort_stale blk K)"
  by (simp add: keeps_channel_def abort_stale_def)

lemma abort_entry_ok:
  assumes "chan_ok i" and "wt_Get (ix_waiter i) k = Some v"
  shows "\<exists>i'. abort_entry blk (k, v) i = (Ok (), i') \<and> chan_ok i' \<and>
           retagged (abort_stale blk {k}) i i'"
proof (cases "stale blk v")
  case True
  then have nc: "\<not> wte_channelClosed v" by (simp add: stale_def)
  let ?w = "v\<lparr>wte_channelClosed := True, wte_aborted := True\<rparr>"
  have "abort_entry blk (k, v) i = (Ok (), mark k ?w i)"
    using True close_fresh [OF assms nc] by (simp add: abort_entry_def stale_def mark_def)
  moreover have "chan_ok (mark k ?w i)" by (rule chan_ok_mark [OF assms]) simp_all
  moreover have "retagged (abort_stale blk {k}) i (mark k ?w i)"
    by (rule retagged_cong [OF retagged_mark [OF assms nc]])
      (use True assms in \<open>auto simp: abort_stale_def\<close>)
  ultimately show ?thesis by simp
next
  case False
  then have "abort_entry blk (k, v) i = (Ok (), i)" by (auto simp: abort_entry_def stale_def)
  moreover have "retagged (abort_stale blk {k}) i i"
    by (rule retagged_noop [OF assms(1)]) (use False assms in \<open>auto simp: abort_stale_def\<close>)
  ultimately show ?thesis using assms(1) by simp
qed

text \<open>
  The loop over the entries, in any order: each is the table's current one when the loop
  reaches it.
\<close>

lemma abort_entries_ok:
  assumes "chan_ok i" and "distinct (map fst es)"
    and "\<And>k v. (k, v) \<in> set es \<Longrightarrow> wt_Get (ix_waiter i) k = Some v"
  shows "\<exists>i'. sfor (abort_entry blk) es i = (Ok (), i') \<and> chan_ok i' \<and>
           retagged (abort_stale blk (fst ` set es)) i i'"
  using assms
proof (induction es arbitrary: i)
  case Nil
  then show ?case by (simp add: retagged_noop abort_stale_def)
next
  case (Cons e es)
  obtain k v where e: "e = (k, v)" by (cases e)
  have k: "k \<notin> fst ` set es" and d: "distinct (map fst es)" using Cons.prems(2) e by auto
  obtain j where j: "abort_entry blk e i = (Ok (), j)" "chan_ok j" "retagged (abort_stale blk {k}) i j"
    using abort_entry_ok [OF Cons.prems(1), of k v blk] Cons.prems(3) e by auto
  have "wt_Get (ix_waiter j) k' = Some v'" if "(k', v') \<in> set es" for k' v'
  proof -
    have "k' \<noteq> k" using that k by force
    then show ?thesis using that Cons.prems(3) j(3) by (simp add: retagged_def abort_stale_def)
  qed
  then obtain l where l: "sfor (abort_entry blk) es j = (Ok (), l)" "chan_ok l"
      "retagged (abort_stale blk (fst ` set es)) j l"
    using Cons.IH [OF j(2) d] by blast
  have "retagged (abort_stale blk (fst ` set (e # es))) i l"
    by (rule retagged_cong [OF retagged_trans [OF j(3) l(3)]])
      (use e k in \<open>auto simp: abort_stale_def\<close>)
  with j(1) l(1,2) show ?case by simp
qed

section \<open>The whole sections\<close>

lemma chan_ok_lock [simp]:
  "chan_ok (i\<lparr>ix_waiter := wt_Lock (ix_waiter i)\<rparr>) = chan_ok i"
  "chan_ok (i\<lparr>ix_waiter := wt_Unlock (ix_waiter i)\<rparr>) = chan_ok i"
  by (rule chan_ok_cong; simp)+

lemma retagged_locked:
  assumes "retagged g (i\<lparr>ix_waiter := wt_Lock (ix_waiter i)\<rparr>) j" and "\<not> wt_locked (ix_waiter i)"
  shows "retagged g i (j\<lparr>ix_waiter := wt_Unlock (ix_waiter j)\<rparr>)"
  using assms by (simp add: retagged_def)

lemma BlockSeen_wake_ok:
  assumes "chan_ok i" and "\<not> wt_locked (ix_waiter i)"
  shows "\<exists>i'. BlockSeen_wake blk i = (Ok (), i') \<and> chan_ok i' \<and> \<not> wt_locked (ix_waiter i') \<and>
           retagged (wake_entry (set (tx_hashes blk))) i i'"
proof -
  let ?i = "i\<lparr>ix_waiter := wt_Lock (ix_waiter i)\<rparr>"
  have "chan_ok ?i" using assms(1) by simp
  then obtain j where j: "sfor wake_tx (bk_Transactions blk) ?i = (Ok (), j)" "chan_ok j"
      "retagged (wake_entry (set (tx_hashes blk))) ?i j"
    using wake_txs_ok [of ?i "bk_Transactions blk"] by (auto simp: tx_hashes_def)
  have "BlockSeen_wake blk i = (Ok (), j\<lparr>ix_waiter := wt_Unlock (ix_waiter j)\<rparr>)"
    using j(1) by (simp add: BlockSeen_wake_def upd_waiter_def)
  then show ?thesis using j(2) retagged_locked [OF j(3) assms(2)] by simp
qed

lemma BlockAdded_abort_ok:
  assumes "chan_ok i" and "\<not> wt_locked (ix_waiter i)"
  shows "\<exists>i'. BlockAdded_abort blk i = (Ok (), i') \<and> chan_ok i' \<and> \<not> wt_locked (ix_waiter i') \<and>
           retagged (abort_stale blk UNIV) i i'"
proof -
  let ?i = "i\<lparr>ix_waiter := wt_Lock (ix_waiter i)\<rparr>"
  let ?es = "wt_table (ix_waiter i)"
  have ok: "chan_ok ?i" using assms(1) by simp
  have d: "distinct (map fst ?es)" using chan_ok_wf [OF assms(1)] by (simp add: wt_wf_def)
  have cur: "wt_Get (ix_waiter ?i) k = Some v" if "(k, v) \<in> set ?es" for k v
    using that chan_ok_wf [OF assms(1)] by (simp add: wt_Get_in_table)
  obtain j where j: "sfor (abort_entry blk) ?es ?i = (Ok (), j)" "chan_ok j"
      "retagged (abort_stale blk (fst ` set ?es)) ?i j"
    using abort_entries_ok [OF ok d cur] by blast
  have "retagged (abort_stale blk UNIV) ?i j"
  proof (rule retagged_cong [OF j(3)])
    fix k v assume "wt_Get (ix_waiter ?i) k = Some v"
    then have "(k, v) \<in> set ?es" using chan_ok_wf [OF assms(1)] by (simp add: wt_Get_in_table)
    then have "k \<in> fst ` set ?es" by force
    then show "abort_stale blk (fst ` set ?es) k v = abort_stale blk UNIV k v"
      by (simp add: abort_stale_def)
  qed
  moreover have "BlockAdded_abort blk i = (Ok (), j\<lparr>ix_waiter := wt_Unlock (ix_waiter j)\<rparr>)"
    using j(1) by (simp add: BlockAdded_abort_def upd_waiter_def)
  ultimately show ?thesis using j(2) retagged_locked [of _ i j] assms(2) by simp
qed

text \<open>Waking and aborting leave the listeners and the channels of all entries alone.\<close>

lemma retagged_listeners:
  assumes "retagged g i i'" and "\<And>k v. wte_listeners (g k v) = wte_listeners v"
  shows "listeners (ix_waiter i') = listeners (ix_waiter i)"
  using assms by (auto simp: retagged_def listeners_def fun_eq_iff split: option.splits)

lemma wake_entry_simps [simp]:
  "wte_listeners (wake_entry K k v) = wte_listeners v"
  "wte_channel (wake_entry K k v) = wte_channel v"
  by (simp_all add: wake_entry_def)

lemma abort_stale_simps [simp]:
  "wte_listeners (abort_stale blk K k v) = wte_listeners v"
  "wte_channel (abort_stale blk K k v) = wte_channel v"
  by (simp_all add: abort_stale_def)

section \<open>Joining and leaving\<close>

definition joined_entry :: "wait_table_entry option \<Rightarrow> int64 \<Rightarrow> nat \<Rightarrow> wait_table_entry" where
  "joined_entry e height ch =
     (let val = (case e of
                   Some v \<Rightarrow> v
                 | None \<Rightarrow> \<lparr>wte_listeners = 0, wte_channel = ch, wte_channelClosed = False,
                            wte_aborted = False, wte_earliestBlock = height\<rparr>);
          val = (if sint (wte_earliestBlock val) > sint height
                 then val\<lparr>wte_earliestBlock := height\<rparr> else val)
      in val\<lparr>wte_listeners := wte_listeners val + 1\<rparr>)"

lemma join_wait_eq: "join_wait k h ch t = wt_Set t k (joined_entry (wt_Get t k) h ch)"
  by (simp add: join_wait_def joined_entry_def Let_def)

lemma joined_entry_simps:
  "wte_channel (joined_entry e h ch) = (case e of None \<Rightarrow> ch | Some v \<Rightarrow> wte_channel v)"
  "wte_channelClosed (joined_entry e h ch) = (case e of None \<Rightarrow> False | Some v \<Rightarrow> wte_channelClosed v)"
  "wte_aborted (joined_entry e h ch) = (case e of None \<Rightarrow> False | Some v \<Rightarrow> wte_aborted v)"
  "wte_listeners (joined_entry e h ch) = (case e of None \<Rightarrow> 0 | Some v \<Rightarrow> wte_listeners v) + 1"
  "sint (wte_earliestBlock (joined_entry e h ch)) =
     (case e of None \<Rightarrow> sint h | Some v \<Rightarrow> min (sint h) (sint (wte_earliestBlock v)))"
  by (simp_all add: joined_entry_def Let_def split: option.split)

lemma join_wait_Get:
  "wt_wf t \<Longrightarrow> wt_Get (join_wait k h ch t) = (wt_Get t)(k \<mapsto> joined_entry (wt_Get t k) h ch)"
  by (simp add: join_wait_eq wt.get_put)

lemma join_wait_listeners:
  "wt_wf t \<Longrightarrow> listeners (join_wait k h ch t) = (listeners t)(k := listeners t k + 1)"
  by (auto simp: listeners_def join_wait_Get joined_entry_simps fun_eq_iff split: option.splits)

lemma join_wait_locked [simp]: "wt_locked (join_wait k h ch t) = wt_locked t"
  by (simp add: join_wait_eq)

lemma leave_wait_Some:
  assumes "wt_wf t" and "wt_Get t k = Some v"
  shows "\<exists>t'. leave_wait k t = Some (wte_aborted v, t') \<and> wt_wf t' \<and> wt_locked t' = wt_locked t \<and>
     wt_Get t' = (wt_Get t)(k := if wte_listeners v = 1 then None
                                 else Some (v\<lparr>wte_listeners := wte_listeners v - 1\<rparr>)) \<and>
     listeners t' = (listeners t)(k := listeners t k - 1)"
proof -
  let ?v = "v\<lparr>wte_listeners := wte_listeners v - 1\<rparr>"
  let ?t = "if wte_listeners v = 1 then wt_Delete t k else wt_Set t k ?v"
  have "leave_wait k t = Some (wte_aborted v, ?t)"
    using assms(2) by (simp add: leave_wait_def)
  moreover have "wt_Get ?t = (wt_Get t)(k := if wte_listeners v = 1 then None else Some ?v)"
    using assms(1) by (simp add: wt.get_put wt.get_del)
  moreover have "wt_wf ?t" using assms(1) by (rule wt.inv_put_or_del)
  moreover from calculation(2) have "listeners ?t = (listeners t)(k := listeners t k - 1)"
    using assms(2) by (simp add: listeners_def fun_eq_iff)
  ultimately show ?thesis by simp
qed

lemma chan_ok_join:
  assumes "chan_ok i"
  shows "chan_ok (i\<lparr>ix_waiter := join_wait k h (ix_nextChan i) (ix_waiter i),
                    ix_nextChan := Suc (ix_nextChan i)\<rparr>)" (is "chan_ok ?i")
proof -
  note wf = chan_ok_wf [OF assms]
  have nc: "ix_nextChan i \<notin> ix_closed i" using chan_ok_bound [OF assms] by blast
  have G: "wt_Get (ix_waiter ?i) = (wt_Get (ix_waiter i))
      (k \<mapsto> joined_entry (wt_Get (ix_waiter i) k) h (ix_nextChan i))"
    by (simp add: join_wait_Get wf)
  have old: "(k' \<noteq> k \<or> wt_Get (ix_waiter i) k \<noteq> None \<longrightarrow>
       (\<exists>w. wt_Get (ix_waiter i) k' = Some w \<and> wte_channel w = wte_channel v \<and>
            wte_channelClosed w = wte_channelClosed v \<and> wte_aborted w = wte_aborted v)) \<and>
     (k' = k \<and> wt_Get (ix_waiter i) k = None \<longrightarrow>
       wte_channel v = ix_nextChan i \<and> \<not> wte_channelClosed v \<and> \<not> wte_aborted v)"
    if "wt_Get (ix_waiter ?i) k' = Some v" for k' v
    using that wf by (auto simp: join_wait_Get joined_entry_simps split: if_splits)
  show ?thesis
    unfolding chan_ok_def
  proof (intro conjI allI impI)
    show "wt_wf (ix_waiter ?i)" by (simp add: join_wait_eq wt.inv_put wf)
    show "ix_closed ?i \<subseteq> {..<ix_nextChan ?i}"
      using chan_ok_bound [OF assms] by (auto simp: less_Suc_eq)
  next
    fix k' v assume v: "wt_Get (ix_waiter ?i) k' = Some v"
    show "wte_channel v < ix_nextChan ?i"
      using old [OF v] chan_ok_less [OF assms] by (cases "k' = k \<and> wt_Get (ix_waiter i) k = None") force+
    show "wte_channelClosed v \<longleftrightarrow> wte_channel v \<in> ix_closed ?i"
      using old [OF v] chan_ok_closed [OF assms] nc
      by (cases "k' = k \<and> wt_Get (ix_waiter i) k = None") force+
    show "wte_channelClosed v" if "wte_aborted v"
      using old [OF v] chan_ok_aborted [OF assms] that
      by (cases "k' = k \<and> wt_Get (ix_waiter i) k = None") force+
  next
    fix k1 k2 v1 v2
    assume v: "wt_Get (ix_waiter ?i) k1 = Some v1" "wt_Get (ix_waiter ?i) k2 = Some v2"
      and c: "wte_channel v1 = wte_channel v2"
    show "k1 = k2"
    proof (cases "wt_Get (ix_waiter i) k")
      case None
      with old [OF v(1)] old [OF v(2)] c show ?thesis
        using chan_ok_inj [OF assms] chan_ok_less [OF assms] by (metis less_irrefl)
    next
      case (Some w)
      with old [OF v(1)] old [OF v(2)] c show ?thesis
        using chan_ok_inj [OF assms] by (metis option.distinct(1))
    qed
  qed
qed

lemma chan_ok_leave:
  assumes "chan_ok i" and "wt_Get (ix_waiter i) k = Some v" and "leave_wait k (ix_waiter i) = Some (ab, t)"
  shows "chan_ok (i\<lparr>ix_waiter := t\<rparr>)" (is "chan_ok ?i")
proof -
  have wf: "wt_wf t" and G: "wt_Get t = (wt_Get (ix_waiter i))(k := if wte_listeners v = 1 then None
                                 else Some (v\<lparr>wte_listeners := wte_listeners v - 1\<rparr>))"
    using leave_wait_Some [OF chan_ok_wf [OF assms(1)] assms(2)] assms(3) by auto
  have old: "\<exists>w. wt_Get (ix_waiter i) k' = Some w \<and> wte_channel w = wte_channel v' \<and>
           wte_channelClosed w = wte_channelClosed v' \<and> wte_aborted w = wte_aborted v'"
    if "wt_Get t k' = Some v'" for k' v'
    using that assms(2) by (auto simp: G split: if_splits)
  show ?thesis
    unfolding chan_ok_def
  proof (intro conjI allI impI)
    show "wt_wf (ix_waiter ?i)" using wf by simp
    show "ix_closed ?i \<subseteq> {..<ix_nextChan ?i}" using chan_ok_bound [OF assms(1)] by auto
  next
    fix k' v' assume "wt_Get (ix_waiter ?i) k' = Some v'"
    then have v': "wt_Get t k' = Some v'" by simp
    show "wte_channel v' < ix_nextChan ?i"
      using old [OF v'] chan_ok_less [OF assms(1)] by force
    show "wte_channelClosed v' \<longleftrightarrow> wte_channel v' \<in> ix_closed ?i"
      using old [OF v'] chan_ok_closed [OF assms(1)] by force
    show "wte_channelClosed v'" if "wte_aborted v'"
      using old [OF v'] chan_ok_aborted [OF assms(1)] that by force
  next
    fix k1 k2 v1 v2
    assume "wt_Get (ix_waiter ?i) k1 = Some v1" "wt_Get (ix_waiter ?i) k2 = Some v2"
      and "wte_channel v1 = wte_channel v2"
    then show "k1 = k2"
      using old [of k1 v1] old [of k2 v2] chan_ok_inj [OF assms(1)] by auto
  qed
qed

end
