(* ===== verification/Indexer_Waits.thy ===== *)
theory Indexer_Waits
  imports Indexer_Channels
begin

text \<open>
  The wait protocol between fetchers and block handlers, over every interleaving of
  \<open>Indexer_Machine\<close>: the listeners counted in the wait table cover the fetchers that wait,
  so the entry a fetcher looks up again is always there, and the lock is free between
  atomic sections.
\<close>

section \<open>What a fetcher holds\<close>

text \<open>The coins a fetcher has joined the wait table for and not left yet.\<close>

definition ft_waits :: "fetcher \<Rightarrow> input_ctx list" where
  "ft_waits f =
     (case ft_pc f of
        PcEnter _ \<Rightarrow> []
      | PcReturn _ \<Rightarrow> []
      | PcGet ws \<Rightarrow> ws
      | PcAwait ws _ \<Rightarrow> ws
      | PcLeave ws \<Rightarrow> ws
      | _ \<Rightarrow> ft_remaining f)"

definition ft_count :: "string \<Rightarrow> fetcher \<Rightarrow> nat" where
  "ft_count key f = count_list (map ic_TxID (ft_waits f)) key"

definition sys_held :: "'db sys \<Rightarrow> string \<Rightarrow> nat" where
  "sys_held s key = sum_list (map (ft_count key) (sy_fetchers s))"

text \<open>Where a fetcher stands in a wait, its entry is there, and closed once it was woken.\<close>

definition awaits_ok :: "wait_table \<Rightarrow> fetcher \<Rightarrow> bool" where
  "awaits_ok t f =
     (case ft_pc f of
        PcAwait ws ch \<Rightarrow>
          (case ws of
             [] \<Rightarrow> False
           | x # _ \<Rightarrow> (case wt_Get t (ic_TxID x) of None \<Rightarrow> False | Some v \<Rightarrow> wte_channel v = ch))
      | PcLeave ws \<Rightarrow>
          (case ws of
             [] \<Rightarrow> False
           | x # _ \<Rightarrow> (case wt_Get t (ic_TxID x) of None \<Rightarrow> False | Some v \<Rightarrow> wte_channelClosed v))
      | _ \<Rightarrow> True)"

named_theorems wait_views \<open>what a fetcher waits for, from its program counter\<close>

declare ft_waits_def [wait_views] ft_count_def [wait_views] awaits_ok_def [wait_views]

lemma new_fetcher_waits [simp]:
  "ft_count key (new_fetcher blk coins) = 0" "awaits_ok t (new_fetcher blk coins)"
  by (simp_all add: wait_views new_fetcher_def)

definition sys_ok :: "'db sys \<Rightarrow> bool" where
  "sys_ok s \<longleftrightarrow>
     chan_ok (sy_ix s) \<and> \<not> wt_locked (ix_waiter (sy_ix s)) \<and>
     (\<forall>key. int (sys_held s key) \<le> listeners (ix_waiter (sy_ix s)) key) \<and>
     (\<forall>f \<in> set (sy_fetchers s). awaits_ok (ix_waiter (sy_ix s)) f)"

lemma listeners_pos: "0 < listeners t k \<Longrightarrow> \<exists>v. wt_Get t k = Some v"
  by (cases "wt_Get t k") (simp_all add: listeners_def)

lemma ft_count_le_held: "f \<in> set (sy_fetchers s) \<Longrightarrow> ft_count key f \<le> sys_held s key"
  unfolding sys_held_def by (rule member_le_sum_list; simp)

lemma held_entry:
  assumes "sys_ok s" and "f \<in> set (sy_fetchers s)" and "x \<in> set (ft_waits f)"
  shows "\<exists>v. wt_Get (ix_waiter (sy_ix s)) (ic_TxID x) = Some v"
proof -
  have "0 < count_list (map ic_TxID (ft_waits f)) (ic_TxID x)"
    using assms(3) by (simp add: count_list_0_iff zero_less_iff_neq_zero)
  then have "0 < sys_held s (ic_TxID x)"
    using ft_count_le_held [OF assms(2), of "ic_TxID x"] by (simp add: ft_count_def)
  then have "0 < listeners (ix_waiter (sy_ix s)) (ic_TxID x)"
    using assms(1) unfolding sys_ok_def by (metis of_nat_0_less_iff order_less_le_trans)
  then show ?thesis by (rule listeners_pos)
qed

section \<open>What an atomic section may do to the table\<close>

text \<open>Entries are removed or keep their channel, and closed ones stay closed.\<close>

definition advances :: "wait_table \<Rightarrow> wait_table \<Rightarrow> bool" where
  "advances t t' \<longleftrightarrow>
     (\<forall>k v v'. wt_Get t k = Some v \<longrightarrow> wt_Get t' k = Some v' \<longrightarrow>
        wte_channel v' = wte_channel v \<and> (wte_channelClosed v \<longrightarrow> wte_channelClosed v'))"

lemma advances_refl [simp]: "advances t t"
  by (simp add: advances_def)

lemma advances_retagged: "retagged g i i' \<Longrightarrow> keeps_channel g \<Longrightarrow> advances (ix_waiter i) (ix_waiter i')"
  by (auto simp: advances_def retagged_def keeps_channel_def)

lemma awaits_ok_waits: "awaits_ok t f \<Longrightarrow> ft_pc f = PcAwait ws ch \<or> ft_pc f = PcLeave ws \<Longrightarrow> ws \<noteq> []"
  by (auto simp: awaits_ok_def)

text \<open>A fetcher's claim on its entry survives as long as the listener counts cover it.\<close>

lemma awaits_ok_advances:
  assumes "awaits_ok t f" and "advances t t'"
    and cover: "\<And>key. int (ft_count key f) \<le> listeners t' key"
  shows "awaits_ok t' f"
proof -
  have entry: "\<exists>v. wt_Get t' (ic_TxID x) = Some v"
    if "ft_waits f = x # ws" for x ws
  proof -
    have "0 < ft_count (ic_TxID x) f" using that by (simp add: ft_count_def)
    then have "0 < listeners t' (ic_TxID x)" using cover [of "ic_TxID x"] by linarith
    then show ?thesis by (rule listeners_pos)
  qed
  show ?thesis
  proof (cases "ft_pc f")
    case (PcAwait ws ch)
    then obtain x rest where ws: "ws = x # rest"
      using awaits_ok_waits [OF assms(1)] by (cases ws) auto
    from PcAwait ws have "ft_waits f = x # rest" by (simp add: ft_waits_def)
    with entry obtain v' where "wt_Get t' (ic_TxID x) = Some v'" by blast
    with PcAwait ws assms(1,2) show ?thesis
      by (auto simp: awaits_ok_def advances_def split: option.splits)
  next
    case (PcLeave ws)
    then obtain x rest where ws: "ws = x # rest"
      using awaits_ok_waits [OF assms(1)] by (cases ws) auto
    from PcLeave ws have "ft_waits f = x # rest" by (simp add: ft_waits_def)
    with entry obtain v' where "wt_Get t' (ic_TxID x) = Some v'" by blast
    with PcLeave ws assms(1,2) show ?thesis
      by (auto simp: awaits_ok_def advances_def split: option.splits)
  qed (simp_all add: awaits_ok_def)
qed

section \<open>Steps of a handler\<close>

definition section_ok :: "'db indexer \<Rightarrow> 'db indexer \<Rightarrow> bool" where
  "section_ok i i' \<longleftrightarrow>
     chan_ok i' \<and> \<not> wt_locked (ix_waiter i') \<and> advances (ix_waiter i) (ix_waiter i') \<and>
     listeners (ix_waiter i') = listeners (ix_waiter i)"

lemma section_ok_same:
  assumes "chan_ok i" and "\<not> wt_locked (ix_waiter i)"
    and "ix_waiter i' = ix_waiter i" "ix_closed i' = ix_closed i" "ix_nextChan i' = ix_nextChan i"
  shows "section_ok i i'"
  using assms chan_ok_cong [of i' i] by (simp add: section_ok_def)

lemma section_ok_retagged:
  assumes "retagged g i i'" and "chan_ok i'" and "\<not> wt_locked (ix_waiter i')" and "keeps_channel g"
    and "\<And>k v. wte_listeners (g k v) = wte_listeners v"
  shows "section_ok i i'"
  using assms advances_retagged [OF assms(1,4)] retagged_listeners [OF assms(1,5)]
  by (simp add: section_ok_def)

lemma snd_after_section [simp]: "snd (after_section p h) = snd p"
  by (cases p rule: go_cases_pair) simp_all

text \<open>What a section of a handler does to the wait table: wake, abort, or nothing.\<close>

lemma handler_step_table:
  assumes "chan_ok i" and "\<not> wt_locked (ix_waiter i)" and step: "handler_step S A h i = Some (h', i')"
  obtains (wake) blk where "h = HSeenWake blk" and "retagged (wake_entry (set (tx_hashes blk))) i i'"
  | (abort) blk where "h = HAddAbort blk" and "retagged (abort_stale blk UNIV) i i'"
  | (same) "ix_waiter i' = ix_waiter i"
proof -
  have snd: "i' = snd (the (handler_step S A h i))" using step by simp
  show thesis
  proof (cases h)
    case (HSeenWake blk)
    with step assms(2) BlockSeen_wake_ok [OF assms(1,2), of blk] wake show thesis
      by (auto simp: handler_step_def)
  next
    case (HAddAbort blk)
    with step assms(2) BlockAdded_abort_ok [OF assms(1,2), of blk] abort show thesis
      by (auto simp: handler_step_def)
  next
    case (HDone r)
    with step show thesis by (simp add: handler_step_def)
  qed (use same in \<open>simp_all add: snd handler_step_def BlockSeen_cache_def BlockSeen_count_def
         BlockAdded_uncache_def BlockRemoved_def smap_err_state\<close>)
qed

text \<open>What a section of a handler does to the database, the cache and the counter.\<close>

lemma with_db_db [simp]: "ix_db (snd (with_db m i)) = snd (m (ix_db i))"
  by (simp add: with_db_def split: prod.split)

lemma handler_step_state:
  assumes "chan_ok i" and "\<not> wt_locked (ix_waiter i)" and step: "handler_step S A h i = Some (h', i')"
  shows "ix_db i' =
      (case h of
         HSeenStore blk \<Rightarrow> snd (st_SeeBlock A blk (ix_db i))
       | HAddStore blk \<Rightarrow> snd (st_AddBlock A blk (ix_db i))
       | HRemove b \<Rightarrow> snd (st_RemoveBlock A b (ix_db i))
       | _ \<Rightarrow> ix_db i)" (is ?db)
    and "ix_coinCache i' =
      (case h of
         HSeenCache blk \<Rightarrow> foldl cache_op (ix_coinCache i) (block_operations blk)
       | HAddUncache blk \<Rightarrow> foldl uncache_op (ix_coinCache i) (block_operations blk)
       | _ \<Rightarrow> ix_coinCache i)" (is ?cache)
    and "ix_seen i' = ix_seen i + (case h of HSeenCount blk \<Rightarrow> 1 | _ \<Rightarrow> 0)" (is ?seen)
proof -
  have snd: "i' = snd (the (handler_step S A h i))" using step by simp
  have "?db \<and> ?cache \<and> ?seen"
  proof (cases h)
    case (HSeenWake blk)
    with step assms(2) BlockSeen_wake_ok [OF assms(1,2), of blk] show ?thesis
      by (auto simp: handler_step_def retagged_def)
  next
    case (HAddAbort blk)
    with step assms(2) BlockAdded_abort_ok [OF assms(1,2), of blk] show ?thesis
      by (auto simp: handler_step_def retagged_def)
  next
    case (HDone r)
    with step show ?thesis by (simp add: handler_step_def)
  qed (simp_all add: snd handler_step_def BlockSeen_cache_def BlockSeen_count_def BlockSeen_store_def
         BlockAdded_store_def BlockAdded_uncache_def BlockRemoved_def smap_err_state)
  then show ?db ?cache ?seen by blast+
qed

lemma handler_step_ok:
  assumes "chan_ok i" and "\<not> wt_locked (ix_waiter i)" and step: "handler_step S A h i = Some (h', i')"
  shows "section_ok i i'"
proof -
  note same = section_ok_same [OF assms(1,2)]
  have snd: "i' = snd (the (handler_step S A h i))" using step by simp
  show ?thesis
  proof (cases h)
    case (HSeenWake blk)
    obtain j where "BlockSeen_wake blk i = (Ok (), j)" "chan_ok j" "\<not> wt_locked (ix_waiter j)"
        "retagged (wake_entry (set (tx_hashes blk))) i j"
      using BlockSeen_wake_ok [OF assms(1,2)] by blast
    then show ?thesis
      using HSeenWake step assms(2) section_ok_retagged [of _ i j] by (simp add: handler_step_def)
  next
    case (HAddAbort blk)
    obtain j where "BlockAdded_abort blk i = (Ok (), j)" "chan_ok j" "\<not> wt_locked (ix_waiter j)"
        "retagged (abort_stale blk UNIV) i j"
      using BlockAdded_abort_ok [OF assms(1,2)] by blast
    then show ?thesis
      using HAddAbort step assms(2) section_ok_retagged [of _ i j] by (simp add: handler_step_def)
  next
    case (HRemove b)
    then show ?thesis
      unfolding snd by (intro same) (simp_all add: handler_step_def BlockRemoved_def smap_err_state)
  next
    case (HDone r)
    with step show ?thesis by (simp add: handler_step_def)
  qed (unfold snd, (intro same; simp add: handler_step_def BlockSeen_cache_def
         BlockSeen_count_def BlockAdded_uncache_def)+)
qed

section \<open>Steps of a fetcher\<close>

text \<open>
  What a step changes in the counts is covered by what it changes in the listeners; a step
  that joins or leaves is the only one that changes the table.
\<close>

definition fetch_ok :: "fetcher \<Rightarrow> 'db indexer \<Rightarrow> fetcher \<Rightarrow> 'db indexer \<Rightarrow> bool" where
  "fetch_ok f i f' i' \<longleftrightarrow>
     chan_ok i' \<and> \<not> wt_locked (ix_waiter i') \<and> advances (ix_waiter i) (ix_waiter i') \<and>
     awaits_ok (ix_waiter i') f' \<and>
     (\<forall>key. int (ft_count key f') - int (ft_count key f)
              \<le> listeners (ix_waiter i') key - listeners (ix_waiter i) key)"

lemma fetch_ok_same:
  assumes "chan_ok i" and "\<not> wt_locked (ix_waiter i)" and "awaits_ok (ix_waiter i) f'"
    and "\<And>key. ft_count key f' \<le> ft_count key f"
  shows "fetch_ok f i f' i"
  using assms by (simp add: fetch_ok_def)

text \<open>Ending with an error or a panic gives up everything that was held.\<close>

lemma ended_simps [simp]:
  "ft_pc (ft_err f e) = PcReturn (Err (wrap_remaining (ft_depth f) e))"
  "ft_pc (ft_panic f p) = PcReturn (Panic p)"
  "\<exists>r. ft_pc (ft_fail f x e) = PcReturn r"
  by (simp_all add: end_defs)

lemma ended_waits:
  "ft_pc f = PcReturn r \<Longrightarrow> ft_waits f = []" "ft_pc f = PcReturn r \<Longrightarrow> awaits_ok t f"
  by (simp_all add: wait_views)

lemma ended_count [simp]:
  "ft_count key (ft_err f e) = 0" "ft_count key (ft_panic f p) = 0" "ft_count key (ft_fail f x e) = 0"
  "awaits_ok t (ft_err f e)" "awaits_ok t (ft_panic f p)" "awaits_ok t (ft_fail f x e)"
  by (simp_all add: wait_views end_defs)

lemma step_enter_ok:
  assumes "ft_pc f = PcEnter coins"
  shows "ft_count key (step_enter A f coins i) \<le> ft_count key f"
    and "awaits_ok t (step_enter A f coins i)"
  using assms by (auto simp: step_enter_def wait_views split: go.splits
      simp del: ended_simps simp: end_defs)

lemma step_loop_ok:
  assumes "ft_pc f = PcLoop todo"
  shows "ft_count key (step_loop cfg ctx f todo i) \<le> ft_count key f"
    and "awaits_ok t (step_loop cfg ctx f todo i)"
  using assms by (auto simp: step_loop_def wait_views end_defs split: list.splits go.splits option.splits)

lemma step_read_ok:
  assumes "ft_pc f = PcRead (x # rest) n"
  shows "ft_count key (step_read cfg A f x rest n i) \<le> ft_count key f"
    and "awaits_ok t (step_read cfg A f x rest n i)"
  using assms by (auto simp: step_read_def wait_views end_defs split: read_result.splits)

lemma step_cache_ok:
  assumes "ft_pc f = PcCache (x # rest) n h"
  shows "ft_count key (step_cache f x rest n h i) \<le> ft_count key f"
    and "awaits_ok t (step_cache f x rest n h i)"
  using assms by (auto simp: step_cache_def wait_views ft_found_def
      split: option.splits)

lemma step_get_ok:
  assumes "ft_pc f = PcGet ws"
  shows "ft_count key (step_get f ws i) \<le> ft_count key f"
    and "awaits_ok (ix_waiter i) (step_get f ws i)"
  using assms by (auto simp: step_get_def wait_views ft_err_def
      split: list.splits option.splits)

lemma step_await_ok:
  assumes "ft_pc f = PcAwait ws ch" and "awaits_ok (ix_waiter i) f" and "chan_ok i"
    and "step_await ctx f ws ch i = Some f'"
  shows "ft_count key f' \<le> ft_count key f" and "awaits_ok (ix_waiter i) f'"
  using assms by (auto simp: step_await_def wait_views ft_err_def
      chan_ok_closed split: list.splits option.splits if_splits)

lemma step_register_ok:
  assumes "ft_pc f = PcRegister (x # rest) n h" and "chan_ok i" and "\<not> wt_locked (ix_waiter i)"
    and quiet: "\<And>db p. st_GetHead A db \<noteq> Panic p"
    and step: "step_register S A f x rest n h i = (f', i')"
  shows "fetch_ok f i f' i'"
proof -
  note wf = chan_ok_wf [OF assms(2)]
  obtain r j where r: "findCoin_register S A (ic_TxID x) (block_height (ft_block f)) n h i = (r, j)"
    by (cases "findCoin_register S A (ic_TxID x) (block_height (ft_block f)) n h i")
  show ?thesis
  proof (cases r)
    case RgJoined
    let ?h = "block_height (ft_block f)"
    have j: "j = i\<lparr>ix_waiter := join_wait (ic_TxID x) ?h (ix_nextChan i) (ix_waiter i),
                  ix_nextChan := Suc (ix_nextChan i)\<rparr>"
      using r RgJoined by (auto simp: findCoin_register_def split: go.splits if_splits)
    have i': "i' = j" and f': "f' = f\<lparr>ft_remaining := ft_remaining f @ [x], ft_pc := PcLoop rest\<rparr>"
      using step r RgJoined by (simp_all add: step_register_def)
    have "advances (ix_waiter i) (ix_waiter j)"
      by (auto simp: j advances_def join_wait_Get wf joined_entry_simps split: if_splits)
    moreover have "ft_count key f' = ft_count key f + (if key = ic_TxID x then 1 else 0)" for key
      using assms(1) by (simp add: f' wait_views)
    ultimately show ?thesis
      using assms(2,3) chan_ok_join [OF assms(2), of "ic_TxID x" ?h]
      by (simp add: fetch_ok_def i' j f' awaits_ok_def join_wait_listeners wf)
  next
    case RgRetry
    then have "j = i" using r quiet by (auto simp: findCoin_register_def split: go.splits if_splits)
    then show ?thesis
      using step r RgRetry assms(1-3)
      by (auto simp: step_register_def wait_views intro!: fetch_ok_same)
  next
    case (RgFail e)
    then have "j = i" using r quiet by (auto simp: findCoin_register_def split: go.splits if_splits)
    then show ?thesis
      using step r RgFail assms(1-3) by (auto simp: step_register_def intro!: fetch_ok_same)
  next
    case (RgCrash p)
    with r quiet show ?thesis by (auto simp: findCoin_register_def split: go.splits if_splits)
  qed
qed

lemma step_leave_ok:
  assumes "ft_pc f = PcLeave (x # rest)" and "chan_ok i" and "\<not> wt_locked (ix_waiter i)"
    and "wt_Get (ix_waiter i) (ic_TxID x) = Some v"
    and step: "step_leave f x rest i = (f', i')"
  shows "fetch_ok f i f' i'"
proof -
  note wf = chan_ok_wf [OF assms(2)]
  obtain t where t: "leave_wait (ic_TxID x) (ix_waiter i) = Some (wte_aborted v, t)"
    and t2: "wt_wf t" "wt_locked t = wt_locked (ix_waiter i)"
    and G: "wt_Get t = (wt_Get (ix_waiter i))(ic_TxID x := if wte_listeners v = 1 then None
                                 else Some (v\<lparr>wte_listeners := wte_listeners v - 1\<rparr>))"
    and L: "listeners t = (listeners (ix_waiter i))(ic_TxID x := listeners (ix_waiter i) (ic_TxID x) - 1)"
    using leave_wait_Some [OF wf assms(4)] by blast
  have i': "i' = i\<lparr>ix_waiter := t\<rparr>"
    and f': "f' = f\<lparr>ft_abort := (ft_abort f \<or> wte_aborted v), ft_pc := PcGet rest\<rparr>"
    using step t by (simp_all add: step_leave_def)
  have "advances (ix_waiter i) t"
    using assms(4) by (auto simp: advances_def G split: if_splits)
  moreover have "ft_count key f = ft_count key f' + (if key = ic_TxID x then 1 else 0)" for key
    using assms(1) by (simp add: f' wait_views)
  ultimately show ?thesis
    using assms(2,3) t2 chan_ok_leave [OF assms(2,4) t]
    by (simp add: fetch_ok_def i' f' awaits_ok_def L)
qed

lemma fetch_step_ok:
  assumes "chan_ok i" and "\<not> wt_locked (ix_waiter i)" and "awaits_ok (ix_waiter i) f"
    and quiet: "\<And>db p. st_GetHead A db \<noteq> Panic p"
    and step: "fetch_step S A cfg ctx f i = Some (f', i')"
  shows "fetch_ok f i f' i'"
  using step
proof (cases rule: fetch_stepE)
  case (sleep x rest)
  with assms(1-3) show ?thesis
    by (auto simp: wait_views end_defs split: option.split intro!: fetch_ok_same)
next
  case (leave x rest)
  then obtain v where "wt_Get (ix_waiter i) (ic_TxID x) = Some v"
    using assms(3) by (auto simp: awaits_ok_def split: option.splits)
  with step_leave_ok leave assms(1,2) show ?thesis by blast
qed (use assms(1-3) quiet in \<open>auto intro!: fetch_ok_same step_enter_ok step_loop_ok step_read_ok
  step_cache_ok step_get_ok intro: step_register_ok step_await_ok\<close>)

text \<open>What a step of a fetcher does to the wait table: join, leave, or nothing.\<close>

lemma fetch_step_table:
  assumes "chan_ok i" and "awaits_ok (ix_waiter i) f" and quiet: "\<And>db p. st_GetHead A db \<noteq> Panic p"
    and step: "fetch_step S A cfg ctx f i = Some (f', i')"
  obtains (join) key h where "wt_Get (ix_waiter i') =
      (wt_Get (ix_waiter i))(key \<mapsto> joined_entry (wt_Get (ix_waiter i) key) h (ix_nextChan i))"
  | (leave) x rest v where "ft_pc f = PcLeave (x # rest)" and "wt_Get (ix_waiter i) (ic_TxID x) = Some v"
      and "wt_Get (ix_waiter i') = (wt_Get (ix_waiter i))(ic_TxID x := if wte_listeners v = 1 then None
             else Some (v\<lparr>wte_listeners := wte_listeners v - 1\<rparr>))"
  | (same) "ix_waiter i' = ix_waiter i"
  using step
proof (cases rule: fetch_stepE)
  case (register x rest n h)
  with that(1) [unfolded join_wait_Get [OF chan_ok_wf [OF assms(1)], symmetric]] that(3) quiet show thesis
    by (auto simp: step_register_def findCoin_register_def split: go.splits if_splits)
next
  case (leave x rest)
  with assms(2) obtain v where v: "wt_Get (ix_waiter i) (ic_TxID x) = Some v"
    by (auto simp: awaits_ok_def split: option.splits)
  from leave_wait_Some [OF chan_ok_wf [OF assms(1)] v] leave(2) that(2) [OF leave(1) v] show thesis
    by (auto simp: step_leave_def)
qed (use that(3) in simp_all)

section \<open>The invariant of the system\<close>

lemma sys_held_append [simp]:
  "sys_held (s\<lparr>sy_fetchers := sy_fetchers s @ [f]\<rparr>) key = sys_held s key + ft_count key f"
  "sys_held (s\<lparr>sy_handlers := hs\<rparr>) key = sys_held s key"
  by (simp_all add: sys_held_def)

lemma sys_held_update:
  assumes "k < length (sy_fetchers s)"
  shows "int (sys_held (s\<lparr>sy_ix := i', sy_fetchers := (sy_fetchers s)[k := f']\<rparr>) key) =
     int (sys_held s key) + int (ft_count key f') - int (ft_count key (sy_fetchers s ! k))"
proof -
  have "ft_count key (sy_fetchers s ! k) \<le> sys_held s key"
    using assms by (intro ft_count_le_held) simp
  then show ?thesis
    using assms by (simp add: sys_held_def map_update sum_list_update)
qed

lemma count_le_listeners:
  assumes "sys_ok s" and "f \<in> set (sy_fetchers s)"
  shows "int (ft_count key f) \<le> listeners (ix_waiter (sy_ix s)) key"
proof -
  have "int (sys_held s key) \<le> listeners (ix_waiter (sy_ix s)) key"
    using assms(1) by (simp add: sys_ok_def)
  then show ?thesis using ft_count_le_held [OF assms(2), of key] by linarith
qed

lemma waited_count: "x \<in> set (ft_waits f) \<Longrightarrow> 0 < ft_count (ic_TxID x) f"
  by (simp add: ft_count_def zero_less_iff_neq_zero count_list_0_iff)

lemma sys_ok_init: "sys_ok (sys_init db)"
  by (simp add: sys_ok_def sys_init_def chan_ok_init sys_held_def listeners_def)
    (simp add: InitIndexer_def)

lemma sys_ok_fetch:
  assumes ok: "sys_ok s" and k: "k < length (sy_fetchers s)"
    and quiet: "\<And>db p. st_GetHead A db \<noteq> Panic p"
    and step: "fetch_step S A cfg ctx (sy_fetchers s ! k) (sy_ix s) = Some (f', i')"
  shows "sys_ok (s\<lparr>sy_ix := i', sy_fetchers := (sy_fetchers s)[k := f']\<rparr>)" (is "sys_ok ?s")
proof -
  let ?f = "sy_fetchers s ! k"
  have f: "?f \<in> set (sy_fetchers s)" using k by simp
  have F: "fetch_ok ?f (sy_ix s) f' i'"
    using fetch_step_ok [OF _ _ _ quiet step] ok f by (simp add: sys_ok_def)
  have held: "int (sys_held ?s key) \<le> listeners (ix_waiter i') key" for key
  proof -
    have "int (sys_held s key) \<le> listeners (ix_waiter (sy_ix s)) key" using ok by (simp add: sys_ok_def)
    moreover have "int (ft_count key f') - int (ft_count key ?f)
        \<le> listeners (ix_waiter i') key - listeners (ix_waiter (sy_ix s)) key"
      using F by (simp add: fetch_ok_def)
    ultimately show ?thesis using sys_held_update [OF k, where i' = i' and f' = f' and key = key] by linarith
  qed
  have "awaits_ok (ix_waiter i') g" if "g \<in> set (sy_fetchers ?s)" for g
  proof (cases "g = f'")
    case True
    with F show ?thesis by (simp add: fetch_ok_def)
  next
    case False
    then have "g \<in> set (sy_fetchers s)"
      using that set_update_subset_insert [of "sy_fetchers s" k f'] by auto
    then have "awaits_ok (ix_waiter (sy_ix s)) g" using ok by (simp add: sys_ok_def)
    moreover have "advances (ix_waiter (sy_ix s)) (ix_waiter i')" using F by (simp add: fetch_ok_def)
    moreover have "int (ft_count key g) \<le> listeners (ix_waiter i') key" for key
      using held [of key] ft_count_le_held [OF that, of key] by linarith
    ultimately show ?thesis by (rule awaits_ok_advances)
  qed
  with held F show ?thesis by (simp add: sys_ok_def fetch_ok_def)
qed

lemma sys_ok_handler:
  assumes ok: "sys_ok s"
    and step: "handler_step S A h (sy_ix s) = Some (h', i')"
  shows "sys_ok (s\<lparr>sy_ix := i', sy_handlers := hs\<rparr>)" (is "sys_ok ?s")
proof -
  have H: "section_ok (sy_ix s) i'"
    using handler_step_ok [OF _ _ step] ok by (simp add: sys_ok_def)
  have held: "int (sys_held ?s key) \<le> listeners (ix_waiter i') key" for key
    using ok H by (simp add: sys_ok_def section_ok_def sys_held_def)
  have "awaits_ok (ix_waiter i') g" if "g \<in> set (sy_fetchers s)" for g
  proof (rule awaits_ok_advances)
    show "awaits_ok (ix_waiter (sy_ix s)) g" using ok that by (simp add: sys_ok_def)
    show "advances (ix_waiter (sy_ix s)) (ix_waiter i')" using H by (simp add: section_ok_def)
    show "int (ft_count key g) \<le> listeners (ix_waiter i') key" for key
      using held [of key] ft_count_le_held [of g ?s key] that by simp
  qed
  with held H show ?thesis by (simp add: sys_ok_def section_ok_def)
qed

lemma reachable_sys_ok:
  assumes "reachable S A cfg s" and quiet: "\<And>db p. st_GetHead A db \<noteq> Panic p"
  shows "sys_ok s"
  using assms(1)
proof (induction rule: reachable_invariant)
  case (init db)
  show ?case by (rule sys_ok_init)
next
  case (call_Block s blk coins)
  with call_Block show ?case by (auto simp: sys_ok_def)
next
  case (run_fetcher s k ctx f' i')
  show ?case by (rule sys_ok_fetch [OF run_fetcher(1,2) quiet run_fetcher(3)])
next
  case (run_handler s k h' i')
  show ?case by (rule sys_ok_handler [OF run_handler(1,3)])
qed (simp_all add: sys_ok_def)

end
