(* ===== verification/Indexer_Coins.thy ===== *)
theory Indexer_Coins
  imports Indexer_Waits
begin

text \<open>
  What a finished search returns: a fetcher never loses a coin it was asked for, however
  often it joins, waits and starts again, and every coin it returns came from the database
  or from the cache under the identifier it was asked for.
\<close>

section \<open>Requested, found and pending coins\<close>

definition ft_pending :: "fetcher \<Rightarrow> input_ctx list" where
  "ft_pending f =
     (case ft_pc f of
        PcEnter coins \<Rightarrow> coins
      | PcLoop todo \<Rightarrow> todo @ ft_remaining f
      | PcRead todo _ \<Rightarrow> todo @ ft_remaining f
      | PcSleep todo \<Rightarrow> todo @ ft_remaining f
      | PcCache todo _ _ \<Rightarrow> todo @ ft_remaining f
      | PcRegister todo _ _ \<Rightarrow> todo @ ft_remaining f
      | PcReturn _ \<Rightarrow> []
      | _ \<Rightarrow> ft_remaining f)"

definition ids :: "input_ctx list \<Rightarrow> string set" where
  "ids cs = ic_InputID ` set cs"

lemma ids_simps [simp]: "ids [] = {}" "ids (x # xs) = insert (ic_InputID x) (ids xs)"
  "ids (xs @ ys) = ids xs \<union> ids ys"
  by (auto simp: ids_def)

definition all_coins :: "(string \<Rightarrow> account_coin \<Rightarrow> bool) \<Rightarrow> (string \<rightharpoonup> account_coin) \<Rightarrow> bool" where
  "all_coins P m \<longleftrightarrow> (\<forall>k ac. m k = Some ac \<longrightarrow> P k ac)"

lemma all_coins_empty [simp]: "all_coins P Map.empty"
  by (simp add: all_coins_def)

lemma all_coins_upd: "all_coins P m \<Longrightarrow> P k ac \<Longrightarrow> all_coins P (m(k \<mapsto> ac))"
  by (simp add: all_coins_def)

lemma all_coins_add: "all_coins P m \<Longrightarrow> all_coins P n \<Longrightarrow> all_coins P (m ++ n)"
  by (auto simp: all_coins_def map_add_Some_iff)

definition found_ok :: "(string \<Rightarrow> account_coin \<Rightarrow> bool) \<Rightarrow> fetcher \<Rightarrow> bool" where
  "found_ok P f \<longleftrightarrow>
     (case ft_pc f of
        PcReturn r \<Rightarrow>
          (case r of Ok m \<Rightarrow> dom m = ids (ft_request f) \<and> all_coins P m | _ \<Rightarrow> True)
      | pc \<Rightarrow>
          ids (ft_request f) = dom (ft_acc f) \<union> dom (ft_coinMap f) \<union> ids (ft_pending f) \<and>
          all_coins P (ft_acc f) \<and> all_coins P (ft_coinMap f) \<and>
          (case pc of PcEnter _ \<Rightarrow> ft_coinMap f = Map.empty | _ \<Rightarrow> True))"

named_theorems coin_views \<open>what a fetcher has found and still looks for\<close>

declare found_ok_def [coin_views] ft_pending_def [coin_views]

lemma found_ok_ended [simp]:
  "found_ok P (ft_err f e)" "found_ok P (ft_panic f p)" "found_ok P (ft_fail f x e)"
  by (simp_all add: found_ok_def end_defs)

text \<open>Finding the coin the search works on moves its identifier from pending to found.\<close>

lemma found_ok_found:
  assumes "found_ok P f" and "ft_pc f = PcRead (x # rest) n \<or> ft_pc f = PcCache (x # rest) n h"
    and "P (ic_InputID x) \<lparr>ac_Account = owner, ac_Coin = coin\<rparr>"
  shows "found_ok P (ft_found f x rest coin owner)"
  using assms by (auto simp: coin_views ft_found_def intro: all_coins_upd)

text \<open>What a fetcher waits on, and what it has returned.\<close>

definition ft_awaits :: "fetcher \<Rightarrow> (input_ctx list \<times> nat) option" where
  "ft_awaits f = (case ft_pc f of PcAwait ws ch \<Rightarrow> Some (ws, ch) | _ \<Rightarrow> None)"

definition ft_result :: "fetcher \<Rightarrow> (string \<rightharpoonup> account_coin) go option" where
  "ft_result f = (case ft_pc f of PcReturn r \<Rightarrow> Some r | _ \<Rightarrow> None)"

lemma ft_awaits_Some [simp]: "ft_awaits f = Some (ws, ch) \<longleftrightarrow> ft_pc f = PcAwait ws ch"
  by (simp add: ft_awaits_def split: fetch_pc.split)

lemma ft_result_Some [simp]: "ft_result f = Some r \<longleftrightarrow> ft_pc f = PcReturn r"
  by (simp add: ft_result_def split: fetch_pc.split)

section \<open>The steps\<close>

definition reads_at :: "'db storage_api \<Rightarrow> (string \<Rightarrow> account_coin \<Rightarrow> bool) \<Rightarrow> 'db \<Rightarrow> bool" where
  "reads_at A P db \<longleftrightarrow>
     (\<forall>k coin owner. st_GetCoin A db \<lparr>ci_Identifier = k\<rparr> = Ok (coin, owner) \<longrightarrow>
        P k \<lparr>ac_Account = owner, ac_Coin = coin\<rparr>)"

definition reads_ok :: "'db storage_api \<Rightarrow> (string \<Rightarrow> account_coin \<Rightarrow> bool) \<Rightarrow> bool" where
  "reads_ok A P \<longleftrightarrow> (\<forall>db. reads_at A P db)"

lemma findCoin_read_found:
  "findCoin_read A g db k = RdFound coin owner \<Longrightarrow>
   st_GetCoin A db \<lparr>ci_Identifier = k\<rparr> = Ok (coin, owner)"
  by (auto simp: findCoin_read_def read_coin_def split: go.splits if_splits prod.splits)

lemma found_step_read:
  assumes "found_ok P f" and "ft_pc f = PcRead (x # rest) n" and "reads_at A P (ix_db i)"
  shows "found_ok P (step_read cfg A f x rest n i)"
proof (cases "findCoin_read A (isGenesis cfg (ft_block f) = Ok True) (ix_db i) (ic_InputID x)")
  case (RdFound coin owner)
  then have "P (ic_InputID x) \<lparr>ac_Account = owner, ac_Coin = coin\<rparr>"
    using assms(3) findCoin_read_found [OF RdFound] by (simp add: reads_at_def)
  then show ?thesis
    using RdFound found_ok_found [OF assms(1)] assms(2) by (simp add: step_read_def)
next
  case RdSleep
  with assms show ?thesis by (auto simp: step_read_def coin_views)
next
  case (RdMissing h)
  with assms show ?thesis by (auto simp: step_read_def coin_views)
qed (simp_all add: step_read_def)

lemma found_step_cache:
  assumes "found_ok P f" and "ft_pc f = PcCache (x # rest) n h" and "all_coins P (ix_coinCache i)"
  shows "found_ok P (step_cache f x rest n h i)"
proof (cases "ix_coinCache i (ic_InputID x)")
  case None
  then show ?thesis using assms by (auto simp: step_cache_def coin_views)
next
  case (Some ac)
  then have "P (ic_InputID x) \<lparr>ac_Account = ac_Account ac, ac_Coin = ac_Coin ac\<rparr>"
    using assms(3) by (simp add: all_coins_def)
  then show ?thesis
    using Some found_ok_found [OF assms(1)] assms(2) by (simp add: step_cache_def)
qed

lemma found_step_enter:
  assumes "found_ok P f" and "ft_pc f = PcEnter coins"
  shows "found_ok P (step_enter A f coins i)"
  using assms by (auto simp: step_enter_def coin_views end_defs
      split: go.splits)

lemma found_step_loop:
  assumes "found_ok P f" and "ft_pc f = PcLoop todo"
  shows "found_ok P (step_loop cfg ctx f todo i)"
proof (cases todo)
  case Nil
  then show ?thesis
    using assms by (auto simp: step_loop_def coin_views intro: all_coins_add)
next
  case (Cons x rest)
  then show ?thesis
    using assms by (auto simp: step_loop_def coin_views end_defs split: go.splits option.splits)
qed

lemma found_step_get:
  assumes "found_ok P f" and "ft_pc f = PcGet ws"
  shows "found_ok P (step_get f ws i)"
proof (cases ws)
  case Nil
  then show ?thesis
    using assms by (auto simp: step_get_def coin_views ft_err_def intro: all_coins_add)
next
  case (Cons x rest)
  then show ?thesis
    using assms by (auto simp: step_get_def coin_views ft_err_def split: option.splits)
qed

lemma found_step_register:
  assumes "found_ok P f" and "ft_pc f = PcRegister (x # rest) n h"
  shows "found_ok P (fst (step_register S A f x rest n h i))"
proof -
  obtain r j where r: "findCoin_register S A (ic_TxID x) (block_height (ft_block f)) n h i = (r, j)"
    by (cases "findCoin_register S A (ic_TxID x) (block_height (ft_block f)) n h i")
  show ?thesis
  proof (cases "r = RgRetry \<or> r = RgJoined")
    case True
    with assms r show ?thesis by (auto simp: step_register_def coin_views)
  next
    case False
    with r show ?thesis by (cases r) (simp_all add: step_register_def)
  qed
qed

lemma found_step_leave:
  assumes "found_ok P f" and "ft_pc f = PcLeave (x # rest)"
  shows "found_ok P (fst (step_leave f x rest i))"
proof (cases "leave_wait (ic_TxID x) (ix_waiter i)")
  case None
  then show ?thesis by (simp add: step_leave_def)
next
  case (Some p)
  with assms show ?thesis
    by (cases p) (auto simp: step_leave_def coin_views)
qed

lemma found_fetch_step:
  assumes "found_ok P f" and "all_coins P (ix_coinCache i)" and "reads_at A P (ix_db i)"
    and step: "fetch_step S A cfg ctx f i = Some (f', i')"
  shows "found_ok P f'"
  using step
proof (cases rule: fetch_stepE)
  case (sleep x rest)
  with assms(1) show ?thesis by (auto simp: coin_views end_defs split: option.splits)
next
  case (register x rest n h)
  with found_step_register [OF assms(1) register(1), of S A i] show ?thesis by simp
next
  case (await ws ch)
  with assms(1) show ?thesis
    by (auto simp: step_await_def coin_views ft_err_def split: option.splits if_splits)
next
  case (leave x rest)
  with found_step_leave [OF assms(1) leave(1), of i] show ?thesis by simp
qed (use assms(1-3) in \<open>auto intro: found_step_enter found_step_loop found_step_read found_step_cache
  found_step_get\<close>)

section \<open>The cache and the whole system\<close>

text \<open>A coin kept under an identifier is the coin of that identifier.\<close>

definition coin_is :: "string \<Rightarrow> account_coin \<Rightarrow> bool" where
  "coin_is k ac \<longleftrightarrow> ci_Identifier (co_CoinIdentifier (ac_Coin ac)) = k"

lemma created_coin_is: "created_coin op = Some (k, ac) \<Longrightarrow> coin_is k ac"
  by (auto simp: created_coin_def coin_is_def split: option.splits if_splits)

lemma cache_ops_coin_is:
  "all_coins coin_is m \<Longrightarrow> all_coins coin_is (foldl cache_op m ops)"
proof (induction ops arbitrary: m)
  case (Cons op ops)
  have "all_coins coin_is (cache_op m op)"
    using Cons.prems by (auto simp: cache_op_def cache_put_def split: option.split
        intro: all_coins_upd dest: created_coin_is)
  then show ?case using Cons.IH by simp
qed simp

lemma uncache_ops_coin_is:
  "all_coins P m \<Longrightarrow> all_coins P (foldl uncache_op m ops)"
proof (induction ops arbitrary: m)
  case (Cons op ops)
  have "all_coins P (uncache_op m op)"
    using Cons.prems by (auto simp: uncache_op_def cache_delete_def all_coins_def split: option.split)
  then show ?case using Cons.IH by simp
qed simp

lemma fetch_step_state:
  assumes "fetch_step S A cfg ctx f i = Some (f', i')"
  shows "ix_db i' = ix_db i" and "ix_coinCache i' = ix_coinCache i" and "ix_seen i' = ix_seen i"
  using assms
  by (cases rule: fetch_stepE;
      force simp: step_register_def findCoin_register_def step_leave_def
        split: go.splits if_splits option.splits prod.splits register_result.splits)+

lemma retagged_cache: "retagged g i i' \<Longrightarrow> ix_coinCache i' = ix_coinCache i"
  by (simp add: retagged_def)

lemma handler_step_cache:
  assumes "all_coins coin_is (ix_coinCache i)" and "chan_ok i" and "\<not> wt_locked (ix_waiter i)"
    and step: "handler_step S A h i = Some (h', i')"
  shows "all_coins coin_is (ix_coinCache i')"
  using assms(1)
  by (cases h) (simp_all add: handler_step_state [OF assms(2-4)] cache_ops_coin_is uncache_ops_coin_is)

lemma reachable_coins:
  assumes "reachable S A cfg s" and quiet: "\<And>db p. st_GetHead A db \<noteq> Panic p"
    and "reads_ok A coin_is"
  shows "sys_ok s \<and> all_coins coin_is (ix_coinCache (sy_ix s)) \<and>
    (\<forall>f \<in> set (sy_fetchers s). found_ok coin_is f)"
  using assms(1)
proof (induction rule: reachable_invariant)
  case (init db)
  show ?case by (simp add: sys_ok_init) (simp add: sys_init_def InitIndexer_def)
next
  case (call_Block s blk coins)
  have "found_ok coin_is (new_fetcher blk coins)"
    by (simp add: found_ok_def new_fetcher_def ft_pending_def)
  then show ?case using call_Block by (auto simp: sys_ok_def)
next
  case (run_fetcher s k ctx f' i')
  then have "found_ok coin_is f'" using found_fetch_step assms(3) nth_mem unfolding reads_ok_def by blast
  moreover have "ix_coinCache i' = ix_coinCache (sy_ix s)"
    using fetch_step_state(2) [OF run_fetcher(3)] .
  moreover have "set ((sy_fetchers s)[k := f']) \<subseteq> insert f' (set (sy_fetchers s))"
    by (rule set_update_subset_insert)
  ultimately show ?case
    using sys_ok_fetch [OF _ run_fetcher(2) quiet run_fetcher(3)] run_fetcher(1) by auto
next
  case (run_handler s k h' i')
  then have "all_coins coin_is (ix_coinCache i')"
    using handler_step_cache [OF _ _ _ run_handler(3)] by (simp add: sys_ok_def)
  with run_handler show ?case using sys_ok_handler [OF _ run_handler(3)] by simp
qed (simp_all add: sys_ok_def)

end
