(* ===== verification/Indexer_Leave.thy ===== *)
theory Indexer_Leave
  imports Indexer_Coins
begin

text \<open>
  The end of a wait: once the channels a fetcher waits on are closed, it leaves all of them
  without help from any other thread, gives its listeners back, and either reports the
  orphaned head or starts over with the remaining coins.
\<close>

fun run_fetcher_alone ::
  "nat \<Rightarrow> sdk \<Rightarrow> 'db storage_api \<Rightarrow> configuration \<Rightarrow> fetcher \<Rightarrow> 'db indexer \<Rightarrow> fetcher \<times> 'db indexer"
where
  "run_fetcher_alone 0 S A cfg f i = (f, i)"
| "run_fetcher_alone (Suc n) S A cfg f i =
     (case fetch_step S A cfg None f i of
        None \<Rightarrow> (f, i)
      | Some (f', i') \<Rightarrow> run_fetcher_alone n S A cfg f' i')"

definition is_closed :: "wait_table \<Rightarrow> string \<Rightarrow> bool" where
  "is_closed t k = (case wt_Get t k of None \<Rightarrow> False | Some v \<Rightarrow> wte_channelClosed v)"

definition is_aborted :: "wait_table \<Rightarrow> string \<Rightarrow> bool" where
  "is_aborted t k = (case wt_Get t k of None \<Rightarrow> False | Some v \<Rightarrow> wte_aborted v)"

lemma errors_Is_wrap_remaining [simp]: "errors_Is (wrap_remaining d e) t = errors_Is e t"
  by (induction d arbitrary: e) simp_all

text \<open>Getting, awaiting and leaving one closed entry.\<close>

lemma leave_one:
  assumes "chan_ok i" and "\<not> wt_locked (ix_waiter i)" and "ft_pc f = PcGet (x # rest)"
    and "wt_Get (ix_waiter i) (ic_TxID x) = Some v" and "wte_channelClosed v"
  shows "\<exists>t. run_fetcher_alone (3 + n) S A cfg f i =
      run_fetcher_alone n S A cfg (f\<lparr>ft_abort := ft_abort f \<or> wte_aborted v, ft_pc := PcGet rest\<rparr>)
        (i\<lparr>ix_waiter := t\<rparr>) \<and>
    leave_wait (ic_TxID x) (ix_waiter i) = Some (wte_aborted v, t)"
proof -
  obtain t where t: "leave_wait (ic_TxID x) (ix_waiter i) = Some (wte_aborted v, t)"
    using leave_wait_Some [OF chan_ok_wf [OF assms(1)] assms(4)] by blast
  have "wte_channel v \<in> ix_closed i" using chan_ok_closed [OF assms(1,4)] assms(5) by simp
  then show ?thesis
    using assms(2-4) t
    by (intro exI [of _ t])
      (simp add: numeral_3_eq_3 fetch_step_def step_get_def step_await_def step_leave_def)
qed

text \<open>Leaving one wait keeps the flags of the entries still waited for.\<close>

lemma others_flags:
  assumes v: "wt_Get t k = Some v"
    and G: "wt_Get t' = (wt_Get t)(k := if wte_listeners v = 1 then None
                                      else Some (v\<lparr>wte_listeners := wte_listeners v - 1\<rparr>))"
    and y: "y \<in> set rest"
    and count: "\<And>key. int (count_list (map ic_TxID rest) key) \<le> listeners t' key"
  shows "is_closed t' (ic_TxID y) = is_closed t (ic_TxID y) \<and>
    is_aborted t' (ic_TxID y) = is_aborted t (ic_TxID y)"
proof -
  have "count_list (map ic_TxID rest) (ic_TxID y) \<noteq> 0"
    using y by (simp add: count_list_0_iff)
  then have "0 < listeners t' (ic_TxID y)" using count [of "ic_TxID y"] by linarith
  then obtain w where "wt_Get t' (ic_TxID y) = Some w" using listeners_pos by blast
  then show ?thesis
    using v by (auto simp: G is_closed_def is_aborted_def split: if_splits)
qed

definition all_left :: "input_ctx list \<Rightarrow> fetcher \<Rightarrow> 'db indexer \<Rightarrow> fetcher \<Rightarrow> 'db indexer \<Rightarrow> bool" where
  "all_left ws f i f' i' \<longleftrightarrow>
     (\<forall>key. listeners (ix_waiter i') key =
        listeners (ix_waiter i) key - int (count_list (map ic_TxID ws) key)) \<and>
     \<not> wt_locked (ix_waiter i') \<and>
     (if ft_abort f \<or> (\<exists>x \<in> set ws. is_aborted (ix_waiter i) (ic_TxID x))
      then \<exists>e. ft_pc f' = PcReturn (Err e) \<and> errors_Is e ErrOrphanHead
      else ft_pc f' = PcEnter (ft_remaining f))"

lemma leave_all:
  assumes "chan_ok i" and "\<not> wt_locked (ix_waiter i)" and "ft_pc f = PcGet ws"
    and "\<And>key. int (count_list (map ic_TxID ws) key) \<le> listeners (ix_waiter i) key"
    and "\<And>x. x \<in> set ws \<Longrightarrow> is_closed (ix_waiter i) (ic_TxID x)"
  shows "\<exists>f' i'. run_fetcher_alone (3 * length ws + 1) S A cfg f i = (f', i') \<and> all_left ws f i f' i'"
  using assms
proof (induction ws arbitrary: f i)
  case Nil
  then show ?case by (simp add: fetch_step_def step_get_def ft_err_def all_left_def)
next
  case (Cons x rest)
  let ?k = "ic_TxID x" and ?t = "ix_waiter i"
  have "0 < listeners ?t ?k" using Cons.prems(4) [of ?k] by simp
  then obtain v where v: "wt_Get ?t ?k = Some v" using listeners_pos by blast
  have cl: "wte_channelClosed v" using Cons.prems(5) [of x] v by (simp add: is_closed_def)
  obtain t where
    run: "run_fetcher_alone (3 + (3 * length rest + 1)) S A cfg f i =
      run_fetcher_alone (3 * length rest + 1) S A cfg
        (f\<lparr>ft_abort := ft_abort f \<or> wte_aborted v, ft_pc := PcGet rest\<rparr>) (i\<lparr>ix_waiter := t\<rparr>)"
    and t: "leave_wait ?k ?t = Some (wte_aborted v, t)"
    using leave_one [OF Cons.prems(1-3) v cl] by blast
  have G: "wt_Get t = (wt_Get ?t)(?k := if wte_listeners v = 1 then None
                                       else Some (v\<lparr>wte_listeners := wte_listeners v - 1\<rparr>))"
    and L: "listeners t = (listeners ?t)(?k := listeners ?t ?k - 1)"
    and lk: "wt_locked t = wt_locked ?t"
    using leave_wait_Some [OF chan_ok_wf [OF Cons.prems(1)] v] t by auto
  have count: "int (count_list (map ic_TxID rest) key) \<le> listeners t key" for key
    using Cons.prems(4) [of key] by (auto simp: L split: if_splits)
  have same: "is_closed t (ic_TxID y) = is_closed ?t (ic_TxID y) \<and>
      is_aborted t (ic_TxID y) = is_aborted ?t (ic_TxID y)" if "y \<in> set rest" for y
    by (rule others_flags [OF v G that count])
  have ok: "chan_ok (i\<lparr>ix_waiter := t\<rparr>)" by (rule chan_ok_leave [OF Cons.prems(1) v t])
  let ?f = "f\<lparr>ft_abort := ft_abort f \<or> wte_aborted v, ft_pc := PcGet rest\<rparr>"
  obtain f' i' where fi: "run_fetcher_alone (3 * length rest + 1) S A cfg ?f (i\<lparr>ix_waiter := t\<rparr>) = (f', i')"
    and left: "all_left rest ?f (i\<lparr>ix_waiter := t\<rparr>) f' i'"
    using Cons.IH [OF ok, of ?f] Cons.prems(2,5) lk count same by auto
  have "3 * length (x # rest) + 1 = 3 + (3 * length rest + 1)" by simp
  with run fi have "run_fetcher_alone (3 * length (x # rest) + 1) S A cfg f i = (f', i')" by metis
  moreover have "all_left (x # rest) f i f' i'"
  proof -
    have "(ft_abort ?f \<or> (\<exists>y \<in> set rest. is_aborted t (ic_TxID y))) \<longleftrightarrow>
        (ft_abort f \<or> (\<exists>y \<in> set (x # rest). is_aborted ?t (ic_TxID y)))"
      using same v by (auto simp: is_aborted_def)
    then show ?thesis using left by (simp add: all_left_def L)
  qed
  ultimately show ?case by blast
qed

end
