(* ===== verification/Indexer_Exact.thy ===== *)
theory Indexer_Exact
  imports Indexer_Waits
begin

text \<open>
  Listeners exactly: as long as no fetcher has ended with an error or a panic, the wait
  table counts precisely the waits the fetchers hold, so an entry lives exactly as long as
  somebody waits on it. (An error gives up the waits of a fetcher without counting them
  down.)
\<close>

definition ft_failed :: "fetcher \<Rightarrow> bool" where
  "ft_failed f =
     (case ft_pc f of PcReturn r \<Rightarrow> (case r of Ok m \<Rightarrow> False | _ \<Rightarrow> True) | _ \<Rightarrow> False)"

lemma ft_failed_ended [simp]:
  "ft_failed (ft_err f e)" "ft_failed (ft_panic f p)" "ft_failed (ft_fail f x e)"
  by (simp_all add: ft_failed_def end_defs)

text \<open>What a step that does not fail does to the counts.\<close>

definition exact_step :: "fetcher \<Rightarrow> 'db indexer \<Rightarrow> fetcher \<Rightarrow> 'db indexer \<Rightarrow> bool" where
  "exact_step f i f' i' \<longleftrightarrow>
     (\<forall>key. int (ft_count key f') - int (ft_count key f)
              = listeners (ix_waiter i') key - listeners (ix_waiter i) key) \<and>
     ((\<forall>k v. wt_Get (ix_waiter i) k = Some v \<longrightarrow> 1 \<le> wte_listeners v) \<longrightarrow>
      (\<forall>k v. wt_Get (ix_waiter i') k = Some v \<longrightarrow> 1 \<le> wte_listeners v))"

lemma exact_step_same: "(\<And>key. ft_count key f' = ft_count key f) \<Longrightarrow> exact_step f i f' i"
  by (simp add: exact_step_def)

lemma exact_enter:
  "ft_pc f = PcEnter coins \<Longrightarrow> ft_failed (step_enter A f coins i) \<or>
     ft_count key (step_enter A f coins i) = ft_count key f"
  by (auto simp: step_enter_def wait_views split: go.splits)

lemma exact_loop:
  "ft_pc f = PcLoop todo \<Longrightarrow> ft_failed (step_loop cfg ctx f todo i) \<or>
     ft_count key (step_loop cfg ctx f todo i) = ft_count key f"
  by (auto simp: step_loop_def wait_views split: list.splits go.splits option.splits)

lemma exact_read:
  "ft_pc f = PcRead (x # rest) n \<Longrightarrow> ft_failed (step_read cfg A f x rest n i) \<or>
     ft_count key (step_read cfg A f x rest n i) = ft_count key f"
  by (auto simp: step_read_def wait_views ft_found_def split: read_result.splits)

lemma exact_cache:
  "ft_pc f = PcCache (x # rest) n h \<Longrightarrow> ft_count key (step_cache f x rest n h i) = ft_count key f"
  by (auto simp: step_cache_def wait_views ft_found_def split: option.splits)

lemma exact_get:
  "ft_pc f = PcGet ws \<Longrightarrow> ft_failed (step_get f ws i) \<or>
     ft_count key (step_get f ws i) = ft_count key f"
  by (auto simp: step_get_def wait_views split: list.splits option.splits)

lemma exact_await:
  "ft_pc f = PcAwait ws ch \<Longrightarrow> step_await ctx f ws ch i = Some f' \<Longrightarrow> ft_failed f' \<or>
     ft_count key f' = ft_count key f"
  by (auto simp: step_await_def wait_views split: option.splits if_splits)

lemma exact_register:
  assumes "ft_pc f = PcRegister (x # rest) n h" and "chan_ok i"
    and "step_register S A f x rest n h i = (f', i')" and "\<not> ft_failed f'"
  shows "exact_step f i f' i'"
proof -
  note wf = chan_ok_wf [OF assms(2)]
  obtain r j where r: "findCoin_register S A (ic_TxID x) (block_height (ft_block f)) n h i = (r, j)"
    by (cases "findCoin_register S A (ic_TxID x) (block_height (ft_block f)) n h i")
  show ?thesis
  proof (cases r)
    case RgJoined
    let ?h = "block_height (ft_block f)"
    have j: "j = i\<lparr>ix_waiter := join_wait (ic_TxID x) ?h (ix_nextChan i) (ix_waiter i),
                  ix_nextChan := Suc (ix_nextChan i)\<rparr>"
      using r RgJoined by (auto simp: findCoin_register_def split: go.splits if_splits)
    have i': "i' = j" and f': "f' = f\<lparr>ft_remaining := ft_remaining f @ [x], ft_pc := PcLoop rest\<rparr>"
      using assms(3) r RgJoined by (simp_all add: step_register_def)
    have "ft_count key f' = ft_count key f + (if key = ic_TxID x then 1 else 0)" for key
      using assms(1) by (simp add: f' wait_views)
    moreover have "1 \<le> wte_listeners v"
      if "\<And>k v. wt_Get (ix_waiter i) k = Some v \<Longrightarrow> 1 \<le> wte_listeners v"
        and "wt_Get (ix_waiter j) k = Some v" for k v
      using that by (force simp: j join_wait_Get wf joined_entry_simps split: if_splits option.splits)
    ultimately show ?thesis by (auto simp: exact_step_def i' j join_wait_listeners wf)
  next
    case RgRetry
    then have "j = i" using r by (auto simp: findCoin_register_def split: go.splits if_splits)
    then show ?thesis
      using assms r RgRetry by (auto simp: step_register_def wait_views intro!: exact_step_same)
  qed (use assms r in \<open>auto simp: step_register_def\<close>)
qed

lemma exact_leave:
  assumes "ft_pc f = PcLeave (x # rest)" and "chan_ok i"
    and "step_leave f x rest i = (f', i')" and "\<not> ft_failed f'"
  shows "exact_step f i f' i'"
proof -
  note wf = chan_ok_wf [OF assms(2)]
  obtain v where v: "wt_Get (ix_waiter i) (ic_TxID x) = Some v"
    using assms(3,4) by (cases "wt_Get (ix_waiter i) (ic_TxID x)") (auto simp: step_leave_def leave_wait_def)
  obtain t where t: "leave_wait (ic_TxID x) (ix_waiter i) = Some (wte_aborted v, t)"
    and G: "wt_Get t = (wt_Get (ix_waiter i))(ic_TxID x := if wte_listeners v = 1 then None
                                 else Some (v\<lparr>wte_listeners := wte_listeners v - 1\<rparr>))"
    and L: "listeners t = (listeners (ix_waiter i))(ic_TxID x := listeners (ix_waiter i) (ic_TxID x) - 1)"
    using leave_wait_Some [OF wf v] by blast
  have i': "i' = i\<lparr>ix_waiter := t\<rparr>"
    and f': "f' = f\<lparr>ft_abort := (ft_abort f \<or> wte_aborted v), ft_pc := PcGet rest\<rparr>"
    using assms(3) t by (simp_all add: step_leave_def)
  have "ft_count key f = ft_count key f' + (if key = ic_TxID x then 1 else 0)" for key
    using assms(1) by (simp add: f' wait_views)
  moreover have "1 \<le> wte_listeners w"
    if "\<And>k v. wt_Get (ix_waiter i) k = Some v \<Longrightarrow> 1 \<le> wte_listeners v" and "wt_Get t k = Some w" for k w
    using that(1) [OF v] that by (auto simp: G split: if_splits)
  ultimately show ?thesis by (auto simp: exact_step_def i' L)
qed

lemma exact_fetch_step:
  assumes "chan_ok i" and step: "fetch_step S A cfg ctx f i = Some (f', i')" and ok: "\<not> ft_failed f'"
  shows "exact_step f i f' i'"
  using step
proof (cases rule: fetch_stepE)
  case (enter coins)
  with ok exact_enter [OF enter(1), of A i] show ?thesis by (auto intro!: exact_step_same)
next
  case (loop todo)
  with ok exact_loop [OF loop(1), of cfg ctx i] show ?thesis by (auto intro!: exact_step_same)
next
  case (read x rest n)
  with ok exact_read [OF read(1), of cfg A i] show ?thesis by (auto intro!: exact_step_same)
next
  case (sleep x rest)
  with ok show ?thesis by (auto simp: wait_views split: option.splits intro!: exact_step_same)
next
  case (cache x rest n h)
  with exact_cache [OF cache(1), of _ i] show ?thesis by (auto intro!: exact_step_same)
next
  case (get ws)
  with ok exact_get [OF get(1), of i] show ?thesis by (auto intro!: exact_step_same)
next
  case (await ws ch)
  with ok exact_await [OF await(1,2)] show ?thesis by (auto intro!: exact_step_same)
qed (use assms(1) ok exact_register exact_leave in blast)+

section \<open>The invariant\<close>

definition no_failure :: "'db sys \<Rightarrow> bool" where
  "no_failure s \<longleftrightarrow> (\<forall>f \<in> set (sy_fetchers s). \<not> ft_failed f)"

definition counts_exact :: "'db sys \<Rightarrow> bool" where
  "counts_exact s \<longleftrightarrow>
     (\<forall>key. int (sys_held s key) = listeners (ix_waiter (sy_ix s)) key) \<and>
     (\<forall>k v. wt_Get (ix_waiter (sy_ix s)) k = Some v \<longrightarrow> 1 \<le> wte_listeners v)"

lemma failed_stays:
  "ft_failed f \<Longrightarrow> fetch_step S A cfg ctx f i = None"
  by (auto simp: ft_failed_def fetch_step_def split: fetch_pc.splits)

lemma retagged_entries:
  assumes "retagged g i i'" and "\<And>k v. wte_listeners (g k v) = wte_listeners v"
    and "\<And>k v. wt_Get (ix_waiter i) k = Some v \<Longrightarrow> 1 \<le> wte_listeners v"
    and "wt_Get (ix_waiter i') k = Some v"
  shows "1 \<le> wte_listeners v"
  using assms by (auto simp: retagged_def)

lemma handler_step_entries:
  assumes "chan_ok i" and "\<not> wt_locked (ix_waiter i)" and step: "handler_step S A h i = Some (h', i')"
    and pos: "\<And>k v. wt_Get (ix_waiter i) k = Some v \<Longrightarrow> 1 \<le> wte_listeners v"
    and v: "wt_Get (ix_waiter i') k = Some v"
  shows "1 \<le> wte_listeners v"
  using assms(1-3)
proof (cases rule: handler_step_table)
  case (wake blk)
  show ?thesis by (rule retagged_entries [OF wake(2) _ pos v]) simp_all
next
  case (abort blk)
  show ?thesis by (rule retagged_entries [OF abort(2) _ pos v]) simp_all
next
  case same
  with pos v show ?thesis by simp
qed

lemma no_failure_back:
  assumes nf: "no_failure (s\<lparr>sy_ix := i', sy_fetchers := (sy_fetchers s)[k := f']\<rparr>)"
    and step: "fetch_step S A cfg ctx (sy_fetchers s ! k) i = Some (f', i')"
  shows "no_failure s"
  unfolding no_failure_def
proof
  fix g assume "g \<in> set (sy_fetchers s)"
  then obtain j where j: "j < length (sy_fetchers s)" "g = sy_fetchers s ! j"
    by (auto simp: in_set_conv_nth)
  show "\<not> ft_failed g"
  proof (cases "j = k")
    case True
    then show ?thesis using failed_stays [of g S A cfg ctx i] j step by auto
  next
    case False
    then have "g \<in> set ((sy_fetchers s)[k := f'])"
      using j by (metis length_list_update nth_list_update_neq nth_mem)
    then show ?thesis using nf by (simp add: no_failure_def)
  qed
qed

lemma counts_exact_fetch:
  assumes "counts_exact s" and k: "k < length (sy_fetchers s)"
    and step: "exact_step (sy_fetchers s ! k) (sy_ix s) f' i'"
  shows "counts_exact (s\<lparr>sy_ix := i', sy_fetchers := (sy_fetchers s)[k := f']\<rparr>)" (is "counts_exact ?s")
proof -
  have "int (sys_held ?s key) = listeners (ix_waiter i') key" for key
  proof -
    have "int (sys_held s key) = listeners (ix_waiter (sy_ix s)) key"
      using assms(1) by (simp add: counts_exact_def)
    moreover have "int (ft_count key f') - int (ft_count key (sy_fetchers s ! k)) =
        listeners (ix_waiter i') key - listeners (ix_waiter (sy_ix s)) key"
      using step by (simp add: exact_step_def)
    ultimately show ?thesis
      using sys_held_update [OF k, where i' = i' and f' = f' and key = key] by linarith
  qed
  with assms(1) step show ?thesis by (auto simp: counts_exact_def exact_step_def)
qed

lemma counts_exact_handle:
  assumes "counts_exact s" and ok: "sys_ok s"
    and step: "handler_step S A (sy_handlers s ! k) (sy_ix s) = Some (h', i')"
  shows "counts_exact (s\<lparr>sy_ix := i', sy_handlers := (sy_handlers s)[k := h']\<rparr>)"
proof -
  have ch: "chan_ok (sy_ix s)" "\<not> wt_locked (ix_waiter (sy_ix s))" using ok by (simp_all add: sys_ok_def)
  have "listeners (ix_waiter i') = listeners (ix_waiter (sy_ix s))"
    using handler_step_ok [OF ch step] by (simp add: section_ok_def)
  moreover have "1 \<le> wte_listeners v" if "wt_Get (ix_waiter i') key = Some v" for key v
    by (rule handler_step_entries [OF ch step _ that])
      (use assms(1) in \<open>simp add: counts_exact_def\<close>)
  ultimately show ?thesis using assms(1) by (auto simp: counts_exact_def sys_held_def)
qed

lemma reachable_exact:
  assumes "reachable S A cfg s" and quiet: "\<And>db p. st_GetHead A db \<noteq> Panic p"
  shows "sys_ok s \<and> (no_failure s \<longrightarrow> counts_exact s)"
  using assms(1)
proof (induction rule: reachable_invariant)
  case (init db)
  have "counts_exact (sys_init db)"
    by (simp add: counts_exact_def sys_held_def sys_init_def InitIndexer_def listeners_def)
  then show ?case by (simp add: sys_ok_init)
next
  case (run_fetcher s k ctx f' i')
  let ?s = "s\<lparr>sy_ix := i', sy_fetchers := (sy_fetchers s)[k := f']\<rparr>"
  have ok: "sys_ok s" using run_fetcher(1) by blast
  have "counts_exact ?s" if nf: "no_failure ?s"
  proof (rule counts_exact_fetch [OF _ run_fetcher(2)])
    show "counts_exact s" using no_failure_back [OF nf run_fetcher(3)] run_fetcher(1) by blast
    have "\<not> ft_failed f'"
      using nf run_fetcher(2) by (auto simp: no_failure_def set_update_memI)
    then show "exact_step (sy_fetchers s ! k) (sy_ix s) f' i'"
      using exact_fetch_step [OF _ run_fetcher(3)] ok by (simp add: sys_ok_def)
  qed
  with sys_ok_fetch [OF ok run_fetcher(2) quiet run_fetcher(3)] show ?case by blast
next
  case (run_handler s k h' i')
  then show ?case
    using sys_ok_handler [OF _ run_handler(3)] counts_exact_handle [OF _ _ run_handler(3)]
    by (auto simp: no_failure_def)
qed (auto simp: sys_ok_def no_failure_def counts_exact_def)

end
