(* ===== verification/Indexer_Samples.thy ===== *)
theory Indexer_Samples
  imports Indexer_Coins Samples
begin

text \<open>
  A concrete storage and concrete schedules, used where a closed statement about the
  indexer needs an instance: a database that is a head block identifier and a map of
  coins, a fetcher that waits for a coin, and the block handlers that wake and abort it.
\<close>

section \<open>A storage\<close>

record sample_db =
  sd_head :: "block_identifier option"
  sd_coins :: "string \<rightharpoonup> amount option \<times> account_identifier option"
  sd_balances :: "(account_identifier option \<times> amount) list"

text \<open>Adding a block stores its created coins and drops its spent ones.\<close>

definition sample_store_op :: "sample_db \<Rightarrow> operation \<Rightarrow> sample_db" where
  "sample_store_op db op =
     (case op_CoinChange op of
        None \<Rightarrow> db
      | Some cc \<Rightarrow>
          if cc_CoinAction cc = CoinCreated
          then db\<lparr>sd_coins := (sd_coins db)(ci_Identifier (cc_CoinIdentifier cc) \<mapsto>
                                              (op_Amount op, op_Account op))\<rparr>
          else db\<lparr>sd_coins := (sd_coins db)(ci_Identifier (cc_CoinIdentifier cc) := None)\<rparr>)"

definition sample_storage :: "sample_db storage_api" where
  "sample_storage =
     \<lparr>st_GetHead = (\<lambda>db. case sd_head db of None \<Rightarrow> Err (Sentinel ErrHeadBlockNotFound) | Some h \<Rightarrow> Ok h),
      st_AddBlock = (\<lambda>blk. supd (\<lambda>db. (foldl sample_store_op db (block_operations blk))
                                   \<lparr>sd_head := Some (bk_BlockIdentifier blk)\<rparr>)),
      st_RemoveBlock = (\<lambda>b. supd (\<lambda>db. db\<lparr>sd_head := None\<rparr>)),
      st_SeeBlock = (\<lambda>blk. sret ()),
      st_GetBlockLazy = (\<lambda>db p. Err (New ''block not found'')),
      st_GetBlockTransaction = (\<lambda>db b t. Err (New ''transaction not found'')),
      st_GetCoin = (\<lambda>db c. case sd_coins db (ci_Identifier c) of
                              None \<Rightarrow> Err (Sentinel ErrCoinNotFound)
                            | Some (am, owner) \<Rightarrow> Ok (\<lparr>co_CoinIdentifier = c, co_Amount = am\<rparr>, owner)),
      st_GetCoins = (\<lambda>db a. Err (New ''not indexed'')),
      st_SetCoinsImported = (\<lambda>cs. sret ()),
      st_GetBalance = (\<lambda>db a cur k. Err (Sentinel ErrAccountMissing)),
      st_SetBalance = (\<lambda>a am b. supd (\<lambda>db. db\<lparr>sd_balances := sd_balances db @ [(a, am)]\<rparr>)),
      st_Commit = (\<lambda>tx db. (Ok (), tx))\<rparr>"

lemma sample_quiet [simp]: "st_GetHead sample_storage db \<noteq> Panic p"
  by (simp add: sample_storage_def split: option.split)

lemma sample_reads [simp]: "reads_ok sample_storage coin_is"
  by (auto simp: reads_ok_def reads_at_def sample_storage_def coin_is_def split: option.splits)

definition sample_cfg :: configuration where
  "sample_cfg =
     \<lparr>cfg_Mode = Online, cfg_Version = ''v'',
      cfg_Network = \<lparr>ni_Blockchain = Blockchain, ni_Network = MainnetNetwork\<rparr>,
      cfg_Currency = Currency, cfg_GenesisBlockIdentifier = MainnetGenesisBlockIdentifier,
      cfg_RosettaPort = 8080, cfg_NodePort = 9053, cfg_IndexerPath = ''/data'',
      cfg_GenesisUtxos = [], cfg_BootstrapBalances = [], cfg_NodeConfigPath = ''/node''\<rparr>"

definition sample_db1 :: sample_db where
  "sample_db1 = \<lparr>sd_head = Some \<lparr>bi_Index = 1, bi_Hash = ''h1''\<rparr>, sd_coins = Map.empty,
                 sd_balances = []\<rparr>"

definition sample_db0 :: sample_db where
  "sample_db0 = \<lparr>sd_head = Some \<lparr>bi_Index = 0, bi_Hash = ''h0''\<rparr>, sd_coins = Map.empty,
                 sd_balances = []\<rparr>"

section \<open>Schedules\<close>

definition mk_rblock :: "int64 \<Rightarrow> string \<Rightarrow> string \<Rightarrow> transaction list \<Rightarrow> block" where
  "mk_rblock k h parent txs =
     \<lparr>bk_BlockIdentifier = \<lparr>bi_Index = k, bi_Hash = h\<rparr>,
      bk_ParentBlockIdentifier = \<lparr>bi_Index = k - 1, bi_Hash = parent\<rparr>,
      bk_Timestamp = 0, bk_Transactions = txs\<rparr>"

definition mk_created :: "string \<Rightarrow> string \<Rightarrow> string \<Rightarrow> operation" where
  "mk_created b addr v =
     \<lparr>op_OperationIdentifier = \<lparr>oi_Index = 0, oi_NetworkIndex = None\<rparr>, op_RelatedOperations = [],
      op_Type = OutputOpType, op_Status = Some SuccessStatus,
      op_Account = Some \<lparr>ai_Address = addr\<rparr>,
      op_Amount = Some \<lparr>am_Value = v, am_Currency = Currency\<rparr>,
      op_CoinChange = Some \<lparr>cc_CoinIdentifier = \<lparr>ci_Identifier = b\<rparr>, cc_CoinAction = CoinCreated\<rparr>\<rparr>"

definition mk_spent :: "string \<Rightarrow> string \<Rightarrow> string \<Rightarrow> operation" where
  "mk_spent b addr v = (mk_created b addr v)
     \<lparr>op_Type := InputOpType,
      op_CoinChange := Some \<lparr>cc_CoinIdentifier = \<lparr>ci_Identifier = b\<rparr>, cc_CoinAction = CoinSpent\<rparr>\<rparr>"

text \<open>
  The fetcher of the sample block at height 2 asks for box \<open>g\<close>, which nothing has created
  yet; after eight steps it waits on the channel of \<open>t1\<close>.
\<close>

definition wait_moves :: "move list" where
  "wait_moves = MBlock (Some sample_block) [\<lparr>ic_TxID = ''t1'', ic_InputID = ''g''\<rparr>] #
     replicate 7 (MFetch 0 None)"

definition waiting_sys :: "sample_db sys" where
  "waiting_sys = the (run_schedule sdk_ref sample_storage sample_cfg wait_moves (sys_init sample_db1))"

text \<open>Block 1, which creates the box in a transaction of its own, and block 2 itself.\<close>

definition block1 :: block where
  "block1 = mk_rblock 1 ''h1'' ''h0'' [\<lparr>tx_TransactionIdentifier = \<lparr>ti_Hash = ''t0''\<rparr>,
              tx_Operations = [mk_created ''g'' ''addr'' ''100'']\<rparr>]"

definition block2 :: block where
  "block2 = mk_rblock 2 ''h2'' ''h1'' [\<lparr>tx_TransactionIdentifier = \<lparr>ti_Hash = ''t1''\<rparr>,
              tx_Operations = []\<rparr>]"

end
