(* ===== verification/Indexer_Props.thy ===== *)
theory Indexer_Props
  imports Indexer_Leave Indexer_Exact Indexer_Samples Converter_Props
begin

text \<open>
  The properties of the concurrent search for coins: what it returns, that the wait table
  is always consistent with the fetchers that use it, whom \<open>BlockSeen\<close> wakes and
  \<open>BlockAdded\<close> aborts, and that a woken fetcher gets away.
\<close>

section \<open>Concrete reachable states\<close>

definition schedule_result :: "move list \<Rightarrow> sample_db sys option" where
  "schedule_result ms = run_schedule sdk_ref sample_storage sample_cfg ms (sys_init sample_db1)"

lemma schedule_reachable:
  "schedule_result ms = Some s \<Longrightarrow> reachable sdk_ref sample_storage sample_cfg s"
  unfolding schedule_result_def by (rule run_schedule_reachable) (auto intro: reachable.start)

text \<open>The result of a schedule that runs, without its (partly functional) value.\<close>

definition runs :: "move list \<Rightarrow> (sample_db sys \<Rightarrow> bool) \<Rightarrow> bool" where
  "runs ms P = (case schedule_result ms of None \<Rightarrow> False | Some s \<Rightarrow> P s)"

lemma runsE:
  assumes "runs ms P"
  obtains s where "schedule_result ms = Some s" and "reachable sdk_ref sample_storage sample_cfg s"
    and "P s"
  using assms schedule_reachable by (auto simp: runs_def split: option.splits)

text \<open>The fetcher's first activation joins, waits, and finds the coin after being woken.\<close>

lemma waiting_runs:
  "runs wait_moves (\<lambda>s. map ft_awaits (sy_fetchers s) =
     [Some ([\<lparr>ic_TxID = ''t1'', ic_InputID = ''g''\<rparr>], 0)])"
  by code_simp

definition wake_moves :: "move list" where
  "wake_moves = wait_moves @ MSeen block1 # MSeen block2 #
     MHandle 0 # MHandle 0 # MHandle 0 # MHandle 0 # replicate 3 (MHandle 1)"

lemma waking_runs:
  "runs wake_moves (\<lambda>s. map ft_awaits (sy_fetchers s) =
       [Some ([\<lparr>ic_TxID = ''t1'', ic_InputID = ''g''\<rparr>], 0)] \<and>
     (case sy_handlers s of [h0, HSeenWake blk] \<Rightarrow> tx_hashes blk = [''t1''] | _ \<Rightarrow> False))"
  by code_simp

definition found_moves :: "move list" where
  "found_moves = wake_moves @ MHandle 1 # replicate 8 (MFetch 0 None)"

definition has_found :: "string \<Rightarrow> fetcher \<Rightarrow> bool" where
  "has_found k f = (case ft_pc f of PcReturn r \<Rightarrow> (case r of Ok m \<Rightarrow> m k \<noteq> None | _ \<Rightarrow> False) | _ \<Rightarrow> False)"

lemma has_found_iff: "has_found k f \<longleftrightarrow> (\<exists>m. ft_pc f = PcReturn (Ok m) \<and> k \<in> dom m)"
  by (auto simp: has_found_def dom_def split: fetch_pc.split go.split)

lemma found_runs:
  "runs found_moves (\<lambda>s. length (sy_fetchers s) = 1 \<and> has_found ''g'' (sy_fetchers s ! 0) \<and>
     map ic_InputID (ft_request (sy_fetchers s ! 0)) = [''g''])"
  by code_simp

section \<open>What findCoins returns\<close>

text \<open>
  C6: However the fetchers and the block handlers interleave, a \<open>findCoins\<close> that returns a
  map returns a coin for every input it was asked for and for no other, and the coin under
  an identifier is the coin of that identifier.
\<close>

theorem findCoins_returns_requested:
  assumes "reachable S A cfg s" and "\<And>db p. st_GetHead A db \<noteq> Panic p" and "reads_ok A coin_is"
    and "f \<in> set (sy_fetchers s)" and "ft_pc f = PcReturn (Ok m)"
  shows "dom m = ic_InputID ` set (ft_request f) \<and> (\<forall>k ac. m k = Some ac \<longrightarrow> coin_is k ac)"
proof -
  have "found_ok coin_is f" using reachable_coins [OF assms(1-3)] assms(4) by blast
  then show ?thesis using assms(5) by (simp add: found_ok_def all_coins_def ids_def)
qed

theorem findCoins_returns_requested_witness:
  "\<exists>s m. schedule_result found_moves = Some s \<and> ft_pc (sy_fetchers s ! 0) = PcReturn (Ok m) \<and>
     dom m = {''g''} \<and> (\<forall>ac. m ''g'' = Some ac \<longrightarrow> coin_is ''g'' ac)"
proof -
  from runsE [OF found_runs] obtain s where
    s: "schedule_result found_moves = Some s" and r: "reachable sdk_ref sample_storage sample_cfg s"
    and c: "length (sy_fetchers s) = 1 \<and> has_found ''g'' (sy_fetchers s ! 0) \<and>
       map ic_InputID (ft_request (sy_fetchers s ! 0)) = [''g'']" .
  from c have one: "length (sy_fetchers s) = 1" and found: "has_found ''g'' (sy_fetchers s ! 0)"
    and req: "map ic_InputID (ft_request (sy_fetchers s ! 0)) = [''g'']"
    by (blast, blast, blast)
  from found obtain m where m: "ft_pc (sy_fetchers s ! 0) = PcReturn (Ok m)"
    unfolding has_found_iff by blast
  have "sy_fetchers s ! 0 \<in> set (sy_fetchers s)" using one by simp
  note found = findCoins_returns_requested [OF r sample_quiet sample_reads this m]
  have "ic_InputID ` set (ft_request (sy_fetchers s ! 0)) = set [''g'']"
    unfolding req [symmetric] by simp
  with found s m show ?thesis by (intro exI [of _ s] exI [of _ m]) auto
qed

section \<open>The wait protocol\<close>

text \<open>
  C5: In every reachable state the wait table's lock is free between atomic sections and,
  for every transaction a fetcher has joined and not yet left, the table has an entry whose
  listeners cover all its uses; so the error \<open>transaction not in waiter\<close> and the return
  with the lock held never happen.
\<close>

theorem waiter_covers_fetchers:
  assumes "reachable S A cfg s" and "\<And>db p. st_GetHead A db \<noteq> Panic p"
  shows "\<not> wt_locked (ix_waiter (sy_ix s)) \<and>
    (\<forall>f \<in> set (sy_fetchers s). \<forall>x \<in> set (ft_waits f).
       \<exists>v. wt_Get (ix_waiter (sy_ix s)) (ic_TxID x) = Some v \<and>
           int (\<Sum>g \<leftarrow> sy_fetchers s. ft_count (ic_TxID x) g) \<le> wte_listeners v)"
proof -
  have ok: "sys_ok s" by (rule reachable_sys_ok [OF assms])
  have "\<exists>v. wt_Get (ix_waiter (sy_ix s)) (ic_TxID x) = Some v \<and>
           int (\<Sum>g \<leftarrow> sy_fetchers s. ft_count (ic_TxID x) g) \<le> wte_listeners v"
    if f: "f \<in> set (sy_fetchers s)" and x: "x \<in> set (ft_waits f)" for f x
  proof -
    obtain v where v: "wt_Get (ix_waiter (sy_ix s)) (ic_TxID x) = Some v"
      using held_entry [OF ok f x] by blast
    have "int (sys_held s (ic_TxID x)) \<le> listeners (ix_waiter (sy_ix s)) (ic_TxID x)"
      using ok by (simp add: sys_ok_def)
    with v show ?thesis by (simp add: listeners_def sys_held_def)
  qed
  with ok show ?thesis by (simp add: sys_ok_def)
qed

theorem waiter_covers_fetchers_witness:
  "\<exists>s v. schedule_result wait_moves = Some s \<and>
     wt_Get (ix_waiter (sy_ix s)) ''t1'' = Some v \<and> 1 \<le> wte_listeners v"
proof -
  from runsE [OF waiting_runs] obtain s where
    s: "schedule_result wait_moves = Some s" and r: "reachable sdk_ref sample_storage sample_cfg s"
    and c: "map ft_awaits (sy_fetchers s) = [Some ([\<lparr>ic_TxID = ''t1'', ic_InputID = ''g''\<rparr>], 0)]" .
  from c obtain f where f: "sy_fetchers s = [f]" and p: "ft_pc f = PcAwait [\<lparr>ic_TxID = ''t1'', ic_InputID = ''g''\<rparr>] 0"
    by (auto simp: map_eq_Cons_conv)
  from waiter_covers_fetchers [OF r sample_quiet] f p
  have "\<exists>v. wt_Get (ix_waiter (sy_ix s)) ''t1'' = Some v \<and> int (ft_count ''t1'' f) \<le> wte_listeners v"
    by (simp add: ft_waits_def)
  moreover have "ft_count ''t1'' f = 1" using p by (simp add: wait_views)
  ultimately show ?thesis using s by auto
qed

section \<open>No leak without errors\<close>

text \<open>
  C14: As long as no search has ended with an error or a panic, the wait table counts exactly
  the waits that are held, and has an entry for a transaction exactly when some fetcher
  waits for it: entries never leak and never vanish early.
\<close>

theorem waiter_counts_exactly:
  assumes "reachable S A cfg s" and "\<And>db p. st_GetHead A db \<noteq> Panic p"
    and "\<And>f. f \<in> set (sy_fetchers s) \<Longrightarrow> \<not> ft_failed f"
  shows "listeners (ix_waiter (sy_ix s)) key = int (\<Sum>f \<leftarrow> sy_fetchers s. ft_count key f) \<and>
    (wt_Get (ix_waiter (sy_ix s)) key \<noteq> None \<longleftrightarrow>
       (\<exists>f \<in> set (sy_fetchers s). key \<in> ic_TxID ` set (ft_waits f)))"
proof -
  have "no_failure s" using assms(3) by (simp add: no_failure_def)
  then have ex: "counts_exact s" using reachable_exact [OF assms(1,2)] by blast
  then have l: "listeners (ix_waiter (sy_ix s)) key = int (\<Sum>f \<leftarrow> sy_fetchers s. ft_count key f)"
    by (simp add: counts_exact_def sys_held_def)
  have "wt_Get (ix_waiter (sy_ix s)) key \<noteq> None \<longleftrightarrow> 0 < listeners (ix_waiter (sy_ix s)) key"
  proof (cases "wt_Get (ix_waiter (sy_ix s)) key")
    case (Some v)
    then have "1 \<le> wte_listeners v" using ex by (simp add: counts_exact_def)
    with Some show ?thesis by (simp add: listeners_def)
  qed (simp add: listeners_def)
  also have "\<dots> \<longleftrightarrow> (\<Sum>f \<leftarrow> sy_fetchers s. ft_count key f) \<noteq> 0"
    unfolding l by linarith
  also have "\<dots> \<longleftrightarrow> (\<exists>f \<in> set (sy_fetchers s). ft_count key f \<noteq> 0)"
    by (simp add: sum_list_eq_0_iff)
  also have "\<dots> \<longleftrightarrow> (\<exists>f \<in> set (sy_fetchers s). key \<in> ic_TxID ` set (ft_waits f))"
    by (simp add: ft_count_def count_list_0_iff)
  finally show ?thesis using l by simp
qed

theorem waiter_counts_exactly_witness:
  "\<exists>s. schedule_result wait_moves = Some s \<and> listeners (ix_waiter (sy_ix s)) ''t1'' = 1 \<and>
     wt_Get (ix_waiter (sy_ix s)) ''t2'' = None"
proof -
  from runsE [OF waiting_runs] obtain s where
    s: "schedule_result wait_moves = Some s" and r: "reachable sdk_ref sample_storage sample_cfg s"
    and c: "map ft_awaits (sy_fetchers s) = [Some ([\<lparr>ic_TxID = ''t1'', ic_InputID = ''g''\<rparr>], 0)]" .
  from c obtain f where f: "sy_fetchers s = [f]" and p: "ft_pc f = PcAwait [\<lparr>ic_TxID = ''t1'', ic_InputID = ''g''\<rparr>] 0"
    by (auto simp: map_eq_Cons_conv)
  have "\<not> ft_failed g" if "g \<in> set (sy_fetchers s)" for g
    using that f p by (simp add: ft_failed_def)
  note ex = waiter_counts_exactly [OF r sample_quiet this]
  from ex [of "''t1''"] have "listeners (ix_waiter (sy_ix s)) ''t1'' = 1"
    using f p by (simp add: wait_views)
  moreover from ex [of "''t2''"] have "wt_Get (ix_waiter (sy_ix s)) ''t2'' = None"
    using f p by (simp add: ft_waits_def)
  ultimately show ?thesis using s by blast
qed

section \<open>Waking\<close>

lemma awaiting_entry:
  assumes "sys_ok s" and "f \<in> set (sy_fetchers s)" and "ft_pc f = PcAwait (x # rest) ch"
  obtains v where "wt_Get (ix_waiter (sy_ix s)) (ic_TxID x) = Some v" and "wte_channel v = ch"
proof -
  have "awaits_ok (ix_waiter (sy_ix s)) f" using assms(1,2) by (simp add: sys_ok_def)
  with assms(3) that show thesis by (auto simp: awaits_ok_def split: option.splits)
qed

text \<open>
  C10: In every reachable state the waking section of \<open>BlockSeen\<close> runs to its end without
  closing a channel twice, marks closed exactly the entries of the block's transactions,
  and afterwards the channel of every fetcher that awaits one of them is closed.
\<close>

theorem BlockSeen_wakes_waiters:
  assumes "reachable S A cfg s" and "\<And>db p. st_GetHead A db \<noteq> Panic p"
    and "k < length (sy_handlers s)" and "sy_handlers s ! k = HSeenWake blk"
  shows "\<exists>i'. handler_step S A (HSeenWake blk) (sy_ix s) = Some (HDone (Ok ()), i') \<and>
    (\<forall>key. wt_Get (ix_waiter i') key =
       map_option (\<lambda>v. if key \<in> set (tx_hashes blk) then v\<lparr>wte_channelClosed := True\<rparr> else v)
         (wt_Get (ix_waiter (sy_ix s)) key)) \<and>
    (\<forall>f \<in> set (sy_fetchers s). \<forall>x rest ch.
       ft_pc f = PcAwait (x # rest) ch \<longrightarrow> ic_TxID x \<in> set (tx_hashes blk) \<longrightarrow> ch \<in> ix_closed i')"
proof -
  have ok: "sys_ok s" by (rule reachable_sys_ok [OF assms(1,2)])
  then obtain i' where i': "BlockSeen_wake blk (sy_ix s) = (Ok (), i')"
      "retagged (wake_entry (set (tx_hashes blk))) (sy_ix s) i'"
    using BlockSeen_wake_ok [of "sy_ix s" blk] by (auto simp: sys_ok_def)
  have "handler_step S A (HSeenWake blk) (sy_ix s) = Some (HDone (Ok ()), i')"
    using ok i'(1) by (simp add: handler_step_def sys_ok_def)
  moreover have "ch \<in> ix_closed i'"
    if "f \<in> set (sy_fetchers s)" "ft_pc f = PcAwait (x # rest) ch" "ic_TxID x \<in> set (tx_hashes blk)"
    for f x rest ch
    using awaiting_entry [OF ok that(1,2)] that(3) i'(2)
    by (auto simp: retagged_def wake_entry_def)
  ultimately show ?thesis
    using i'(2) by (simp add: retagged_def wake_entry_def [abs_def])
qed

theorem BlockSeen_wakes_waiters_witness:
  "\<exists>s f i'. schedule_result wake_moves = Some s \<and> sy_fetchers s = [f] \<and>
     ft_awaits f = Some ([\<lparr>ic_TxID = ''t1'', ic_InputID = ''g''\<rparr>], 0) \<and>
     handler_step sdk_ref sample_storage (sy_handlers s ! 1) (sy_ix s) = Some (HDone (Ok ()), i') \<and>
     0 \<in> ix_closed i'"
proof -
  from runsE [OF waking_runs] obtain s where
    s: "schedule_result wake_moves = Some s" and r: "reachable sdk_ref sample_storage sample_cfg s"
    and c: "map ft_awaits (sy_fetchers s) =
       [Some ([\<lparr>ic_TxID = ''t1'', ic_InputID = ''g''\<rparr>], 0)] \<and>
     (case sy_handlers s of [h0, HSeenWake blk] \<Rightarrow> tx_hashes blk = [''t1''] | _ \<Rightarrow> False)" .
  from c obtain f where f: "sy_fetchers s = [f]"
    and p: "ft_pc f = PcAwait [\<lparr>ic_TxID = ''t1'', ic_InputID = ''g''\<rparr>] 0"
    by (auto simp: map_eq_Cons_conv)
  from c obtain blk where h: "1 < length (sy_handlers s)" "sy_handlers s ! 1 = HSeenWake blk"
      "tx_hashes blk = [''t1'']"
    by (auto simp: neq_Nil_conv split: list.splits handler.splits)
  from BlockSeen_wakes_waiters [OF r sample_quiet h(1,2)] obtain i' where
    "handler_step sdk_ref sample_storage (HSeenWake blk) (sy_ix s) = Some (HDone (Ok ()), i')"
    "\<forall>f \<in> set (sy_fetchers s). \<forall>x rest ch.
       ft_pc f = PcAwait (x # rest) ch \<longrightarrow> ic_TxID x \<in> set (tx_hashes blk) \<longrightarrow> ch \<in> ix_closed i'"
    by blast
  with s f p h show ?thesis by auto
qed

section \<open>Aborting\<close>

text \<open>
  C11: In every reachable state the aborting section of \<open>BlockAdded\<close> runs to its end without
  closing a channel twice; it aborts exactly the open waits whose earliest block is the one
  after the added block, and leaves every other entry as it was; afterwards the channel of
  every fetcher that awaits an aborted entry is closed.
\<close>

theorem BlockAdded_aborts_stale_waits:
  assumes "reachable S A cfg s" and "\<And>db p. st_GetHead A db \<noteq> Panic p"
    and "k < length (sy_handlers s)" and "sy_handlers s ! k = HAddAbort blk"
  shows "\<exists>i'. handler_step S A (HAddAbort blk) (sy_ix s) = Some (HDone (Ok ()), i') \<and>
    (\<forall>key. wt_Get (ix_waiter i') key =
       map_option (\<lambda>v. if wte_earliestBlock v = bi_Index (bk_BlockIdentifier blk) + 1 \<and>
                          \<not> wte_channelClosed v
                       then v\<lparr>wte_channelClosed := True, wte_aborted := True\<rparr> else v)
         (wt_Get (ix_waiter (sy_ix s)) key)) \<and>
    (\<forall>f \<in> set (sy_fetchers s). \<forall>x rest ch.
       ft_pc f = PcAwait (x # rest) ch \<longrightarrow> is_aborted (ix_waiter i') (ic_TxID x) \<longrightarrow>
       ch \<in> ix_closed i')"
proof -
  have ok: "sys_ok s" by (rule reachable_sys_ok [OF assms(1,2)])
  then obtain i' where i': "BlockAdded_abort blk (sy_ix s) = (Ok (), i')" "chan_ok i'"
      "retagged (abort_stale blk UNIV) (sy_ix s) i'"
    using BlockAdded_abort_ok [of "sy_ix s" blk] by (auto simp: sys_ok_def)
  have "handler_step S A (HAddAbort blk) (sy_ix s) = Some (HDone (Ok ()), i')"
    using ok i'(1) by (simp add: handler_step_def sys_ok_def)
  moreover have "ch \<in> ix_closed i'"
    if f: "f \<in> set (sy_fetchers s)" "ft_pc f = PcAwait (x # rest) ch"
      and ab: "is_aborted (ix_waiter i') (ic_TxID x)" for f x rest ch
  proof -
    obtain v where v: "wt_Get (ix_waiter (sy_ix s)) (ic_TxID x) = Some v" "wte_channel v = ch"
      using awaiting_entry [OF ok f] by blast
    obtain w where w: "wt_Get (ix_waiter i') (ic_TxID x) = Some w" "wte_channel w = ch"
      using v i'(3) by (auto simp: retagged_def)
    with ab have "wte_aborted w" by (simp add: is_aborted_def)
    then show ?thesis using chan_ok_aborted [OF i'(2) w(1)] chan_ok_closed [OF i'(2) w(1)] w(2) by simp
  qed
  ultimately show ?thesis
    using i'(3) by (simp add: retagged_def abort_stale_def [abs_def] stale_def [abs_def])
qed

definition abort_moves :: "move list" where
  "abort_moves = wait_moves @ MAdded block1 # replicate 3 (MHandle 0)"

lemma abort_runs:
  "runs abort_moves (\<lambda>s. map ft_awaits (sy_fetchers s) =
       [Some ([\<lparr>ic_TxID = ''t1'', ic_InputID = ''g''\<rparr>], 0)] \<and>
     (case sy_handlers s of [HAddAbort blk] \<Rightarrow> bi_Index (bk_BlockIdentifier blk) = 1 | _ \<Rightarrow> False) \<and>
     (case wt_Get (ix_waiter (sy_ix s)) ''t1'' of None \<Rightarrow> False
      | Some v \<Rightarrow> wte_earliestBlock v = 2 \<and> \<not> wte_channelClosed v))"
  by code_simp

theorem BlockAdded_aborts_stale_waits_witness:
  "\<exists>s f i'. schedule_result abort_moves = Some s \<and> sy_fetchers s = [f] \<and>
     ft_awaits f = Some ([\<lparr>ic_TxID = ''t1'', ic_InputID = ''g''\<rparr>], 0) \<and>
     handler_step sdk_ref sample_storage (sy_handlers s ! 0) (sy_ix s) = Some (HDone (Ok ()), i') \<and>
     is_aborted (ix_waiter i') ''t1'' \<and> 0 \<in> ix_closed i'"
proof -
  from runsE [OF abort_runs] obtain s where
    s: "schedule_result abort_moves = Some s" and r: "reachable sdk_ref sample_storage sample_cfg s"
    and c: "map ft_awaits (sy_fetchers s) =
       [Some ([\<lparr>ic_TxID = ''t1'', ic_InputID = ''g''\<rparr>], 0)] \<and>
     (case sy_handlers s of [HAddAbort blk] \<Rightarrow> bi_Index (bk_BlockIdentifier blk) = 1 | _ \<Rightarrow> False) \<and>
     (case wt_Get (ix_waiter (sy_ix s)) ''t1'' of None \<Rightarrow> False
      | Some v \<Rightarrow> wte_earliestBlock v = 2 \<and> \<not> wte_channelClosed v)" .
  from c obtain f where f: "sy_fetchers s = [f]"
    and p: "ft_pc f = PcAwait [\<lparr>ic_TxID = ''t1'', ic_InputID = ''g''\<rparr>] 0"
    by (auto simp: map_eq_Cons_conv)
  from c obtain blk where h: "0 < length (sy_handlers s)" "sy_handlers s ! 0 = HAddAbort blk"
      "bi_Index (bk_BlockIdentifier blk) = 1"
    by (auto simp: neq_Nil_conv split: list.splits handler.splits)
  from c obtain v where v: "wt_Get (ix_waiter (sy_ix s)) ''t1'' = Some v"
      "wte_earliestBlock v = 2" "\<not> wte_channelClosed v" by (auto split: option.splits)
  from BlockAdded_aborts_stale_waits [OF r sample_quiet h(1,2)] obtain i' where
    i': "handler_step sdk_ref sample_storage (HAddAbort blk) (sy_ix s) = Some (HDone (Ok ()), i')"
    "\<forall>key. wt_Get (ix_waiter i') key =
       map_option (\<lambda>v. if wte_earliestBlock v = bi_Index (bk_BlockIdentifier blk) + 1 \<and>
                          \<not> wte_channelClosed v
                       then v\<lparr>wte_channelClosed := True, wte_aborted := True\<rparr> else v)
         (wt_Get (ix_waiter (sy_ix s)) key)"
    "\<forall>f \<in> set (sy_fetchers s). \<forall>x rest ch.
       ft_pc f = PcAwait (x # rest) ch \<longrightarrow> is_aborted (ix_waiter i') (ic_TxID x) \<longrightarrow> ch \<in> ix_closed i'"
    by blast
  have "is_aborted (ix_waiter i') ''t1''" using i'(2) v h(3) by (simp add: is_aborted_def)
  moreover from this i'(3) f p have "0 \<in> ix_closed i'" by auto
  ultimately show ?thesis using s f p h(2) i'(1) by auto
qed

section \<open>Getting away\<close>

text \<open>
  C13: A fetcher that has joined waits \<open>ws\<close> whose channels are all closed leaves them in
  three steps each plus one, alone and without blocking: it gives back exactly one listener
  per wait, and ends with \<open>ErrOrphanHead\<close> if any of the waits was aborted, else starts the
  search again for the remaining coins.
\<close>

theorem woken_fetcher_leaves:
  assumes "reachable S A cfg s" and "\<And>db p. st_GetHead A db \<noteq> Panic p"
    and "f \<in> set (sy_fetchers s)" and "ft_pc f = PcGet ws"
    and "\<And>x. x \<in> set ws \<Longrightarrow> is_closed (ix_waiter (sy_ix s)) (ic_TxID x)"
  shows "\<exists>f' i'. run_fetcher_alone (3 * length ws + 1) S A cfg f (sy_ix s) = (f', i') \<and>
    (\<forall>key. listeners (ix_waiter i') key =
       listeners (ix_waiter (sy_ix s)) key - int (count_list (map ic_TxID ws) key)) \<and>
    (if ft_abort f \<or> (\<exists>x \<in> set ws. is_aborted (ix_waiter (sy_ix s)) (ic_TxID x))
     then \<exists>e. ft_pc f' = PcReturn (Err e) \<and> errors_Is e ErrOrphanHead
     else ft_pc f' = PcEnter (ft_remaining f))"
proof -
  have ok: "sys_ok s" by (rule reachable_sys_ok [OF assms(1,2)])
  have "int (count_list (map ic_TxID ws) key) \<le> listeners (ix_waiter (sy_ix s)) key" for key
    using count_le_listeners [OF ok assms(3), of key] assms(4) by (simp add: wait_views)
  then show ?thesis
    using leave_all [OF _ _ assms(4) _ assms(5), of S A cfg] ok unfolding sys_ok_def all_left_def by blast
qed

text \<open>A fetcher about to leave: it joined, and block 1 was added before it looked again.\<close>

definition leave_moves :: "move list" where
  "leave_moves = MBlock (Some sample_block) [\<lparr>ic_TxID = ''t1'', ic_InputID = ''g''\<rparr>] #
     replicate 6 (MFetch 0 None) @ MAdded block1 # replicate 4 (MHandle 0)"

lemma leave_runs:
  "runs leave_moves (\<lambda>s. length (sy_fetchers s) = 1 \<and>
     (case ft_pc (sy_fetchers s ! 0) of PcGet ws \<Rightarrow> map ic_TxID ws = [''t1''] | _ \<Rightarrow> False) \<and>
     is_closed (ix_waiter (sy_ix s)) ''t1'' \<and> is_aborted (ix_waiter (sy_ix s)) ''t1'' \<and>
     listeners (ix_waiter (sy_ix s)) ''t1'' = 1)"
  by code_simp

theorem woken_fetcher_leaves_witness:
  "\<exists>s f' i' e. schedule_result leave_moves = Some s \<and>
     run_fetcher_alone 4 sdk_ref sample_storage sample_cfg (sy_fetchers s ! 0) (sy_ix s) = (f', i') \<and>
     ft_pc f' = PcReturn (Err e) \<and> errors_Is e ErrOrphanHead \<and> listeners (ix_waiter i') ''t1'' = 0"
proof -
  from runsE [OF leave_runs] obtain s where
    s: "schedule_result leave_moves = Some s" and r: "reachable sdk_ref sample_storage sample_cfg s"
    and c: "length (sy_fetchers s) = 1 \<and>
     (case ft_pc (sy_fetchers s ! 0) of PcGet ws \<Rightarrow> map ic_TxID ws = [''t1''] | _ \<Rightarrow> False) \<and>
     is_closed (ix_waiter (sy_ix s)) ''t1'' \<and> is_aborted (ix_waiter (sy_ix s)) ''t1'' \<and>
     listeners (ix_waiter (sy_ix s)) ''t1'' = 1" .
  let ?f = "sy_fetchers s ! 0"
  from c have f: "?f \<in> set (sy_fetchers s)" by simp
  from c obtain ws where ws: "ft_pc ?f = PcGet ws" "map ic_TxID ws = [''t1'']"
    by (auto split: fetch_pc.splits)
  then obtain x where x: "ws = [x]" "ic_TxID x = ''t1''" by (auto simp: map_eq_Cons_conv)
  have "is_closed (ix_waiter (sy_ix s)) (ic_TxID y)" if "y \<in> set ws" for y
    using that x c by simp
  from woken_fetcher_leaves [OF r sample_quiet f ws(1) this] x c obtain f' i' where
    "run_fetcher_alone (3 * length ws + 1) sdk_ref sample_storage sample_cfg ?f (sy_ix s) = (f', i')"
    "listeners (ix_waiter i') ''t1'' = 0" "\<exists>e. ft_pc f' = PcReturn (Err e) \<and> errors_Is e ErrOrphanHead"
    by auto
  with s x(1) show ?thesis by (auto simp: numeral_eq_Suc)
qed

section \<open>From the search to the block\<close>


text \<open>The instance: the sample block's search finds the coin block 1 created.\<close>

definition has_coin :: "string \<Rightarrow> string \<Rightarrow> fetcher \<Rightarrow> bool" where
  "has_coin k v f =
     (case ft_pc f of
        PcReturn r \<Rightarrow>
          (case r of
             Ok m \<Rightarrow> (case m k of None \<Rightarrow> False
                     | Some ac \<Rightarrow> (case co_Amount (ac_Coin ac) of None \<Rightarrow> False | Some a \<Rightarrow> am_Value a = v))
           | _ \<Rightarrow> False)
      | _ \<Rightarrow> False)"

lemma has_coin_iff:
  "has_coin k v f \<longleftrightarrow> (\<exists>m ac a. ft_pc f = PcReturn (Ok m) \<and> m k = Some ac \<and>
     co_Amount (ac_Coin ac) = Some a \<and> am_Value a = v)"
  by (auto simp: has_coin_def split: fetch_pc.splits go.splits option.splits)

lemma found_coin_runs:
  "runs found_moves (\<lambda>s. length (sy_fetchers s) = 1 \<and> has_coin ''g'' ''100'' (sy_fetchers s ! 0) \<and>
     ft_request (sy_fetchers s ! 0) = [\<lparr>ic_TxID = ''t1'', ic_InputID = ''g''\<rparr>])"
  by code_simp

lemma found_block:
  assumes "schedule_result found_moves = Some s"
  shows "map ft_block (sy_fetchers s) = [Some sample_block]"
proof -
  obtain t ms where "do_move sdk_ref sample_storage sample_cfg (MBlock (Some sample_block)
        [\<lparr>ic_TxID = ''t1'', ic_InputID = ''g''\<rparr>]) (sys_init sample_db1) = Some t"
    and ms: "run_schedule sdk_ref sample_storage sample_cfg ms t = Some s"
      "\<And>b cs. MBlock b cs \<notin> set ms"
    using assms unfolding schedule_result_def found_moves_def wake_moves_def wait_moves_def
      append_Cons run_schedule.simps
    by (auto split: option.splits)
  then have "map ft_block (sy_fetchers t) = [Some sample_block]"
    by (auto simp: do_move_def sys_init_def new_fetcher_def)
  with run_schedule_block [OF ms] show ?thesis by simp
qed


end
