(* ===== verification/Indexer_Handlers.thy ===== *)
theory Indexer_Handlers
  imports Indexer_Leave Indexer_Samples Converter_Facts "HOL-Library.Multiset"
begin

text \<open>
  The properties of the handlers and of \<open>Block\<close> as single calls: the map order of the
  aborting loop, the life of a coin in the cache, the negation of inputs, the effects and
  error paths of \<open>BlockSeen\<close>, the orphan check, the retry loop, and the bootstrapping of
  balances.
\<close>

section \<open>The order of the wait table\<close>

text \<open>
  C24: The aborting loop of \<open>BlockAdded\<close> ranges over a Go map, whose order is unspecified:
  whatever the order, it ends normally and leaves the same entries and the same closed
  channels.
\<close>

theorem abort_loop_order:
  assumes "chan_ok i" and "mset es = mset (wt_table (ix_waiter i))"
  shows "\<exists>i1 i2. sfor (abort_entry blk) es i = (Ok (), i1) \<and>
    sfor (abort_entry blk) (wt_table (ix_waiter i)) i = (Ok (), i2) \<and>
    wt_Get (ix_waiter i1) = wt_Get (ix_waiter i2) \<and> ix_closed i1 = ix_closed i2"
proof -
  let ?t = "wt_table (ix_waiter i)"
  have wf: "wt_wf (ix_waiter i)" by (rule chan_ok_wf [OF assms(1)])
  then have d: "distinct (map fst ?t)" by (simp add: wt_wf_def)
  have set: "set es = set ?t" using assms(2) by (rule mset_eq_setD)
  have "mset (map fst es) = mset (map fst ?t)" using assms(2) by simp
  then have d': "distinct (map fst es)" using d by (rule mset_eq_imp_distinct_iff [THEN iffD2])
  have cur: "wt_Get (ix_waiter i) k = Some v" if "(k, v) \<in> set ?t" for k v
    using that wf by (simp add: wt_Get_in_table)
  obtain i1 where 1: "sfor (abort_entry blk) es i = (Ok (), i1)"
      "retagged (abort_stale blk (fst ` set es)) i i1"
    using abort_entries_ok [OF assms(1) d'] cur unfolding set by blast
  obtain i2 where 2: "sfor (abort_entry blk) ?t i = (Ok (), i2)"
      "retagged (abort_stale blk (fst ` set ?t)) i i2"
    using abort_entries_ok [OF assms(1) d cur] by blast
  from 1(2) 2(2) have "wt_Get (ix_waiter i1) = wt_Get (ix_waiter i2) \<and> ix_closed i1 = ix_closed i2"
    by (simp add: retagged_def set fun_eq_iff)
  with 1(1) 2(1) show ?thesis by blast
qed

definition two_waits :: "sample_db indexer" where
  "two_waits = (InitIndexer sample_db1)
     \<lparr>ix_waiter := join_wait ''y'' 3 1 (join_wait ''x'' 2 0 newWaitTable), ix_nextChan := 2\<rparr>"

lemma two_waits_ok: "chan_ok two_waits"
proof -
  let ?i = "InitIndexer sample_db1"
  let ?j = "?i\<lparr>ix_waiter := join_wait ''x'' 2 (ix_nextChan ?i) (ix_waiter ?i),
               ix_nextChan := Suc (ix_nextChan ?i)\<rparr>"
  have "chan_ok ?j" by (rule chan_ok_join [OF chan_ok_init])
  then have "chan_ok (?j\<lparr>ix_waiter := join_wait ''y'' 3 (ix_nextChan ?j) (ix_waiter ?j),
               ix_nextChan := Suc (ix_nextChan ?j)\<rparr>)" by (rule chan_ok_join)
  moreover have "ix_nextChan ?i = 0" "ix_waiter ?i = newWaitTable" by (simp_all add: InitIndexer_def)
  ultimately show ?thesis by (simp add: two_waits_def numeral_2_eq_2)
qed

theorem abort_loop_order_witness:
  "length (wt_table (ix_waiter two_waits)) = 2 \<and>
   (\<exists>i1 i2. sfor (abort_entry block1) (rev (wt_table (ix_waiter two_waits))) two_waits = (Ok (), i1) \<and>
      sfor (abort_entry block1) (wt_table (ix_waiter two_waits)) two_waits = (Ok (), i2) \<and>
      wt_Get (ix_waiter i1) = wt_Get (ix_waiter i2))"
proof -
  have "mset (rev (wt_table (ix_waiter two_waits))) = mset (wt_table (ix_waiter two_waits))" by simp
  moreover have "length (wt_table (ix_waiter two_waits)) = 2" by code_simp
  ultimately show ?thesis using abort_loop_order [OF two_waits_ok, of _ block1] by blast
qed

section \<open>Negating the inputs\<close>

definition is_spent :: "operation \<Rightarrow> bool" where
  "is_spent op = (case op_CoinChange op of None \<Rightarrow> False | Some cc \<Rightarrow> cc_CoinAction cc = CoinSpent)"

text \<open>An operation \<open>ensureNegativeValueInputs\<close> can process.\<close>

definition ensurable :: "operation \<Rightarrow> bool" where
  "ensurable op \<longleftrightarrow> op_CoinChange op \<noteq> None \<and> (is_spent op \<longrightarrow> op_value op \<noteq> None)"

definition negated_op :: "operation \<Rightarrow> operation" where
  "negated_op op =
     (case op_Amount op of
        None \<Rightarrow> op
      | Some am \<Rightarrow>
          (case SetString (am_Value am) of
             None \<Rightarrow> op
           | Some z \<Rightarrow> if is_spent op \<and> 0 < z
                       then op\<lparr>op_Amount := Some (am\<lparr>am_Value := show_int (- z)\<rparr>)\<rparr> else op))"

lemma ensure_op_Ok:
  assumes "negates S" and "ensurable op"
  shows "ensure_op S op = Ok (negated_op op)"
proof -
  obtain cc where cc: "op_CoinChange op = Some cc" using assms(2) by (auto simp: ensurable_def)
  show ?thesis
  proof (cases "is_spent op")
    case False
    then have "negated_op op = op" by (simp add: negated_op_def split: option.split)
    with False cc show ?thesis by (simp add: ensure_op_def is_spent_def)
  next
    case True
    with assms(2) obtain am z where am: "op_Amount op = Some am" "SetString (am_Value am) = Some z"
      by (auto simp: ensurable_def op_value_def bind_eq_Some_conv)
    with True cc show ?thesis
      by (auto simp: ensure_op_def is_spent_def negated_op_def NegateValue_Some [OF assms(1)] sgn_if)
  qed
qed

lemma ensure_op_not_ok: "\<not> ensurable op \<Longrightarrow> \<not> is_ok (ensure_op S op)"
  by (auto simp: ensure_op_def ensurable_def is_spent_def op_value_def is_ok_iff
      split: option.splits if_splits)

lemma ensure_op_is_ok: "negates S \<Longrightarrow> is_ok (ensure_op S op) \<longleftrightarrow> ensurable op"
  using ensure_op_not_ok ensure_op_Ok by (metis is_ok.simps(1))

definition negated_block :: "block \<Rightarrow> block" where
  "negated_block blk =
     blk\<lparr>bk_Transactions := map (\<lambda>tx. tx\<lparr>tx_Operations := map negated_op (tx_Operations tx)\<rparr>)
           (bk_Transactions blk)\<rparr>"

lemma gmapM_is_ok_iff: "is_ok (gmapM f xs) \<longleftrightarrow> (\<forall>x \<in> set xs. is_ok (f x))"
proof (induction xs)
  case (Cons x xs)
  then show ?case by (cases "f x"; cases "gmapM f xs") auto
qed simp

lemma ensure_tx:
  assumes "negates S" and "list_all ensurable ops"
  shows "gmapM (ensure_op S) ops = Ok (map negated_op ops)"
  using assms by (intro gmapM_total) (simp add: ensure_op_Ok list_all_iff)

lemma ensure_block:
  assumes "negates S" and "\<forall>tx \<in> set (bk_Transactions blk). list_all ensurable (tx_Operations tx)"
  shows "ensureNegativeValueInputs S blk = Ok (negated_block blk)"
proof -
  have "gmapM (\<lambda>tx. gbind (gmapM (ensure_op S) (tx_Operations tx))
             (\<lambda>ops. Ok (tx\<lparr>tx_Operations := ops\<rparr>))) (bk_Transactions blk) =
        Ok (map (\<lambda>tx. tx\<lparr>tx_Operations := map negated_op (tx_Operations tx)\<rparr>) (bk_Transactions blk))"
    using assms by (intro gmapM_total) (simp add: ensure_tx)
  then show ?thesis by (simp add: ensureNegativeValueInputs_def negated_block_def)
qed

lemma ensure_block_is_ok:
  assumes "negates S"
  shows "is_ok (ensureNegativeValueInputs S blk) \<longleftrightarrow>
    (\<forall>tx \<in> set (bk_Transactions blk). list_all ensurable (tx_Operations tx))" (is "?l \<longleftrightarrow> ?r")
proof
  let ?body = "\<lambda>tx. gbind (gmapM (ensure_op S) (tx_Operations tx))
             (\<lambda>ops. Ok (tx\<lparr>tx_Operations := ops\<rparr>))"
  have body: "is_ok (?body tx) \<longleftrightarrow> list_all ensurable (tx_Operations tx)" for tx
  proof -
    have "is_ok (?body tx) = is_ok (gmapM (ensure_op S) (tx_Operations tx))"
      by (cases "gmapM (ensure_op S) (tx_Operations tx)") simp_all
    then show ?thesis by (simp only: gmapM_is_ok_iff ensure_op_is_ok [OF assms] list_all_iff)
  qed
  assume ?l
  then have "is_ok (gmapM ?body (bk_Transactions blk))"
    by (cases "gmapM ?body (bk_Transactions blk)") (simp_all add: ensureNegativeValueInputs_def)
  then show ?r unfolding gmapM_is_ok_iff body .
qed (simp add: ensure_block [OF assms])

lemma negated_op_simps [simp]:
  "op_CoinChange (negated_op op) = op_CoinChange op" "op_Account (negated_op op) = op_Account op"
  "\<not> is_spent op \<Longrightarrow> negated_op op = op"
  by (simp_all add: negated_op_def split: option.split)

lemma list_all2_map_self: "(\<And>x. x \<in> set xs \<Longrightarrow> P x (f x)) \<Longrightarrow> list_all2 P xs (map f xs)"
  by (induction xs) simp_all

lemma negated_op_value: "is_spent op \<Longrightarrow> op_value op = Some z \<Longrightarrow> op_value (negated_op op) = Some (- \<bar>z\<bar>)"
  by (auto simp: negated_op_def op_value_def bind_eq_Some_conv)

text \<open>
  C8: \<open>ensureNegativeValueInputs\<close> succeeds exactly when every operation has a coin change
  and every spending one an integer amount (an operation without coin change is a nil
  dereference, not skipped); then every spending operation carries minus the absolute value
  it had, and every other operation is unchanged.
\<close>

theorem ensureNegativeValueInputs_spec:
  assumes "negates S"
  shows "(is_ok (ensureNegativeValueInputs S blk) \<longleftrightarrow>
      (\<forall>op \<in> set (block_operations blk). op_CoinChange op \<noteq> None \<and> (is_spent op \<longrightarrow> op_value op \<noteq> None))) \<and>
    (\<forall>blk'. ensureNegativeValueInputs S blk = Ok blk' \<longrightarrow>
       bk_BlockIdentifier blk' = bk_BlockIdentifier blk \<and>
       list_all2 (\<lambda>op op'. if is_spent op
                           then op_CoinChange op' = op_CoinChange op \<and>
                                (\<exists>z. op_value op = Some z \<and> op_value op' = Some (- \<bar>z\<bar>))
                           else op' = op)
         (block_operations blk) (block_operations blk'))"
proof -
  have all: "(\<forall>tx \<in> set (bk_Transactions blk). list_all ensurable (tx_Operations tx)) \<longleftrightarrow>
      (\<forall>op \<in> set (block_operations blk). ensurable op)"
    by (auto simp: block_operations_def list_all_iff)
  have ops: "block_operations (negated_block blk) = map negated_op (block_operations blk)"
    by (simp add: block_operations_def negated_block_def map_concat o_def)
  have effect: "bk_BlockIdentifier blk' = bk_BlockIdentifier blk \<and>
      list_all2 (\<lambda>op op'. if is_spent op
                           then op_CoinChange op' = op_CoinChange op \<and>
                                (\<exists>z. op_value op = Some z \<and> op_value op' = Some (- \<bar>z\<bar>))
                           else op' = op)
         (block_operations blk) (block_operations blk')"
    if e: "ensureNegativeValueInputs S blk = Ok blk'" for blk'
  proof -
    have en: "\<forall>op \<in> set (block_operations blk). ensurable op"
      using ensure_block_is_ok [OF assms, of blk] e all by simp
    then have "blk' = negated_block blk" using ensure_block [OF assms, of blk] all e by simp
    then have "bk_BlockIdentifier blk' = bk_BlockIdentifier blk"
      and blk': "block_operations blk' = map negated_op (block_operations blk)"
      by (simp_all only: ops) (simp add: negated_block_def)
    moreover have "list_all2 (\<lambda>op op'. if is_spent op
                           then op_CoinChange op' = op_CoinChange op \<and>
                                (\<exists>z. op_value op = Some z \<and> op_value op' = Some (- \<bar>z\<bar>))
                           else op' = op)
         (block_operations blk) (map negated_op (block_operations blk))"
    proof (rule list_all2_map_self)
      fix op assume "op \<in> set (block_operations blk)"
      with en have "is_spent op \<Longrightarrow> \<exists>z. op_value op = Some z" by (auto simp: ensurable_def)
      then show "if is_spent op
          then op_CoinChange (negated_op op) = op_CoinChange op \<and>
               (\<exists>z. op_value op = Some z \<and> op_value (negated_op op) = Some (- \<bar>z\<bar>))
          else negated_op op = op"
        using negated_op_value [of op] by auto
    qed
    ultimately show ?thesis by (simp only: blk')
  qed
  have "is_ok (ensureNegativeValueInputs S blk) \<longleftrightarrow>
      (\<forall>op \<in> set (block_operations blk). op_CoinChange op \<noteq> None \<and> (is_spent op \<longrightarrow> op_value op \<noteq> None))"
    by (simp only: ensure_block_is_ok [OF assms] all ensurable_def)
  with effect show ?thesis by (intro conjI allI impI) (assumption, blast+)
qed

theorem ensureNegativeValueInputs_spec_witness:
  "is_ok (ensureNegativeValueInputs sdk_ref (mk_rblock 2 ''h2'' ''h1''
     [\<lparr>tx_TransactionIdentifier = \<lparr>ti_Hash = ''t''\<rparr>, tx_Operations = [mk_spent ''g'' ''a'' ''7'']\<rparr>])) \<and>
   \<not> is_ok (ensureNegativeValueInputs sdk_ref (mk_rblock 2 ''h2'' ''h1''
     [\<lparr>tx_TransactionIdentifier = \<lparr>ti_Hash = ''t''\<rparr>,
       tx_Operations = [(mk_spent ''g'' ''a'' ''7'')\<lparr>op_CoinChange := None\<rparr>]\<rparr>]))"
  using ensureNegativeValueInputs_spec [OF sdk_ref_ok(1)]
  by (simp add: block_operations_def mk_rblock_def mk_spent_def mk_created_def op_value_def
      SetString_def read_nat_def digit_val_def)

section \<open>A coin's life in the cache\<close>

definition created_in :: "operation list \<Rightarrow> string set" where
  "created_in ops =
     {k. \<exists>op cc. op \<in> set ops \<and> op_CoinChange op = Some cc \<and> cc_CoinAction cc = CoinCreated \<and>
                 k = ci_Identifier (cc_CoinIdentifier cc)}"

lemma foldl_cache_op:
  "foldl cache_op m ops =
     foldl (\<lambda>m kv. cache_put m (fst kv) (snd kv)) m (List.map_filter created_coin ops)"
  by (induction ops arbitrary: m) (auto simp: cache_op_def List.map_filter_simps split: option.split)

lemma foldl_uncache_op:
  "foldl uncache_op m ops = foldl cache_delete m (map fst (List.map_filter created_coin ops))"
  by (induction ops arbitrary: m) (auto simp: uncache_op_def List.map_filter_simps split: option.split)

lemma created_in_filter: "fst ` set (List.map_filter created_coin ops) = created_in ops"
  by (fastforce simp: created_in_def created_coin_def List.map_filter_def image_iff
      split: option.splits if_splits)

lemma created_in_negated [simp]: "created_in (map negated_op ops) = created_in ops"
  by (auto simp: created_in_def)

lemma block_operations_negated: "block_operations (negated_block blk) = map negated_op (block_operations blk)"
  by (simp add: block_operations_def negated_block_def map_concat o_def)

text \<open>
  C25: Coins enter the cache when a block is seen and leave it when the block, with its
  inputs negated, is added: after both, the cache has no coin the block creates and is
  otherwise what it was.
\<close>

theorem seen_added_cache:
  assumes "negates S" and "ensureNegativeValueInputs S blk = Ok blk'"
  shows "ix_coinCache (snd (BlockAdded_uncache blk' (snd (BlockSeen_cache blk i)))) =
    (\<lambda>k. if k \<in> created_in (block_operations blk) then None else ix_coinCache i k)"
proof -
  have "blk' = negated_block blk"
    using assms ensure_block_is_ok [OF assms(1), of blk] ensure_block [OF assms(1), of blk] by simp
  then have "fst ` set (List.map_filter created_coin (block_operations blk')) =
      created_in (block_operations blk)"
    by (simp add: created_in_filter block_operations_negated)
  then show ?thesis
    using cc.get_del_after_put [of "map fst (List.map_filter created_coin (block_operations blk'))"
        "List.map_filter created_coin (block_operations blk)" "ix_coinCache i"]
    by (simp add: BlockAdded_uncache_def BlockSeen_cache_def foldl_cache_op foldl_uncache_op
        created_in_filter fun_eq_iff)
qed

theorem seen_added_cache_witness:
  "ix_coinCache (snd (BlockAdded_uncache (negated_block block1)
     (snd (BlockSeen_cache block1 (InitIndexer sample_db1))))) = Map.empty \<and>
   ix_coinCache (snd (BlockSeen_cache block1 (InitIndexer sample_db1))) ''g'' \<noteq> None"
proof -
  have "ensureNegativeValueInputs sdk_ref block1 = Ok (negated_block block1)"
    by (rule ensure_block)
      (simp_all add: block1_def mk_rblock_def mk_created_def ensurable_def is_spent_def)
  from seen_added_cache [OF sdk_ref_ok(1) this, of "InitIndexer sample_db1"]
  have "ix_coinCache (snd (BlockAdded_uncache (negated_block block1)
     (snd (BlockSeen_cache block1 (InitIndexer sample_db1))))) = Map.empty"
    by (simp add: InitIndexer_def fun_eq_iff)
  moreover have "ix_coinCache (snd (BlockSeen_cache block1 (InitIndexer sample_db1))) ''g'' \<noteq> None"
    by (simp add: BlockSeen_cache_def block1_def mk_rblock_def block_operations_def cache_op_def
        created_coin_def mk_created_def cache_put_def)
  ultimately show ?thesis by blast
qed

section \<open>BlockSeen as one call\<close>

text \<open>
  With the semaphore acquired, \<open>BlockSeen\<close> stores the block, counts it, caches the coins
  it creates and wakes the waits for its transactions. When the storage fails the wrapped
  error is returned and nobody is woken, but the counter and the cache have changed.
\<close>

theorem BlockSeen_effect:
  assumes "chan_ok i" and "\<not> wt_locked (ix_waiter i)"
  shows "case st_SeeBlock A blk (ix_db i) of
      (Ok _, db') \<Rightarrow> \<exists>i'. BlockSeen A (Ok ()) blk i = (Ok (), i') \<and>
        ix_db i' = db' \<and> ix_seen i' = ix_seen i + 1 \<and>
        ix_coinCache i' = foldl cache_op (ix_coinCache i) (block_operations blk) \<and>
        \<not> wt_locked (ix_waiter i') \<and>
        wt_Get (ix_waiter i') = (\<lambda>k. map_option (wake_entry (set (tx_hashes blk)) k) (wt_Get (ix_waiter i) k))
    | (Err e, db') \<Rightarrow> BlockSeen A (Ok ()) blk i =
        (Err (Wrapf [] e ('': unable to encounter block to storage '' @ id_text (bk_BlockIdentifier blk))),
         i\<lparr>ix_coinCache := foldl cache_op (ix_coinCache i) (block_operations blk),
           ix_seen := ix_seen i + 1, ix_db := db'\<rparr>)
    | (Panic p, db') \<Rightarrow> fst (BlockSeen A (Ok ()) blk i) = Panic p"
proof -
  let ?j = "i\<lparr>ix_coinCache := foldl cache_op (ix_coinCache i) (block_operations blk),
           ix_seen := ix_seen i + 1\<rparr>"
  have start: "BlockSeen A (Ok ()) blk i =
      sbind (BlockSeen_store A blk) (\<lambda>_. BlockSeen_wake blk) ?j"
    by (simp add: BlockSeen_def BlockSeen_cache_def BlockSeen_count_def)
  show ?thesis
  proof (cases "st_SeeBlock A blk (ix_db i)" rule: go_cases_pair)
    case (Ok u db')
    let ?l = "?j\<lparr>ix_db := db'\<rparr>"
    have st: "BlockSeen_store A blk ?j = (Ok u, ?l)"
      using Ok by (simp add: BlockSeen_store_def smap_err_def with_db_def)
    have "chan_ok ?l" "\<not> wt_locked (ix_waiter ?l)"
      using assms chan_ok_cong [of ?l i] by simp_all
    then obtain i' where w: "BlockSeen_wake blk ?l = (Ok (), i')" "\<not> wt_locked (ix_waiter i')"
        "retagged (wake_entry (set (tx_hashes blk))) ?l i'"
      using BlockSeen_wake_ok by blast
    have "BlockSeen A (Ok ()) blk i = (Ok (), i')" using start st w(1) by simp
    with Ok w(2,3) show ?thesis by (auto simp: retagged_def)
  next
    case (Err e db')
    then have "BlockSeen_store A blk ?j = (Err (Wrapf [] e ('': unable to encounter block to storage '' @
        id_text (bk_BlockIdentifier blk))), ?j\<lparr>ix_db := db'\<rparr>)"
      by (simp add: BlockSeen_store_def smap_err_def with_db_def)
    with Err start show ?thesis by simp
  next
    case (Panic p db')
    then have "fst (BlockSeen_store A blk ?j) = Panic p"
      by (simp add: BlockSeen_store_def smap_err_def with_db_def)
    with Panic start show ?thesis
      by (cases "BlockSeen_store A blk ?j" rule: go_cases_pair) simp_all
  qed
qed

theorem BlockSeen_effect_witness:
  "\<exists>i'. BlockSeen sample_storage (Ok ()) block1 (InitIndexer sample_db1) = (Ok (), i') \<and>
     ix_seen i' = 1 \<and> ix_coinCache i' ''g'' \<noteq> None"
proof -
  have "st_SeeBlock sample_storage block1 (ix_db (InitIndexer sample_db1)) = (Ok (), sample_db1)"
    by (simp add: sample_storage_def InitIndexer_def)
  moreover have "\<not> wt_locked (ix_waiter (InitIndexer sample_db1))" by (simp add: InitIndexer_def)
  ultimately obtain i' where "BlockSeen sample_storage (Ok ()) block1 (InitIndexer sample_db1) = (Ok (), i')"
      "ix_seen i' = ix_seen (InitIndexer sample_db1) + 1"
      "ix_coinCache i' = foldl cache_op (ix_coinCache (InitIndexer sample_db1)) (block_operations block1)"
    using BlockSeen_effect [OF chan_ok_init, of sample_db1 sample_storage block1] by auto
  then show ?thesis
    by (simp add: InitIndexer_def block1_def mk_rblock_def block_operations_def cache_op_def
        created_coin_def mk_created_def cache_put_def)
qed

end
