(* ===== verification/Indexer_Sync.thy ===== *)
theory Indexer_Sync
  imports Indexer
begin

text \<open>
  pkg/indexer/indexer.go: starting up (waiting for the node, choosing the index to sync
  from) and the network status the syncer asks for. The syncer itself is not part of the
  repository; \<open>Sync\<close> ends here with the start index it is given.
\<close>

definition initialStartIndex :: int64 where
  "initialStartIndex = - 1"

text \<open>
  The loop that waits for the node may never end: the value \<open>None\<close> is a call that does not
  return. Attempt number \<open>n\<close> meets the node's answers and the sleep of \<open>env n\<close>.
\<close>

partial_function (option) waitForNode ::
  "configuration \<Rightarrow> (nat \<Rightarrow> attempt) \<Rightarrow> nat \<Rightarrow> unit go option"
where
  "waitForNode cfg env n =
     (case GetBlockByID (at_client (env n)) (bi_Hash (cfg_GenesisBlockIdentifier cfg)) of
        Ok _ \<Rightarrow> Some (Ok ())
      | Panic p \<Rightarrow> Some (Panic p)
      | Err err \<Rightarrow>
          (case at_sleep (env n) of
             Some e \<Rightarrow> Some (Err e)
           | None \<Rightarrow> waitForNode cfg env (Suc n)))"

text \<open>
  The rest of \<open>Sync\<close>, up to the call of the syncer: any failure to look up the head counts
  as a first run, and a failed bootstrap ends the process.
\<close>

definition sync_start :: "configuration \<Rightarrow> 'db storage_api \<Rightarrow> ('db indexer, int64) stm" where
  "sync_start cfg A i =
     (case st_GetHead A (ix_db i) of
        Ok head \<Rightarrow> (Ok (bi_Index head + 1), i)
      | Panic p \<Rightarrow> (Panic p, i)
      | Err _ \<Rightarrow>
          (case bootstrapGenesisState cfg A i of
             (Ok _, i') \<Rightarrow> (Ok initialStartIndex, i')
           | (Err _, i') \<Rightarrow> (Panic ProcessExit, i')
           | (Panic p, i') \<Rightarrow> (Panic p, i')))"

definition Sync ::
  "configuration \<Rightarrow> 'db storage_api \<Rightarrow> (nat \<Rightarrow> attempt) \<Rightarrow> 'db indexer \<Rightarrow>
   (int64 go \<times> 'db indexer) option"
where
  "Sync cfg A env i =
     (case waitForNode cfg env 0 of
        None \<Rightarrow> None
      | Some (Ok _) \<Rightarrow> Some (sync_start cfg A i)
      | Some (Err err) \<Rightarrow> Some (Err (Wrapf [] err '': failed to wait for node''), i)
      | Some (Panic p) \<Rightarrow> Some (Panic p, i))"

definition NetworkStatus :: "sdk \<Rightarrow> configuration \<Rightarrow> client option \<Rightarrow> network_status_response go" where
  "NetworkStatus S cfg c =
     gbind (GetConnectedPeers c) (\<lambda>connectedPeers.
     gbind (gmapM (PeerToRosettaPeer S) connectedPeers) (\<lambda>peers.
     gbind (GetLatestBlockHeaders c 1) (\<lambda>currentHeaders.
     case currentHeaders of
       [] \<Rightarrow> Err (New ''failed to get latest block header from node'')
     | h # _ \<Rightarrow>
         (let blk = HeaderToRosettaBlock h
          in Ok \<lparr>ns_CurrentBlockIdentifier = bk_BlockIdentifier blk,
                 ns_CurrentBlockTimestamp = bk_Timestamp blk,
                 ns_GenesisBlockIdentifier = cfg_GenesisBlockIdentifier cfg,
                 ns_Peers = peers\<rparr>))))"

section \<open>When waiting ends\<close>

definition node_ready :: "configuration \<Rightarrow> attempt \<Rightarrow> bool" where
  "node_ready cfg a = is_ok (GetBlockByID (at_client a) (bi_Hash (cfg_GenesisBlockIdentifier cfg)))"

definition node_retried :: "configuration \<Rightarrow> attempt \<Rightarrow> bool" where
  "node_retried cfg a \<longleftrightarrow>
     (\<exists>e. GetBlockByID (at_client a) (bi_Hash (cfg_GenesisBlockIdentifier cfg)) = Err e) \<and>
     at_sleep a = None"

lemma waitForNode_skip:
  assumes "\<And>j. j < k \<Longrightarrow> node_retried cfg (env (n + j))"
  shows "waitForNode cfg env n = waitForNode cfg env (n + k)"
  using assms
proof (induction k arbitrary: n)
  case (Suc k)
  have "waitForNode cfg env n = waitForNode cfg env (Suc n)"
    using Suc.prems [of 0] by (subst waitForNode.simps) (auto simp: node_retried_def)
  also have "\<dots> = waitForNode cfg env (Suc n + k)"
    using Suc.prems [of "Suc _"] by (intro Suc.IH) simp
  finally show ?case by simp
qed simp

lemma waitForNode_returns:
  "waitForNode cfg env n = Some r \<Longrightarrow>
   \<exists>k. (\<forall>j < k. node_retried cfg (env (n + j))) \<and> \<not> node_retried cfg (env (n + k)) \<and>
       (r = Ok () \<longleftrightarrow> node_ready cfg (env (n + k)))"
proof (induction rule: waitForNode.raw_induct [rotated, consumes 1, case_names step])
  case (step waitForNode cfg env n r)
  show ?case
  proof (cases "node_retried cfg (env n)")
    case True
    with step(2) have "waitForNode cfg env (Suc n) = Some r" by (auto simp: node_retried_def)
    from step(1) [OF this] obtain k where k: "\<forall>j < k. node_retried cfg (env (Suc n + j))"
      "\<not> node_retried cfg (env (Suc n + k))" "r = Ok () \<longleftrightarrow> node_ready cfg (env (Suc n + k))" by blast
    have "\<forall>j < Suc k. node_retried cfg (env (n + j))"
    proof (intro allI impI)
      fix j assume "j < Suc k"
      then show "node_retried cfg (env (n + j))"
        using True k(1) by (cases j) auto
    qed
    with k(2,3) show ?thesis by (intro exI [of _ "Suc k"]) simp
  next
    case False
    with step(2) show ?thesis
      by (intro exI [of _ 0])
        (auto simp: node_retried_def node_ready_def split: go.splits option.splits)
  qed
qed

end
