(* ===== verification/Indexer_Block.thy ===== *)
theory Indexer_Block
  imports Indexer_Leave Indexer_Samples Indexer_Sync Converter_Block
begin

text \<open>
  The properties of fetching a block and of starting up: handlers as sequences of their
  sections, the orphan check, the retry loop, a cancelled context, and the bootstrapping
  of balances.
\<close>

section \<open>Handlers are their sections\<close>



section \<open>The orphan check\<close>

lemma sint_plus_1:
  assumes "sint (w :: int64) < 2 ^ 63 - 1"
  shows "sint (w + 1) = sint w + 1"
proof -
  have "sint (w + 1) = signed_take_bit 63 (sint w + 1)" by (simp add: sint_word_ariths)
  also have "\<dots> = sint w + 1"
    using assms sint_greater_eq [of w] by (intro signed_take_bit_int_eq_self) simp_all
  finally show ?thesis .
qed

lemma int64_eq_iff: "(x :: int64) = y \<longleftrightarrow> sint x = sint y"
  by (auto intro: signed_word_eqI)

text \<open>
  With a head block, \<open>checkHeaderMatch\<close> asks for a reorg exactly when the block is at
  the height after the head and does not extend it (the head's index being below the
  largest 64-bit integer), and accepts every other block.
\<close>

theorem checkHeaderMatch_orphan:
  assumes "st_GetHead A db = Ok head" and "fb_Header fb = Some h"
    and "sint (bi_Index head) < 2 ^ 63 - 1"
  shows "checkHeaderMatch A db (Some fb) =
    (if sint (bh_Height h) = sint (bi_Index head) + 1 \<and> bh_ParentID h \<noteq> bi_Hash head
     then Err (Sentinel ErrOrphanHead) else Ok ())"
  using assms by (simp add: checkHeaderMatch_def int64_eq_iff sint_plus_1)

theorem checkHeaderMatch_orphan_witness:
  "checkHeaderMatch sample_storage sample_db1 (Some sample_block) = Ok () \<and>
   checkHeaderMatch sample_storage
     (sample_db1\<lparr>sd_head := Some \<lparr>bi_Index = 1, bi_Hash = ''other''\<rparr>\<rparr>) (Some sample_block) =
     Err (Sentinel ErrOrphanHead)"
proof -
  have "st_GetHead sample_storage sample_db1 = Ok \<lparr>bi_Index = 1, bi_Hash = ''h1''\<rparr>"
    by (simp add: sample_storage_def sample_db1_def)
  note 1 = checkHeaderMatch_orphan [OF this sample_fields(1)]
  have "st_GetHead sample_storage (sample_db1\<lparr>sd_head := Some \<lparr>bi_Index = 1, bi_Hash = ''other''\<rparr>\<rparr>) =
      Ok \<lparr>bi_Index = 1, bi_Hash = ''other''\<rparr>"
    by (simp add: sample_storage_def)
  note 2 = checkHeaderMatch_orphan [OF this sample_fields(1)]
  show ?thesis using 1 2 by (simp add: sample_header_def mk_header_def)
qed

section \<open>Retries\<close>

lemma fetch_loop_skip:
  assumes "\<And>n. n < k \<Longrightarrow> at_ctxErr (env (m + n)) = None \<and> at_sleep (env (m + n)) = None \<and>
             (\<exists>e. getBlockByIdentifier (at_client (env (m + n))) b = Err e)"
    and "m + k \<le> retryLimit"
  shows "fetch_loop S env b m = fetch_loop S env b (m + k)"
  using assms
proof (induction k arbitrary: m)
  case (Suc k)
  obtain e where e: "at_ctxErr (env m) = None" "at_sleep (env m) = None"
      "getBlockByIdentifier (at_client (env m)) b = Err e"
    using Suc.prems(1) [of 0] by auto
  have "fetch_loop S env b m = fetch_loop S env b (Suc m)"
    using e Suc.prems(2) by (subst fetch_loop.simps) simp
  also have "\<dots> = fetch_loop S env b (Suc m + k)"
    using Suc.prems(1) [of "Suc _"] Suc.prems(2) by (intro Suc.IH) simp_all
  finally show ?case by simp
qed simp

lemma fetch_loop_answers:
  assumes "k \<le> retryLimit"
    and "\<And>n. n < k \<Longrightarrow> at_ctxErr (env n) = None \<and> at_sleep (env n) = None \<and>
           (\<exists>e. getBlockByIdentifier (at_client (env n)) b = Err e)"
    and "at_ctxErr (env k) = None" and "getBlockByIdentifier (at_client (env k)) b = Ok blk"
  shows "fetch_loop S env b 0 = gbind (block_inputs S blk) (\<lambda>ins. Ok (blk, ins))"
proof -
  have "fetch_loop S env b 0 = fetch_loop S env b (0 + k)"
    by (rule fetch_loop_skip) (use assms(1,2) in auto)
  also have "\<dots> = gbind (block_inputs S blk) (\<lambda>ins. Ok (blk, ins))"
    using assms(3,4) by (subst fetch_loop.simps) simp
  finally show ?thesis .
qed

text \<open>
  C27: The retry loop of \<open>Block\<close> returns the first answer of the node after at most
  \<open>retryLimit\<close> failures, with the inputs that block needs, and after one failure more it
  gives up with the last error; it never makes more than six attempts.
\<close>

theorem fetch_loop_retries:
  assumes "k \<le> Suc retryLimit"
    and "\<And>n. n < k \<Longrightarrow> at_ctxErr (env n) = None \<and> at_sleep (env n) = None \<and>
           getBlockByIdentifier (at_client (env n)) b = Err (errs n)"
    and "k \<le> retryLimit \<Longrightarrow> at_ctxErr (env k) = None \<and> getBlockByIdentifier (at_client (env k)) b = Ok blk"
  shows "fetch_loop S env b 0 =
    (if k \<le> retryLimit then gbind (block_inputs S blk) (\<lambda>ins. Ok (blk, ins))
     else Err (Wrapf [] (errs retryLimit) ('': unable to get raw block '' @ FormatPartialID S b)))"
proof (cases "k \<le> retryLimit")
  case True
  with fetch_loop_answers [OF True, of env b blk S] assms(2,3) show ?thesis by auto
next
  case False
  then have k: "k = Suc retryLimit" using assms(1) by simp
  have "fetch_loop S env b 0 = fetch_loop S env b (0 + retryLimit)"
    by (rule fetch_loop_skip) (use assms(2) k in auto)
  also have "\<dots> = Err (Wrapf [] (errs retryLimit) ('': unable to get raw block '' @ FormatPartialID S b))"
    using assms(2) [of retryLimit] k by (subst fetch_loop.simps) simp
  finally show ?thesis using False by simp
qed

definition by_hash :: partial_block_identifier where
  "by_hash = \<lparr>pbi_Index = None, pbi_Hash = Some ''h2''\<rparr>"

text \<open>The node is down for the first attempts.\<close>

definition down_until :: "nat \<Rightarrow> nat \<Rightarrow> attempt" where
  "down_until k n =
     \<lparr>at_ctxErr = None, at_client = Some (if n < k then down_client else sample_client), at_sleep = None\<rparr>"

lemma by_hash_answers [simp]:
  "getBlockByIdentifier (Some sample_client) by_hash = Ok (Some sample_block)"
  "getBlockByIdentifier (Some down_client) by_hash = Err down_error"
  by (simp_all add: getBlockByIdentifier_def by_hash_def)

theorem fetch_loop_retries_witness:
  "(\<exists>ins. fetch_loop sdk_ref (down_until 5) by_hash 0 = Ok (Some sample_block, ins)) \<and>
   (\<exists>e. fetch_loop sdk_ref (down_until 6) by_hash 0 = Err e)"
proof
  have "fetch_loop sdk_ref (down_until 5) by_hash 0 =
      gbind (block_inputs sdk_ref (Some sample_block)) (\<lambda>ins. Ok (Some sample_block, ins))"
    using fetch_loop_retries [of 5 "down_until 5" by_hash "\<lambda>n. down_error" "Some sample_block" sdk_ref]
    by (simp add: retryLimit_def down_until_def)
  also have "block_inputs sdk_ref (Some sample_block) = Ok (needed_inputs [] [sample_tx1, sample_tx2])"
    using GetInputsForTxs_wf [OF sdk_ref_ok(2), of "[sample_tx1, sample_tx2]"]
    by (simp add: block_inputs_def sample_fields del: needed_inputs.simps)
  finally show "\<exists>ins. fetch_loop sdk_ref (down_until 5) by_hash 0 = Ok (Some sample_block, ins)" by simp
  show "\<exists>e. fetch_loop sdk_ref (down_until 6) by_hash 0 = Err e"
    using fetch_loop_retries [of 6 "down_until 6" by_hash "\<lambda>n. down_error" None sdk_ref]
    by (simp add: retryLimit_def down_until_def)
qed

section \<open>A cancelled context\<close>

lemma findCoins_nil_block:
  assumes "is_ok (checkHeaderMatch A (ix_db i) None)"
  shows "ft_pc (fst (run_fetcher_alone 2 S A cfg (new_fetcher None []) i)) = PcReturn (Ok Map.empty)"
  using assms by (auto simp: is_ok_iff numeral_2_eq_2 new_fetcher_def fetch_step_def step_enter_def step_loop_def)

text \<open>
  C34: When the context is cancelled before the first attempt, \<open>Block\<close> does not report the
  cancellation: the loop ends with a nil block and no inputs, the search for no coins
  succeeds, and the conversion dereferences the nil block.
\<close>

theorem Block_cancelled_panics:
  assumes "at_ctxErr (env 0) = Some e" and "st_GetHead A (ix_db i) = Ok head"
  shows "ft_pc (fst (run_fetcher_alone 2 S A cfg (new_fetcher None []) i)) = PcReturn (Ok Map.empty) \<and>
    Block S env c (\<lambda>blk coins.
      case ft_pc (fst (run_fetcher_alone 2 S A cfg (new_fetcher blk coins) i)) of
        PcReturn r \<Rightarrow> r | _ \<Rightarrow> Err (New ''not returned'')) b = Panic NilDereference"
proof -
  have "is_ok (checkHeaderMatch A (ix_db i) None)"
    using assms(2) by (simp add: checkHeaderMatch_def)
  note nil = findCoins_nil_block [OF this, of S cfg]
  have "fetch_loop S env b 0 = Ok (None, [])"
    using assms(1) by (subst fetch_loop.simps) simp
  with nil show ?thesis by (simp add: Block_def BlockToRosettaBlock_def)
qed

theorem Block_cancelled_panics_witness:
  "Block sdk_ref (\<lambda>n. \<lparr>at_ctxErr = Some (Sentinel ContextCanceled), at_client = None, at_sleep = None\<rparr>)
     None (\<lambda>blk coins.
      case ft_pc (fst (run_fetcher_alone 2 sdk_ref sample_storage sample_cfg (new_fetcher blk coins)
                        (InitIndexer sample_db1))) of
        PcReturn r \<Rightarrow> r | _ \<Rightarrow> Err (New ''not returned'')) by_hash = Panic NilDereference"
proof -
  have "st_GetHead sample_storage (ix_db (InitIndexer sample_db1)) = Ok \<lparr>bi_Index = 1, bi_Hash = ''h1''\<rparr>"
    by (simp add: sample_storage_def InitIndexer_def sample_db1_def)
  from Block_cancelled_panics [OF _ this] show ?thesis by simp
qed

section \<open>Bootstrapping balances\<close>

definition bootstrappable :: "bootstrap_balance \<Rightarrow> bool" where
  "bootstrappable b \<longleftrightarrow> bb_Account b \<noteq> None \<and> (\<exists>z > 0. SetString (bb_Value b) = Some z)"

definition set_balance ::
  "configuration \<Rightarrow> 'db storage_api \<Rightarrow> bootstrap_balance \<Rightarrow> ('db, unit) stm"
where
  "set_balance cfg A b =
     st_SetBalance A (bb_Account b) \<lparr>am_Value = bb_Value b, am_Currency = bb_Currency b\<rparr>
       (cfg_GenesisBlockIdentifier cfg)"

lemma bootstrap_step_ok: "bootstrappable b \<Longrightarrow> bootstrap_balance_step cfg A b = set_balance cfg A b"
  by (auto simp: bootstrappable_def bootstrap_balance_step_def set_balance_def fun_eq_iff)

lemma bootstrap_step_bad: "\<not> bootstrappable b \<Longrightarrow> \<not> is_ok (fst (bootstrap_balance_step cfg A b db))"
  by (auto simp: bootstrappable_def bootstrap_balance_step_def sgn_if sbind_def split: option.split)

lemma bootstrap_loop_ok:
  "list_all bootstrappable bs \<Longrightarrow> sfor (bootstrap_balance_step cfg A) bs = sfor (set_balance cfg A) bs"
  by (induction bs) (simp_all add: bootstrap_step_ok)

lemma bootstrap_loop_bad:
  "\<not> list_all bootstrappable bs \<Longrightarrow> \<not> is_ok (fst (sfor (bootstrap_balance_step cfg A) bs db))"
proof (induction bs arbitrary: db)
  case (Cons b bs)
  show ?case
  proof (cases "bootstrap_balance_step cfg A b db" rule: go_cases_pair)
    case (Ok u db')
    then have "bootstrappable b" using bootstrap_step_bad [of b cfg A db] by auto
    with Cons Ok show ?thesis by simp
  qed simp_all
qed simp

text \<open>
  C28: The balances before genesis are all set or none is: if every entry has an account and
  a positive integer value, they are set in order in one transaction that is committed only
  when all succeeded; otherwise, as whenever setting one fails, the call does not succeed
  and the indexer is unchanged.
\<close>

theorem bootstrapBalances_atomic:
  "(if list_all bootstrappable (cfg_BootstrapBalances cfg)
    then (case sfor (set_balance cfg A) (cfg_BootstrapBalances cfg) (ix_db i) of
            (Ok _, tx) \<Rightarrow> bootstrapBalances cfg A i = with_db (st_Commit A tx) i
          | (r, _) \<Rightarrow> bootstrapBalances cfg A i = (r, i))
    else \<not> is_ok (fst (bootstrapBalances cfg A i)) \<and> snd (bootstrapBalances cfg A i) = i)"
proof (cases "list_all bootstrappable (cfg_BootstrapBalances cfg)")
  case True
  then show ?thesis
    by (cases "sfor (set_balance cfg A) (cfg_BootstrapBalances cfg) (ix_db i)" rule: go_cases_pair)
      (simp_all add: bootstrapBalances_def bootstrap_loop_ok)
next
  case False
  then show ?thesis
    using bootstrap_loop_bad [OF False, of cfg A "ix_db i"]
    by (cases "sfor (bootstrap_balance_step cfg A) (cfg_BootstrapBalances cfg) (ix_db i)" rule: go_cases_pair)
      (simp_all add: bootstrapBalances_def)
qed

section \<open>Waiting for the node\<close>

lemma waitForNode_ok:
  assumes "node_ready cfg (env k)" and "\<forall>j < k. node_retried cfg (env j)"
  shows "waitForNode cfg env 0 = Some (Ok ())"
proof -
  have "waitForNode cfg env 0 = waitForNode cfg env (0 + k)"
    by (rule waitForNode_skip) (use assms(2) in simp)
  also have "\<dots> = Some (Ok ())"
    using assms(1) by (subst waitForNode.simps) (auto simp: node_ready_def is_ok_iff)
  finally show ?thesis .
qed

text \<open>
  C30: \<open>waitForNode\<close> returns normally exactly when the node answers with the genesis block
  after finitely many failed attempts, none of whose sleeps was interrupted; and it returns
  at all only if some attempt ends the loop, so against a node that never answers it waits
  for ever.
\<close>

theorem waitForNode_ready:
  "(waitForNode cfg env 0 = Some (Ok ()) \<longleftrightarrow>
      (\<exists>k. node_ready cfg (env k) \<and> (\<forall>j < k. node_retried cfg (env j)))) \<and>
   ((\<forall>j. node_retried cfg (env j)) \<longrightarrow> waitForNode cfg env 0 = None)"
proof (intro conjI iffI impI)
  assume "waitForNode cfg env 0 = Some (Ok ())"
  then show "\<exists>k. node_ready cfg (env k) \<and> (\<forall>j < k. node_retried cfg (env j))"
    using waitForNode_returns [of cfg env 0] by auto
next
  assume "\<exists>k. node_ready cfg (env k) \<and> (\<forall>j < k. node_retried cfg (env j))"
  then show "waitForNode cfg env 0 = Some (Ok ())" by (blast intro: waitForNode_ok)
next
  assume "\<forall>j. node_retried cfg (env j)"
  then show "waitForNode cfg env 0 = None"
    using waitForNode_returns [of cfg env 0] by (cases "waitForNode cfg env 0") auto
qed

lemma down_forever [simp]:
  "node_retried cfg \<lparr>at_ctxErr = None, at_client = Some down_client, at_sleep = None\<rparr>"
  by (simp add: node_retried_def GetBlockByID_def makeRequest_def marshal_body_def set_headers_def
      down_client_def sample_client_def)

theorem waitForNode_ready_witness:
  "waitForNode sample_cfg (down_until 3) 0 = Some (Ok ()) \<and>
   waitForNode sample_cfg (\<lambda>n. \<lparr>at_ctxErr = None, at_client = Some down_client, at_sleep = None\<rparr>) 0 = None"
proof
  have "node_ready sample_cfg (down_until 3 3)" by (simp add: node_ready_def down_until_def)
  moreover have "\<forall>j < 3. node_retried sample_cfg (down_until 3 j)" by (simp add: down_until_def)
  ultimately show "waitForNode sample_cfg (down_until 3) 0 = Some (Ok ())"
    using waitForNode_ready [of sample_cfg "down_until 3"] by blast
  show "waitForNode sample_cfg (\<lambda>n. \<lparr>at_ctxErr = None, at_client = Some down_client, at_sleep = None\<rparr>) 0 = None"
    using waitForNode_ready [of sample_cfg "\<lambda>n. \<lparr>at_ctxErr = None, at_client = Some down_client, at_sleep = None\<rparr>"]
    by simp
qed

end
