(* ===== verification/Indexer_Unseen.thy ===== *)
theory Indexer_Unseen
  imports Indexer_Leave Indexer_Samples
begin

text \<open>
  Waits on transactions that no seen block contains. \<open>findCoins\<close> waits under the
  identifiers of the transactions of its own block, and that block is seen only after it
  was fetched; here is what becomes of such a wait: its entry is only ever closed by an
  abort, so the search can neither be repeated nor succeed.
\<close>

section \<open>Handlers that cannot wake\<close>

text \<open>\<open>K\<close> are the keys that occur in no seen block.\<close>

definition wakes_none :: "string set \<Rightarrow> handler \<Rightarrow> bool" where
  "wakes_none K h =
     (case h of
        HSeenCache blk \<Rightarrow> set (tx_hashes blk) \<inter> K = {}
      | HSeenCount blk \<Rightarrow> set (tx_hashes blk) \<inter> K = {}
      | HSeenStore blk \<Rightarrow> set (tx_hashes blk) \<inter> K = {}
      | HSeenWake blk \<Rightarrow> set (tx_hashes blk) \<inter> K = {}
      | _ \<Rightarrow> True)"

lemma wakes_none_simps [simp]:
  "wakes_none K (HSeenCache blk) \<longleftrightarrow> set (tx_hashes blk) \<inter> K = {}"
  "wakes_none K (HSeenCount blk) \<longleftrightarrow> set (tx_hashes blk) \<inter> K = {}"
  "wakes_none K (HSeenStore blk) \<longleftrightarrow> set (tx_hashes blk) \<inter> K = {}"
  "wakes_none K (HSeenWake blk) \<longleftrightarrow> set (tx_hashes blk) \<inter> K = {}"
  "wakes_none K (HAddStart blk)" "wakes_none K (HAddStore blk)" "wakes_none K (HAddUncache blk)"
  "wakes_none K (HAddAbort blk)" "wakes_none K (HRemove b)" "wakes_none K (HDone r)"
  by (simp_all add: wakes_none_def)

definition only_aborted :: "string set \<Rightarrow> wait_table \<Rightarrow> bool" where
  "only_aborted K t \<longleftrightarrow>
     (\<forall>k v. k \<in> K \<longrightarrow> wt_Get t k = Some v \<longrightarrow> wte_channelClosed v \<longrightarrow> wte_aborted v)"

lemma only_abortedD:
  "only_aborted K t \<Longrightarrow> k \<in> K \<Longrightarrow> wt_Get t k = Some v \<Longrightarrow> wte_channelClosed v \<Longrightarrow> wte_aborted v"
  unfolding only_aborted_def by blast

lemma only_aborted_retagged:
  assumes "retagged g i i'" and "only_aborted K (ix_waiter i)"
    and "\<And>k v. k \<in> K \<Longrightarrow> wte_channelClosed (g k v) \<Longrightarrow>
           wte_aborted (g k v) \<or> wte_channelClosed v \<and> g k v = v"
  shows "only_aborted K (ix_waiter i')"
  unfolding only_aborted_def
proof (intro allI impI)
  fix k w assume k: "k \<in> K" and w: "wt_Get (ix_waiter i') k = Some w" and c: "wte_channelClosed w"
  obtain v where v: "wt_Get (ix_waiter i) k = Some v" "w = g k v"
    using assms(1) w by (auto simp: retagged_def)
  with assms(3) [OF k, of v] c only_abortedD [OF assms(2) k v(1)] show "wte_aborted w" by auto
qed

lemma after_section_wakes_none:
  "wakes_none K h \<Longrightarrow> wakes_none K (fst (after_section p h))"
  by (cases p rule: go_cases_pair) simp_all

lemma handler_step_wakes_none:
  assumes "handler_step S A h i = Some (h', i')" and "wakes_none K h"
  shows "wakes_none K h'"
proof -
  have h': "h' = fst (the (handler_step S A h i))" using assms(1) by simp
  show ?thesis
  proof (cases h)
    case (HSeenWake blk)
    with assms(1) show ?thesis
      by (auto simp: handler_step_def after_section_last split: if_splits)
  next
    case (HAddStart blk)
    then show ?thesis
      unfolding h' by (auto simp: handler_step_def add_start_def split: go.split)
  next
    case (HAddAbort blk)
    with assms(1) show ?thesis
      by (auto simp: handler_step_def after_section_last split: if_splits)
  next
    case (HDone r)
    with assms(1) show ?thesis by (simp add: handler_step_def)
  qed (use assms(2) in \<open>unfold h', simp_all add: handler_step_def after_section_wakes_none\<close>)
qed

lemma handler_step_only_aborted:
  assumes "chan_ok i" and "\<not> wt_locked (ix_waiter i)" and step: "handler_step S A h i = Some (h', i')"
    and "wakes_none K h" and "only_aborted K (ix_waiter i)"
  shows "only_aborted K (ix_waiter i')"
  using assms(1-3)
proof (cases rule: handler_step_table)
  case (wake blk)
  show ?thesis
    by (rule only_aborted_retagged [OF wake(2) assms(5)])
      (use assms(4) wake(1) in \<open>auto simp: wake_entry_def\<close>)
next
  case (abort blk)
  show ?thesis by (rule only_aborted_retagged [OF abort(2) assms(5)]) (auto simp: abort_stale_def)
next
  case same
  with assms(5) show ?thesis by simp
qed

section \<open>Fetchers that wait in vain\<close>

text \<open>
  The search is in its first activation; once it has left a wait it is going to abort; and
  if it returned, it never waited.
\<close>

definition in_vain :: "fetcher \<Rightarrow> bool" where
  "in_vain f \<longleftrightarrow>
     ft_depth f = 0 \<and> set (ft_pending f) \<subseteq> set (ft_request f) \<and> set (ft_waits f) \<subseteq> set (ft_request f) \<and>
     (case ft_pc f of
        PcGet ws \<Rightarrow> ft_abort f \<or> ws = ft_remaining f \<and> ws \<noteq> []
      | PcAwait ws _ \<Rightarrow> ft_abort f \<or> ws = ft_remaining f
      | PcLeave ws \<Rightarrow> ft_abort f \<or> ws = ft_remaining f
      | PcReturn r \<Rightarrow> is_ok r \<longrightarrow> ft_remaining f = []
      | _ \<Rightarrow> True)"

named_theorems vain_views \<open>a fetcher that waits in vain, from its program counter\<close>

declare in_vain_def [vain_views] ft_pending_def [vain_views] ft_waits_def [vain_views]

lemma in_vain_new [simp]: "in_vain (new_fetcher blk coins)"
  by (simp add: vain_views new_fetcher_def)

lemma in_vain_ended [simp]:
  "in_vain (ft_err f e) \<longleftrightarrow> ft_depth f = 0" "in_vain (ft_panic f p) \<longleftrightarrow> ft_depth f = 0"
  "in_vain (ft_fail f x e) \<longleftrightarrow> ft_depth f = 0"
  by (simp_all add: vain_views end_defs)

lemma in_vain_depth: "in_vain f \<Longrightarrow> ft_depth f = 0"
  by (simp add: in_vain_def)

lemma in_vain_enter:
  "in_vain f \<Longrightarrow> ft_pc f = PcEnter coins \<Longrightarrow> in_vain (step_enter A f coins i)"
  by (auto simp: step_enter_def in_vain_depth split: go.split)
    (auto simp: vain_views)

lemma in_vain_loop:
  "in_vain f \<Longrightarrow> ft_pc f = PcLoop todo \<Longrightarrow> in_vain (step_loop cfg ctx f todo i)"
  by (auto simp: step_loop_def in_vain_depth split: list.split go.split option.split)
    (auto simp: vain_views)

lemma in_vain_read:
  "in_vain f \<Longrightarrow> ft_pc f = PcRead (x # rest) n \<Longrightarrow> in_vain (step_read cfg A f x rest n i)"
  by (auto simp: step_read_def in_vain_depth split: read_result.split)
    (auto simp: vain_views ft_found_def)

lemma in_vain_cache:
  "in_vain f \<Longrightarrow> ft_pc f = PcCache (x # rest) n h \<Longrightarrow> in_vain (step_cache f x rest n h i)"
  by (auto simp: step_cache_def vain_views ft_found_def split: option.split)

lemma in_vain_register:
  "in_vain f \<Longrightarrow> ft_pc f = PcRegister (x # rest) n h \<Longrightarrow> in_vain (fst (step_register S A f x rest n h i))"
  by (auto simp: step_register_def in_vain_depth split: prod.split register_result.split)
    (auto simp: vain_views)

lemma in_vain_get:
  "in_vain f \<Longrightarrow> ft_pc f = PcGet ws \<Longrightarrow> in_vain (step_get f ws i)"
  by (auto simp: step_get_def in_vain_depth split: list.split option.split)
    (auto simp: vain_views)

lemma in_vain_await:
  "in_vain f \<Longrightarrow> ft_pc f = PcAwait ws ch \<Longrightarrow> step_await ctx f ws ch i = Some f' \<Longrightarrow> in_vain f'"
  by (auto simp: step_await_def in_vain_depth split: option.splits if_splits)
    (auto simp: vain_views)

text \<open>The only step that uses the table: leaving an entry that was closed by an abort.\<close>

lemma in_vain_leave:
  assumes "in_vain f" and "ft_pc f = PcLeave (x # rest)"
    and "wt_Get (ix_waiter i) (ic_TxID x) = Some v" and "wte_aborted v"
  shows "in_vain (fst (step_leave f x rest i))"
  using assms by (auto simp: step_leave_def leave_wait_def Let_def vain_views)

lemma in_vain_fetch_step:
  assumes "in_vain f" and "awaits_ok (ix_waiter i) f" and "only_aborted K (ix_waiter i)"
    and "ic_TxID ` set (ft_request f) \<subseteq> K"
    and step: "fetch_step S A cfg ctx f i = Some (f', i')"
  shows "in_vain f'"
  using step
proof (cases rule: fetch_stepE)
  case (sleep x rest)
  with assms(1) show ?thesis
    by (auto simp: in_vain_depth in_vain_def [of "f\<lparr>ft_pc := p\<rparr>" for p]
        in_vain_def [of f] ft_pending_def ft_waits_def split: option.splits)
next
  case (register x rest n h)
  with in_vain_register [OF assms(1) register(1), of S A i] show ?thesis by simp
next
  case (await ws ch)
  with in_vain_await [OF assms(1) await(1), of ctx i] show ?thesis by simp
next
  case (leave x rest)
  then obtain v where v: "wt_Get (ix_waiter i) (ic_TxID x) = Some v" "wte_channelClosed v"
    using assms(2) by (auto simp: awaits_ok_def split: option.splits)
  have "ic_TxID x \<in> K"
    using assms(1,4) leave(1) by (auto simp: in_vain_def ft_waits_def)
  then have "wte_aborted v" using only_abortedD [OF assms(3)] v by blast
  with in_vain_leave [OF assms(1) leave(1) v(1)] leave(2) show ?thesis by (metis fst_conv)
qed (use assms(1) in \<open>auto intro: in_vain_enter in_vain_loop in_vain_read in_vain_cache in_vain_get\<close>)

text \<open>Joining and leaving do not close anything.\<close>

lemma only_aborted_update:
  assumes "only_aborted K t" and "wt_Get t' = (wt_Get t)(k := e)"
    and "\<And>v. e = Some v \<Longrightarrow> wte_channelClosed v \<Longrightarrow> \<not> wte_aborted v \<Longrightarrow>
           \<exists>w. wt_Get t k = Some w \<and> wte_channelClosed w \<and> \<not> wte_aborted w"
  shows "only_aborted K t'"
  using assms unfolding only_aborted_def by (metis fun_upd_apply)

lemma fetch_step_only_aborted:
  assumes "chan_ok i" and "awaits_ok (ix_waiter i) f" and quiet: "\<And>db p. st_GetHead A db \<noteq> Panic p"
    and step: "fetch_step S A cfg ctx f i = Some (f', i')" and ab: "only_aborted K (ix_waiter i)"
  shows "only_aborted K (ix_waiter i')"
  using assms(1-4)
proof (cases rule: fetch_step_table)
  case (join key h)
  show ?thesis
    by (rule only_aborted_update [OF ab join]) (auto simp: joined_entry_simps split: option.splits)
next
  case (leave x rest v)
  show ?thesis
    by (rule only_aborted_update [OF ab leave(3)]) (use leave(2) in \<open>auto split: if_splits\<close>)
next
  case same
  with ab show ?thesis by simp
qed

section \<open>Runs in which no seen block contains the keys\<close>

definition unseen_ok :: "string set \<Rightarrow> 'db sys \<Rightarrow> bool" where
  "unseen_ok K s \<longleftrightarrow>
     sys_ok s \<and> (\<forall>h \<in> set (sy_handlers s). wakes_none K h) \<and> only_aborted K (ix_waiter (sy_ix s)) \<and>
     (\<forall>f \<in> set (sy_fetchers s). ic_TxID ` set (ft_request f) \<subseteq> K \<longrightarrow> in_vain f)"

lemma unseen_ok_init [simp]: "unseen_ok K (sys_init db)"
  using sys_ok_init [of db] by (simp add: unseen_ok_def sys_init_def only_aborted_def InitIndexer_def)

lemma unseen_ok_fetch:
  assumes "unseen_ok K s" and k: "k < length (sy_fetchers s)"
    and quiet: "\<And>db p. st_GetHead A db \<noteq> Panic p"
    and step: "fetch_step S A cfg ctx (sy_fetchers s ! k) (sy_ix s) = Some (f', i')"
  shows "unseen_ok K (s\<lparr>sy_ix := i', sy_fetchers := (sy_fetchers s)[k := f']\<rparr>)" (is "unseen_ok K ?s")
proof -
  let ?f = "sy_fetchers s ! k"
  have f: "?f \<in> set (sy_fetchers s)" using k by simp
  have ok: "sys_ok s" and o: "only_aborted K (ix_waiter (sy_ix s))"
    using assms(1) by (simp_all add: unseen_ok_def)
  have "sys_ok ?s" by (rule sys_ok_fetch [OF ok k quiet step])
  moreover have "only_aborted K (ix_waiter i')"
    using fetch_step_only_aborted [OF _ _ quiet step o] ok f by (simp add: sys_ok_def)
  moreover have "in_vain f'" if "ic_TxID ` set (ft_request f') \<subseteq> K"
    using in_vain_fetch_step [OF _ _ o _ step] fetch_step_block [OF step] that f ok assms(1)
    by (simp add: unseen_ok_def sys_ok_def)
  ultimately show ?thesis
    using assms(1) set_update_subset_insert [of "sy_fetchers s" k f'] by (auto simp: unseen_ok_def)
qed

lemma unseen_ok_handle:
  assumes "unseen_ok K s" and k: "k < length (sy_handlers s)"
    and step: "handler_step S A (sy_handlers s ! k) (sy_ix s) = Some (h', i')"
  shows "unseen_ok K (s\<lparr>sy_ix := i', sy_handlers := (sy_handlers s)[k := h']\<rparr>)"
proof -
  have w: "wakes_none K (sy_handlers s ! k)" and ok: "sys_ok s"
    and o: "only_aborted K (ix_waiter (sy_ix s))"
    using assms(1) k by (simp_all add: unseen_ok_def)
  have "only_aborted K (ix_waiter i')"
    using handler_step_only_aborted [OF _ _ step w o] ok by (simp add: sys_ok_def)
  with handler_step_wakes_none [OF step w] sys_ok_handler [OF ok step] show ?thesis
    using assms(1) set_update_subset_insert [of "sy_handlers s" k h'] by (auto simp: unseen_ok_def)
qed

lemma unseen_ok_move:
  assumes "unseen_ok K s" and quiet: "\<And>db p. st_GetHead A db \<noteq> Panic p"
    and "\<And>blk. m = MSeen blk \<Longrightarrow> set (tx_hashes blk) \<inter> K = {}"
    and move: "do_move S A cfg m s = Some s'"
  shows "unseen_ok K s'"
proof (cases m)
  case (MBlock blk coins)
  from MBlock move assms(1) show ?thesis by (auto simp: do_move_def unseen_ok_def sys_ok_def)
next
  case (MFetch k ctx)
  with move assms(1) quiet show ?thesis
    by (auto simp: do_move_def split: if_splits option.splits intro: unseen_ok_fetch)
next
  case (MHandle k)
  with move assms(1) show ?thesis
    by (auto simp: do_move_def split: if_splits option.splits intro: unseen_ok_handle)
qed (use assms in \<open>auto simp: do_move_def unseen_ok_def sys_ok_def\<close>)

interpretation unseen: run_invariant S A cfg
  "\<lambda>m. \<forall>blk. m = MSeen blk \<longrightarrow> set (tx_hashes blk) \<inter> K = {}" "\<lambda>s. quiet A \<longrightarrow> unseen_ok K s" for S A cfg K
  by unfold_locales (meson quiet_def unseen_ok_move)

section \<open>The fate of a search whose own block is not seen\<close>

text \<open>
  C17: In every run in which no seen block contains a transaction the search is keyed on (in
  the code these are the transactions of the very block being fetched, which is seen only
  after it was fetched), the search never starts a second round: if it returns coins it has
  never waited, and if it has waited for all its remaining coins it gives up with
  \<open>ErrOrphanHead\<close>, whatever blocks that create those coins were seen or added meanwhile.
\<close>

theorem unseen_waits_abort:
  assumes "run_schedule S A cfg ms (sys_init db) = Some s" and "\<And>db p. st_GetHead A db \<noteq> Panic p"
    and "f \<in> set (sy_fetchers s)"
    and "\<And>blk. MSeen blk \<in> set ms \<Longrightarrow> set (tx_hashes blk) \<inter> ic_TxID ` set (ft_request f) = {}"
  shows "ft_depth f = 0 \<and> (\<forall>m. ft_pc f = PcReturn (Ok m) \<longrightarrow> ft_remaining f = []) \<and>
    (ft_pc f = PcGet [] \<longrightarrow>
       (\<exists>e. ft_pc (step_get f [] (sy_ix s)) = PcReturn (Err e) \<and> errors_Is e ErrOrphanHead))"
proof -
  let ?K = "ic_TxID ` set (ft_request f)"
  have "list_all (\<lambda>m. \<forall>blk. m = MSeen blk \<longrightarrow> set (tx_hashes blk) \<inter> ?K = {}) ms"
    using assms(4) by (auto simp: list_all_iff)
  with unseen.run [OF assms(1), of ?K] quietI [OF assms(2)] have "unseen_ok ?K s" by simp
  then have "in_vain f" using assms(3) by (simp add: unseen_ok_def)
  then show ?thesis by (auto simp: in_vain_def step_get_def ft_err_def)
qed

text \<open>
  The instance: block 2 is being fetched while block 1, which creates its input \<open>g\<close>, is
  seen and added. The coin is then in the storage, and the search ends as orphaned.
\<close>

definition orphan_moves :: "move list" where
  "orphan_moves = MBlock (Some sample_block) [\<lparr>ic_TxID = ''t1'', ic_InputID = ''g''\<rparr>] #
     replicate 7 (MFetch 0 None) @ MSeen block1 # replicate 4 (MHandle 0) @
     MAdded block1 # replicate 4 (MHandle 1) @ replicate 2 (MFetch 0 None)"

lemma orphan_runs:
  "(case run_schedule sdk_ref sample_storage sample_cfg orphan_moves (sys_init sample_db0) of
      None \<Rightarrow> False
    | Some s \<Rightarrow> length (sy_fetchers s) = 1 \<and>
        (case ft_pc (sy_fetchers s ! 0) of PcGet ws \<Rightarrow> ws = [] | _ \<Rightarrow> False) \<and>
        map ic_TxID (ft_request (sy_fetchers s ! 0)) = [''t1''] \<and>
        (case sd_coins (ix_db (sy_ix s)) ''g'' of None \<Rightarrow> False | Some c \<Rightarrow> True))"
  by code_simp

theorem unseen_waits_abort_witness:
  "\<exists>s e. run_schedule sdk_ref sample_storage sample_cfg orphan_moves (sys_init sample_db0) = Some s \<and>
     sd_coins (ix_db (sy_ix s)) ''g'' \<noteq> None \<and>
     ft_pc (step_get (sy_fetchers s ! 0) [] (sy_ix s)) = PcReturn (Err e) \<and> errors_Is e ErrOrphanHead"
proof -
  from orphan_runs obtain s where
    s: "run_schedule sdk_ref sample_storage sample_cfg orphan_moves (sys_init sample_db0) = Some s"
    and one: "length (sy_fetchers s) = 1" and pc: "ft_pc (sy_fetchers s ! 0) = PcGet []"
    and req: "map ic_TxID (ft_request (sy_fetchers s ! 0)) = [''t1'']"
    and g: "sd_coins (ix_db (sy_ix s)) ''g'' \<noteq> None"
    by (auto split: option.splits fetch_pc.splits)
  have f: "sy_fetchers s ! 0 \<in> set (sy_fetchers s)" using one by simp
  have keys: "ic_TxID ` set (ft_request (sy_fetchers s ! 0)) = {''t1''}"
    using arg_cong [OF req, of set] by simp
  have "set (tx_hashes blk) \<inter> ic_TxID ` set (ft_request (sy_fetchers s ! 0)) = {}"
    if "MSeen blk \<in> set orphan_moves" for blk
    using that unfolding keys by (auto simp: orphan_moves_def block1_def mk_rblock_def tx_hashes_def)
  from unseen_waits_abort [OF s sample_quiet f this] pc g s show ?thesis by blast
qed

end
