(* ===== verification/Indexer_Leak.thy ===== *)
theory Indexer_Leak
  imports Indexer_Props
begin

text \<open>
  What a search leaves behind when its context is cancelled while it waits: listeners that
  nobody will ever count down. Their entries stay in the wait table for ever, with the
  abort flag they may have got.
\<close>

section \<open>Listeners without a fetcher\<close>

definition leaked :: "nat \<Rightarrow> string \<Rightarrow> 'db sys \<Rightarrow> bool" where
  "leaked n key s \<longleftrightarrow>
     sys_ok s \<and> int (sys_held s key) + int n \<le> listeners (ix_waiter (sy_ix s)) key"

lemma leaked_entry:
  assumes "leaked n key s" and "0 < n"
  shows "wt_Get (ix_waiter (sy_ix s)) key \<noteq> None"
  using assms by (auto simp: leaked_def listeners_def split: option.splits)

lemma leaked_fetch:
  assumes "leaked n key s" and k: "k < length (sy_fetchers s)"
    and quiet: "\<And>db p. st_GetHead A db \<noteq> Panic p"
    and step: "fetch_step S A cfg ctx (sy_fetchers s ! k) (sy_ix s) = Some (f', i')"
  shows "leaked n key (s\<lparr>sy_ix := i', sy_fetchers := (sy_fetchers s)[k := f']\<rparr>)" (is "leaked n key ?s")
proof -
  let ?f = "sy_fetchers s ! k"
  have ok: "sys_ok s" using assms(1) by (simp add: leaked_def)
  have "awaits_ok (ix_waiter (sy_ix s)) ?f" using ok k by (simp add: sys_ok_def)
  with fetch_step_ok [OF _ _ _ quiet step] ok
  have "int (ft_count key f') - int (ft_count key ?f)
      \<le> listeners (ix_waiter i') key - listeners (ix_waiter (sy_ix s)) key"
    by (simp add: fetch_ok_def sys_ok_def)
  then show ?thesis
    using assms(1) sys_ok_fetch [OF ok k quiet step] sys_held_update [OF k, where i' = i' and f' = f' and key = key]
    by (simp add: leaked_def)
qed

lemma leaked_handle:
  assumes "leaked n key s"
    and step: "handler_step S A (sy_handlers s ! k) (sy_ix s) = Some (h', i')"
  shows "leaked n key (s\<lparr>sy_ix := i', sy_handlers := (sy_handlers s)[k := h']\<rparr>)"
proof -
  have ok: "sys_ok s" using assms(1) by (simp add: leaked_def)
  then have "listeners (ix_waiter i') = listeners (ix_waiter (sy_ix s))"
    using handler_step_ok [OF _ _ step] by (simp add: section_ok_def sys_ok_def)
  then show ?thesis
    using assms(1) sys_ok_handler [OF ok step] by (simp add: leaked_def sys_held_def)
qed

section \<open>An abort flag that sticks\<close>

lemma aborted_retagged:
  assumes "retagged g i i'" and "\<And>v. wte_aborted v \<Longrightarrow> wte_aborted (g key v)"
    and "is_aborted (ix_waiter i) key"
  shows "is_aborted (ix_waiter i') key"
  using assms by (auto simp: retagged_def is_aborted_def split: option.splits)

lemma aborted_handle:
  assumes "sys_ok s" and "is_aborted (ix_waiter (sy_ix s)) key"
    and step: "handler_step S A h (sy_ix s) = Some (h', i')"
  shows "is_aborted (ix_waiter i') key"
proof -
  have "chan_ok (sy_ix s)" "\<not> wt_locked (ix_waiter (sy_ix s))" using assms(1) by (simp_all add: sys_ok_def)
  then show ?thesis
    using step
  proof (cases rule: handler_step_table)
    case (wake blk)
    show ?thesis by (rule aborted_retagged [OF wake(2) _ assms(2)]) (simp add: wake_entry_def)
  next
    case (abort blk)
    show ?thesis by (rule aborted_retagged [OF abort(2) _ assms(2)]) (simp add: abort_stale_def)
  next
    case same
    with assms(2) show ?thesis by simp
  qed
qed

lemma aborted_fetch:
  assumes "leaked n key s" and "0 < n" and k: "k < length (sy_fetchers s)"
    and quiet: "\<And>db p. st_GetHead A db \<noteq> Panic p"
    and ab: "is_aborted (ix_waiter (sy_ix s)) key"
    and step: "fetch_step S A cfg ctx (sy_fetchers s ! k) (sy_ix s) = Some (f', i')"
  shows "is_aborted (ix_waiter i') key"
proof -
  let ?f = "sy_fetchers s ! k"
  have f: "?f \<in> set (sy_fetchers s)" using k by simp
  then have "chan_ok (sy_ix s)" "awaits_ok (ix_waiter (sy_ix s)) ?f"
    using assms(1) by (simp_all add: leaked_def sys_ok_def)
  then show ?thesis
    using quiet step
  proof (cases rule: fetch_step_table)
    case (join key' h)
    then show ?thesis
      using ab by (auto simp: is_aborted_def joined_entry_simps split: option.splits)
  next
    case (leave x rest v)
    have "wte_listeners v \<noteq> 1" if "ic_TxID x = key"
    proof -
      have "1 \<le> ft_count key ?f" using leave(1) that by (simp add: wait_views)
      then show ?thesis
        using ft_count_le_held [OF f, of key] assms(1,2) leave(2) that
        by (auto simp: leaked_def listeners_def)
    qed
    then show ?thesis
      using leave(2,3) ab by (auto simp: is_aborted_def split: option.splits if_splits)
  next
    case same
    with ab show ?thesis by simp
  qed
qed

section \<open>For ever\<close>

lemma leaked_move:
  assumes "leaked n key s" and quiet: "\<And>db p. st_GetHead A db \<noteq> Panic p"
    and move: "do_move S A cfg m s = Some s'"
  shows "leaked n key s'"
proof (cases m)
  case (MBlock blk coins)
  with MBlock move assms(1) show ?thesis by (auto simp: do_move_def leaked_def sys_ok_def)
next
  case (MFetch k ctx)
  with move assms(1) quiet show ?thesis
    by (auto simp: do_move_def split: if_splits option.splits intro: leaked_fetch)
next
  case (MHandle k)
  with move assms(1) show ?thesis
    by (auto simp: do_move_def split: if_splits option.splits intro: leaked_handle)
qed (use assms in \<open>auto simp: do_move_def leaked_def sys_ok_def\<close>)

lemma aborted_move:
  assumes "leaked n key s" and "0 < n" and quiet: "\<And>db p. st_GetHead A db \<noteq> Panic p"
    and "is_aborted (ix_waiter (sy_ix s)) key" and move: "do_move S A cfg m s = Some s'"
  shows "is_aborted (ix_waiter (sy_ix s')) key"
proof (cases m)
  case (MFetch k ctx)
  with move obtain f' i' where "k < length (sy_fetchers s)"
    and "fetch_step S A cfg ctx (sy_fetchers s ! k) (sy_ix s) = Some (f', i')" and "sy_ix s' = i'"
    by (auto simp: do_move_def split: if_splits option.splits)
  with aborted_fetch [OF assms(1,2) _ quiet assms(4)] show ?thesis by blast
next
  case (MHandle k)
  with move obtain h' i' where "handler_step S A (sy_handlers s ! k) (sy_ix s) = Some (h', i')"
    and "sy_ix s' = i'" by (auto simp: do_move_def split: if_splits option.splits)
  with aborted_handle [OF _ assms(4)] assms(1) show ?thesis by (auto simp: leaked_def)
qed (use move assms(4) in \<open>auto simp: do_move_def\<close>)

interpretation leak: run_invariant S A cfg "\<lambda>m. True" "\<lambda>s. quiet A \<longrightarrow> leaked n key s" for S A cfg n key
  by unfold_locales (auto simp: quiet_def intro: leaked_move)

interpretation stuck: run_invariant S A cfg "\<lambda>m. True"
  "\<lambda>s. quiet A \<and> 0 < n \<longrightarrow> leaked n key s \<and> is_aborted (ix_waiter (sy_ix s)) key" for S A cfg n key
  by unfold_locales (auto simp: quiet_def intro: leaked_move aborted_move)

lemma leaked_run:
  assumes "run_schedule S A cfg ms s = Some s'" and "leaked n key s" and "quiet A"
  shows "leaked n key s'"
    and "0 < n \<Longrightarrow> is_aborted (ix_waiter (sy_ix s)) key \<Longrightarrow> is_aborted (ix_waiter (sy_ix s')) key"
  using leak.run [OF assms(1)] stuck.run [OF assms(1), of n key] assms(2,3) by (simp_all add: list_all_iff)

lemma cancelled_leaks:
  assumes "sys_ok s" and k: "k < length (sy_fetchers s)" and pc: "ft_pc (sy_fetchers s ! k) = PcAwait ws ch"
    and "x \<in> set ws" and move: "do_move S A cfg (MFetch k (Some err)) s = Some s'"
    and quiet: "\<And>db p. st_GetHead A db \<noteq> Panic p"
  shows "leaked 1 (ic_TxID x) s'"
proof -
  let ?f = "sy_fetchers s ! k"
  have step: "fetch_step S A cfg (Some err) ?f (sy_ix s) = Some (ft_err ?f err, sy_ix s)"
    using pc by (simp add: fetch_step_def step_await_def)
  with k move have s': "s' = s\<lparr>sy_ix := sy_ix s, sy_fetchers := (sy_fetchers s)[k := ft_err ?f err]\<rparr>"
    by (simp add: do_move_def)
  have "1 \<le> ft_count (ic_TxID x) ?f"
    using pc assms(4) count_list_0_iff [of "map ic_TxID ws" "ic_TxID x"]
    by (auto simp: wait_views Suc_le_eq)
  moreover have "int (sys_held s (ic_TxID x)) \<le> listeners (ix_waiter (sy_ix s)) (ic_TxID x)"
    using assms(1) by (simp add: sys_ok_def)
  ultimately show ?thesis
    using sys_ok_fetch [OF assms(1) k quiet step]
      sys_held_update [OF k, where i' = "sy_ix s" and f' = "ft_err ?f err" and key = "ic_TxID x"]
    by (simp add: s' leaked_def)
qed

text \<open>
  C18: A search whose context is cancelled while it waits never gives its listeners back: in
  every later state the entry of each transaction it waited for is still in the table, with
  more listeners than there are waits, and once it is aborted it stays aborted, so every
  later search that joins it is told that its block is orphaned.
\<close>

theorem cancelled_wait_leaks:
  assumes "reachable S A cfg s" and "\<And>db p. st_GetHead A db \<noteq> Panic p"
    and "k < length (sy_fetchers s)" and "ft_pc (sy_fetchers s ! k) = PcAwait ws ch" and "x \<in> set ws"
    and "run_schedule S A cfg (MFetch k (Some err) # ms) s = Some t"
    and "run_schedule S A cfg ms' t = Some u"
  shows "int (\<Sum>f \<leftarrow> sy_fetchers u. ft_count (ic_TxID x) f) < listeners (ix_waiter (sy_ix u)) (ic_TxID x) \<and>
    wt_Get (ix_waiter (sy_ix u)) (ic_TxID x) \<noteq> None \<and>
    (is_aborted (ix_waiter (sy_ix t)) (ic_TxID x) \<longrightarrow> is_aborted (ix_waiter (sy_ix u)) (ic_TxID x))"
proof -
  from assms(6) obtain s' where s': "do_move S A cfg (MFetch k (Some err)) s = Some s'"
    and t: "run_schedule S A cfg ms s' = Some t" by (auto split: option.splits)
  have "leaked 1 (ic_TxID x) s'"
    by (rule cancelled_leaks [OF reachable_sys_ok [OF assms(1,2)] assms(3,4,5) s' assms(2)])
  from leaked_run(1) [OF t this quietI [OF assms(2)]] have "leaked 1 (ic_TxID x) t" .
  from leaked_run [OF assms(7) this quietI [OF assms(2)]] leaked_entry [of 1 "ic_TxID x" u] show ?thesis
    by (simp add: leaked_def sys_held_def)
qed

text \<open>
  The instance: the fetch of block 2 is cancelled while it waits for \<open>t1\<close>, block 1 is
  added, and the second fetch of block 2 joins the stale entry and is aborted at once.
\<close>

definition cancel_moves :: "move list" where
  "cancel_moves = MFetch 0 (Some (Sentinel ContextCanceled)) # MAdded block1 # replicate 4 (MHandle 0)"

definition refetch_moves :: "move list" where
  "refetch_moves = MBlock (Some sample_block) [\<lparr>ic_TxID = ''t1'', ic_InputID = ''missing''\<rparr>] #
     replicate 10 (MFetch 1 None)"

abbreviation sample_run :: "move list \<Rightarrow> sample_db sys \<Rightarrow> sample_db sys option" where
  "sample_run \<equiv> run_schedule sdk_ref sample_storage sample_cfg"

lemma cancel_runs:
  "runs wait_moves (\<lambda>s. map ft_awaits (sy_fetchers s) =
       [Some ([\<lparr>ic_TxID = ''t1'', ic_InputID = ''g''\<rparr>], 0)] \<and>
     (case sample_run cancel_moves s of
        None \<Rightarrow> False
      | Some t \<Rightarrow> is_aborted (ix_waiter (sy_ix t)) ''t1'' \<and>
          (case sample_run refetch_moves t of
             None \<Rightarrow> False
           | Some u \<Rightarrow> length (sy_fetchers u) = 2 \<and> ft_failed (sy_fetchers u ! 1))))"
  by code_simp

theorem cancelled_wait_leaks_witness:
  "\<exists>s t u. schedule_result wait_moves = Some s \<and> sample_run cancel_moves s = Some t \<and>
     sample_run refetch_moves t = Some u \<and> ft_failed (sy_fetchers u ! 1) \<and>
     0 < listeners (ix_waiter (sy_ix u)) ''t1'' \<and> is_aborted (ix_waiter (sy_ix u)) ''t1''"
proof -
  from runsE [OF cancel_runs] obtain s where
    s: "schedule_result wait_moves = Some s" and r: "reachable sdk_ref sample_storage sample_cfg s"
    and c: "map ft_awaits (sy_fetchers s) = [Some ([\<lparr>ic_TxID = ''t1'', ic_InputID = ''g''\<rparr>], 0)] \<and>
     (case sample_run cancel_moves s of
        None \<Rightarrow> False
      | Some t \<Rightarrow> is_aborted (ix_waiter (sy_ix t)) ''t1'' \<and>
          (case sample_run refetch_moves t of
             None \<Rightarrow> False
           | Some u \<Rightarrow> length (sy_fetchers u) = 2 \<and> ft_failed (sy_fetchers u ! 1)))" .
  from c obtain t u where t: "sample_run cancel_moves s = Some t"
    and u: "sample_run refetch_moves t = Some u" and ab: "is_aborted (ix_waiter (sy_ix t)) ''t1''"
    and fl: "ft_failed (sy_fetchers u ! 1)" by (auto split: option.splits)
  from c obtain f where "sy_fetchers s = [f]" and "ft_pc f = PcAwait [\<lparr>ic_TxID = ''t1'', ic_InputID = ''g''\<rparr>] 0"
    by (auto simp: map_eq_Cons_conv)
  then have pc: "0 < length (sy_fetchers s)"
      "ft_pc (sy_fetchers s ! 0) = PcAwait [\<lparr>ic_TxID = ''t1'', ic_InputID = ''g''\<rparr>] 0" by simp_all
  from cancelled_wait_leaks [OF r sample_quiet pc _ t [unfolded cancel_moves_def] u,
      of "\<lparr>ic_TxID = ''t1'', ic_InputID = ''g''\<rparr>"] ab
  have "0 < listeners (ix_waiter (sy_ix u)) ''t1'' \<and> is_aborted (ix_waiter (sy_ix u)) ''t1''"
    by auto
  with s t u fl show ?thesis by blast
qed

end
