(* ===== verification/Indexer_Wakeups.thy ===== *)
theory Indexer_Wakeups
  imports Indexer_Unseen Indexer_Handlers
begin

text \<open>
  Why no wake-up is lost between looking for a coin and waiting for it: \<open>BlockSeen\<close> caches
  the coins, counts the block and only then wakes, while \<open>findCoin\<close> reads the counter,
  looks the coin up and joins only if the counter is unchanged. So a search that joins
  although its coin has meanwhile been cached joins before that block wakes its waiters.
\<close>

section \<open>Seen blocks on their way\<close>

definition creates :: "block \<Rightarrow> string \<Rightarrow> bool" where
  "creates blk b \<longleftrightarrow> b \<in> created_in (block_operations blk)"

text \<open>A handler that has cached the coin and has not woken its waiters yet, or that failed.\<close>

fun wake_pending :: "string \<Rightarrow> handler \<Rightarrow> bool" where
  "wake_pending b (HSeenCount blk) = creates blk b"
| "wake_pending b (HSeenStore blk) = creates blk b"
| "wake_pending b (HSeenWake blk) = creates blk b"
| "wake_pending b (HDone r) = (r \<noteq> Ok ())"
| "wake_pending b _ = False"

text \<open>A seen block that creates a coin of \<open>X\<close> contains the transaction the wait is keyed on.\<close>

definition keyed_block :: "input_ctx set \<Rightarrow> block \<Rightarrow> bool" where
  "keyed_block X blk \<longleftrightarrow> (\<forall>x \<in> X. creates blk (ic_InputID x) \<longrightarrow> ic_TxID x \<in> set (tx_hashes blk))"

fun keyed :: "input_ctx set \<Rightarrow> handler \<Rightarrow> bool" where
  "keyed X (HSeenCache blk) = keyed_block X blk"
| "keyed X (HSeenCount blk) = keyed_block X blk"
| "keyed X (HSeenStore blk) = keyed_block X blk"
| "keyed X (HSeenWake blk) = keyed_block X blk"
| "keyed X _ = True"

lemma foldl_cache_op_dom:
  "foldl cache_op m ops b \<noteq> None \<Longrightarrow> m b \<noteq> None \<or> b \<in> created_in ops"
  unfolding foldl_cache_op cc.get_foldl_put [OF TrueI] created_in_filter [symmetric]
  by (auto simp: map_add_def dest: map_of_SomeD split: option.splits)
    (force dest: map_of_SomeD)

lemma foldl_uncache_op_dom: "foldl uncache_op m ops b \<noteq> None \<Longrightarrow> m b \<noteq> None"
  unfolding foldl_uncache_op by (simp add: cc.get_foldl_del split: if_splits)

text \<open>What a section of a handler does to the cache, the counter and the pending wakes.\<close>

lemma handler_step_grows:
  assumes "chan_ok i" and "\<not> wt_locked (ix_waiter i)" and step: "handler_step S A h i = Some (h', i')"
    and c: "ix_coinCache i' b \<noteq> None"
  shows "ix_coinCache i b \<noteq> None \<or> (\<exists>blk. h' = HSeenCount blk \<and> creates blk b)"
proof (cases h)
  case (HSeenCache blk)
  then have "h' = HSeenCount blk"
    using step by (simp add: handler_step_def BlockSeen_cache_def after_section_def)
  then show ?thesis
    using c HSeenCache foldl_cache_op_dom [of "ix_coinCache i" "block_operations blk" b]
    by (simp add: handler_step_state [OF assms(1-3)] creates_def)
next
  case (HAddUncache blk)
  then show ?thesis
    using c foldl_uncache_op_dom [of "ix_coinCache i" "block_operations blk" b]
    by (simp add: handler_step_state [OF assms(1-3)])
qed (use c in \<open>simp_all add: handler_step_state [OF assms(1-3)]\<close>)

lemma wake_pending_next:
  assumes "wake_pending b h" and step: "handler_step S A h i = Some (h', i')"
  shows "wake_pending b h' \<or> (\<exists>blk. h = HSeenWake blk)"
  using assms by (cases h)
    (auto simp: handler_step_def after_section_def BlockSeen_count_def split: go.splits prod.splits)

lemma keyed_next: "keyed X h \<Longrightarrow> handler_step S A h i = Some (h', i') \<Longrightarrow> keyed X h'"
  by (cases h) (auto simp: handler_step_def after_section_def add_start_def
      split: go.splits prod.splits if_splits)

lemma handler_step_closed:
  assumes "chan_ok i" and "\<not> wt_locked (ix_waiter i)" and step: "handler_step S A h i = Some (h', i')"
    and v: "wt_Get (ix_waiter i) k = Some v"
  shows "\<exists>v'. wt_Get (ix_waiter i') k = Some v' \<and> (wte_channelClosed v \<longrightarrow> wte_channelClosed v') \<and>
    (\<forall>blk. h = HSeenWake blk \<longrightarrow> k \<in> set (tx_hashes blk) \<longrightarrow> wte_channelClosed v')"
  using assms(1-3)
proof (cases rule: handler_step_table)
  case (wake blk)
  with v show ?thesis by (simp add: retagged_def wake_entry_def)
next
  case (abort blk)
  with v show ?thesis by (simp add: retagged_def abort_stale_def)
next
  case same
  show ?thesis
  proof (cases "\<exists>blk. h = HSeenWake blk")
    case True
    then obtain blk where h: "h = HSeenWake blk" ..
    with step assms(2) BlockSeen_wake_ok [OF assms(1,2), of blk] v show ?thesis
      by (auto simp: handler_step_def retagged_def wake_entry_def)
  qed (use same v in auto)
qed

section \<open>The window and the wait\<close>

text \<open>
  The counter a search has read is never ahead of the counter; if they still agree when the
  search is about to join and its coin is cached, the block that cached it is not counted
  yet.
\<close>

definition window_ok :: "'db indexer \<Rightarrow> handler list \<Rightarrow> fetcher \<Rightarrow> bool" where
  "window_ok i hs f \<longleftrightarrow>
     (case ft_pc f of
        PcRead todo n \<Rightarrow> unat n \<le> unat (ix_seen i)
      | PcCache todo n h \<Rightarrow> unat n \<le> unat (ix_seen i)
      | PcRegister todo n h \<Rightarrow>
          unat n \<le> unat (ix_seen i) \<and>
          (n = ix_seen i \<longrightarrow> todo \<noteq> [] \<longrightarrow> ix_coinCache i (ic_InputID (hd todo)) \<noteq> None \<longrightarrow>
             (\<exists>blk. HSeenCount blk \<in> set hs \<and> creates blk (ic_InputID (hd todo))))
      | _ \<Rightarrow> True)"

definition wait_ok :: "'db indexer \<Rightarrow> handler list \<Rightarrow> input_ctx \<Rightarrow> bool" where
  "wait_ok i hs x \<longleftrightarrow>
     is_closed (ix_waiter i) (ic_TxID x) \<or> ix_coinCache i (ic_InputID x) = None \<or>
     (\<exists>h \<in> set hs. wake_pending (ic_InputID x) h)"

definition wakeups_ok :: "input_ctx set \<Rightarrow> 'db sys \<Rightarrow> bool" where
  "wakeups_ok X s \<longleftrightarrow>
     sys_ok s \<and> (\<forall>h \<in> set (sy_handlers s). keyed X h) \<and>
     (\<forall>f \<in> set (sy_fetchers s). window_ok (sy_ix s) (sy_handlers s) f \<and>
        (\<forall>x \<in> set (ft_waits f) \<inter> X. wait_ok (sy_ix s) (sy_handlers s) x))"

lemma wakeups_ok_init: "wakeups_ok X (sys_init db)"
  using sys_ok_init [of db] by (simp add: wakeups_ok_def sys_init_def)

text \<open>Every held wait has its entry.\<close>

lemma waited_entry:
  assumes "sys_ok s" and "f \<in> set (sy_fetchers s)" and "x \<in> set (ft_waits f)"
  obtains v where "wt_Get (ix_waiter (sy_ix s)) (ic_TxID x) = Some v"
proof -
  from waited_count [OF assms(3)] count_le_listeners [OF assms(1,2), of "ic_TxID x"]
  have "0 < listeners (ix_waiter (sy_ix s)) (ic_TxID x)" by linarith
  then show thesis using listeners_pos that by blast
qed

section \<open>Steps of a search\<close>

lemma step_register_joined:
  assumes "ft_pc f = PcRegister (x # rest) n h" and "step_register S A f x rest n h i = (f', i')"
    and "y \<in> set (ft_waits f')"
  shows "y \<in> set (ft_waits f) \<or> y = x \<and> n = ix_seen i"
  using assms by (auto simp: step_register_def findCoin_register_def wait_views end_defs
      split: go.splits if_splits)

lemma fetch_step_joined:
  assumes step: "fetch_step S A cfg ctx f i = Some (f', i')" and y: "y \<in> set (ft_waits f')"
  shows "y \<in> set (ft_waits f) \<or> (\<exists>rest h. ft_pc f = PcRegister (y # rest) (ix_seen i) h)"
  using step
proof (cases rule: fetch_stepE)
  case (enter coins)
  with y show ?thesis by (auto simp: step_enter_def wait_views end_defs split: go.splits)
next
  case (loop todo)
  with y show ?thesis
    by (auto simp: step_loop_def wait_views end_defs split: list.splits go.splits option.splits if_splits)
next
  case (read x rest n)
  with y show ?thesis by (auto simp: step_read_def wait_views end_defs split: read_result.splits)
next
  case (sleep x rest)
  with y show ?thesis by (auto simp: wait_views end_defs split: option.splits)
next
  case (cache x rest n h)
  with y show ?thesis by (auto simp: step_cache_def wait_views end_defs split: option.splits)
next
  case (register x rest n h)
  with step_register_joined [OF register y] show ?thesis by auto
next
  case (get ws)
  with y show ?thesis
    by (auto simp: step_get_def wait_views end_defs split: list.splits option.splits if_splits)
next
  case (await ws ch)
  with y show ?thesis by (auto simp: step_await_def wait_views end_defs split: option.splits if_splits)
next
  case (leave x rest)
  with y show ?thesis
    by (auto simp: step_leave_def wait_views end_defs split: option.splits prod.splits)
qed

text \<open>A step of a search starts a window, or stays in it as long as nothing was counted.\<close>

lemma window_fetch:
  assumes "window_ok i hs f" and step: "fetch_step S A cfg ctx f i = Some (f', i')"
  shows "window_ok i hs f'"
  using step
proof (cases rule: fetch_stepE)
  case (enter coins)
  then show ?thesis by (auto simp: step_enter_def window_ok_def end_defs split: go.splits)
next
  case (loop todo)
  then show ?thesis
    by (auto simp: step_loop_def window_ok_def end_defs split: list.splits go.splits option.splits if_splits)
next
  case (read x rest n)
  with assms(1) show ?thesis
    by (auto simp: step_read_def window_ok_def end_defs split: read_result.splits)
next
  case (sleep x rest)
  then show ?thesis by (auto simp: window_ok_def end_defs split: option.splits)
next
  case (cache x rest n h)
  with assms(1) show ?thesis by (auto simp: step_cache_def window_ok_def end_defs split: option.splits)
next
  case (register x rest n h)
  then show ?thesis
    by (auto simp: step_register_def window_ok_def end_defs split: register_result.splits prod.splits)
next
  case (get ws)
  then show ?thesis
    by (auto simp: step_get_def window_ok_def end_defs split: list.splits option.splits if_splits)
next
  case (await ws ch)
  then show ?thesis by (auto simp: step_await_def window_ok_def end_defs split: option.splits if_splits)
next
  case (leave x rest)
  then show ?thesis
    by (auto simp: step_leave_def window_ok_def end_defs split: option.splits prod.splits)
qed

text \<open>What a search leaves alone.\<close>

lemma fetch_step_closed:
  assumes "chan_ok i" and "awaits_ok (ix_waiter i) f" and quiet: "\<And>db p. st_GetHead A db \<noteq> Panic p"
    and step: "fetch_step S A cfg ctx f i = Some (f', i')"
    and "wt_Get (ix_waiter i) k = Some v" and "wt_Get (ix_waiter i') k = Some v'"
  shows "wte_channelClosed v' = wte_channelClosed v"
  using assms(1-4)
proof (cases rule: fetch_step_table)
  case (join key h)
  with assms(5,6) show ?thesis by (auto simp: joined_entry_simps split: if_splits)
next
  case (leave x rest w)
  with assms(5,6) show ?thesis by (auto split: if_splits)
next
  case same
  with assms(5,6) show ?thesis by simp
qed

section \<open>The invariant\<close>

lemma window_ok_cong:
  "window_ok i hs f \<Longrightarrow> ix_seen i' = ix_seen i \<Longrightarrow> ix_coinCache i' = ix_coinCache i \<Longrightarrow> window_ok i' hs f"
  by (simp add: window_ok_def split: fetch_pc.splits)

lemma wakeups_fetch:
  assumes "wakeups_ok X s" and k: "k < length (sy_fetchers s)"
    and quiet: "\<And>db p. st_GetHead A db \<noteq> Panic p"
    and step: "fetch_step S A cfg ctx (sy_fetchers s ! k) (sy_ix s) = Some (f', i')"
  shows "wakeups_ok X (s\<lparr>sy_ix := i', sy_fetchers := (sy_fetchers s)[k := f']\<rparr>)" (is "wakeups_ok X ?s")
proof -
  let ?f = "sy_fetchers s ! k" and ?i = "sy_ix s" and ?hs = "sy_handlers s"
  have f: "?f \<in> set (sy_fetchers s)" using k by simp
  have ok: "sys_ok s" using assms(1) by (simp add: wakeups_ok_def)
  have ok': "sys_ok ?s" by (rule sys_ok_fetch [OF ok k quiet step])
  have same: "ix_seen i' = ix_seen ?i" "ix_coinCache i' = ix_coinCache ?i"
    using fetch_step_state(2,3) [OF step] by simp_all
  have wait: "wait_ok i' ?hs x" if g: "g \<in> set (sy_fetchers ?s)" "x \<in> set (ft_waits g)"
    and x: "wait_ok ?i ?hs x" for g x
  proof -
    obtain v' where v': "wt_Get (ix_waiter i') (ic_TxID x) = Some v'"
      using waited_entry [OF ok' g] by auto
    moreover have "wte_channelClosed v'" if "wt_Get (ix_waiter ?i) (ic_TxID x) = Some v" "wte_channelClosed v" for v
      using fetch_step_closed [OF _ _ quiet step that(1) v'] that(2) ok f by (simp add: sys_ok_def)
    ultimately show ?thesis using x by (auto simp: wait_ok_def is_closed_def same split: option.splits)
  qed
  have old: "window_ok ?i ?hs g" "x \<in> set (ft_waits g) \<Longrightarrow> x \<in> X \<Longrightarrow> wait_ok ?i ?hs x"
    if "g \<in> set (sy_fetchers s)" for g x
    using that assms(1) by (simp_all add: wakeups_ok_def)
  have "window_ok i' ?hs f'"
    by (rule window_ok_cong [OF window_fetch [OF old(1) [OF f] step] same])
  moreover have "wait_ok ?i ?hs x" if x: "x \<in> set (ft_waits f')" "x \<in> X" for x
  proof (cases "x \<in> set (ft_waits ?f)")
    case True
    with old(2) [OF f] x(2) show ?thesis by blast
  next
    case False
    with fetch_step_joined [OF step x(1)] obtain rest h where
      "ft_pc ?f = PcRegister (x # rest) (ix_seen ?i) h" by blast
    with old(1) [OF f] show ?thesis by (force simp: window_ok_def wait_ok_def)
  qed
  ultimately show ?thesis
    using wait old window_ok_cong [OF old(1) same] ok' assms(1)
      set_update_subset_insert [of "sy_fetchers s" k f']
    by (auto simp: wakeups_ok_def)
qed

lemma window_handle:
  assumes ch: "chan_ok i" "\<not> wt_locked (ix_waiter i)" and h: "k < length hs"
    and step: "handler_step S A (hs ! k) i = Some (h', i')" and w: "window_ok i hs f"
    and bound: "unat (ix_seen i) + 1 < 2 ^ 64"
  shows "window_ok i' (hs[k := h']) f"
proof (cases "\<exists>blk. hs ! k = HSeenCount blk")
  case True
  then have "ix_seen i' = ix_seen i + 1" using handler_step_state(3) [OF ch step] by auto
  then have "unat (ix_seen i') = unat (ix_seen i) + 1" using bound by (simp add: unat_word_ariths)
  with w show ?thesis by (auto simp: window_ok_def split: fetch_pc.splits)
next
  case False
  then have seen: "ix_seen i' = ix_seen i"
    using handler_step_state(3) [OF ch step] by (auto split: handler.splits)
  have keep: "HSeenCount blk \<in> set (hs[k := h'])" if "HSeenCount blk \<in> set hs" for blk
    using that False h by (metis in_set_conv_nth length_list_update nth_list_update_neq)
  have new: "h' \<in> set (hs[k := h'])" using h by (simp add: set_update_memI)
  have "\<exists>blk. HSeenCount blk \<in> set (hs[k := h']) \<and> creates blk b"
    if "ix_coinCache i' b \<noteq> None"
      and "ix_coinCache i b \<noteq> None \<Longrightarrow> \<exists>blk. HSeenCount blk \<in> set hs \<and> creates blk b" for b
    using handler_step_grows [OF ch step that(1)] that(2) keep new by blast
  with w seen show ?thesis by (simp add: window_ok_def split: fetch_pc.splits)
qed

lemma wait_handle:
  assumes ch: "chan_ok i" "\<not> wt_locked (ix_waiter i)" and h: "k < length hs"
    and step: "handler_step S A (hs ! k) i = Some (h', i')" and w: "wait_ok i hs x"
    and key: "keyed X (hs ! k)" "x \<in> X" and v: "wt_Get (ix_waiter i) (ic_TxID x) = Some v"
  shows "wait_ok i' (hs[k := h']) x"
proof -
  obtain v' where v': "wt_Get (ix_waiter i') (ic_TxID x) = Some v'"
      "wte_channelClosed v \<longrightarrow> wte_channelClosed v'"
      "\<And>blk. hs ! k = HSeenWake blk \<Longrightarrow> ic_TxID x \<in> set (tx_hashes blk) \<Longrightarrow> wte_channelClosed v'"
    using handler_step_closed [OF ch step v] by blast
  have new: "h' \<in> set (hs[k := h'])" using h by (simp add: set_update_memI)
  have "wait_ok i' (hs[k := h']) x" if p: "g \<in> set hs" "wake_pending (ic_InputID x) g" for g
  proof (cases "g = hs ! k")
    case True
    with wake_pending_next [OF _ step] p(2) consider "wake_pending (ic_InputID x) h'"
      | blk where "hs ! k = HSeenWake blk" by blast
    then show ?thesis
    proof cases
      case 1
      with new show ?thesis by (auto simp: wait_ok_def)
    next
      case (2 blk)
      with key True p(2) have "ic_TxID x \<in> set (tx_hashes blk)" by (simp add: keyed_block_def)
      with v' 2 show ?thesis by (simp add: wait_ok_def is_closed_def)
    qed
  next
    case False
    with p(1) have "g \<in> set (hs[k := h'])"
      by (metis in_set_conv_nth length_list_update nth_list_update_neq)
    with p(2) show ?thesis by (auto simp: wait_ok_def)
  qed
  moreover have "wait_ok i' (hs[k := h']) x" if "ix_coinCache i (ic_InputID x) = None"
    using handler_step_grows [OF ch step, of "ic_InputID x"] that new by (force simp: wait_ok_def)
  moreover have "wait_ok i' (hs[k := h']) x" if "is_closed (ix_waiter i) (ic_TxID x)"
    using that v v' by (simp add: wait_ok_def is_closed_def)
  ultimately show ?thesis using w by (auto simp: wait_ok_def [of i hs x])
qed

lemma wakeups_handle:
  assumes "wakeups_ok X s" and k: "k < length (sy_handlers s)"
    and step: "handler_step S A (sy_handlers s ! k) (sy_ix s) = Some (h', i')"
    and bound: "unat (ix_seen (sy_ix s)) + 1 < 2 ^ 64"
  shows "wakeups_ok X (s\<lparr>sy_ix := i', sy_handlers := (sy_handlers s)[k := h']\<rparr>)"
proof -
  have ok: "sys_ok s" using assms(1) by (simp add: wakeups_ok_def)
  then have ch: "chan_ok (sy_ix s)" "\<not> wt_locked (ix_waiter (sy_ix s))" by (simp_all add: sys_ok_def)
  have key: "keyed X (sy_handlers s ! k)" using assms(1) k by (simp add: wakeups_ok_def)
  have "wait_ok i' ((sy_handlers s)[k := h']) x"
    if "f \<in> set (sy_fetchers s)" "x \<in> set (ft_waits f)" "x \<in> X" for f x
    using waited_entry [OF ok that(1,2)] wait_handle [OF ch k step _ key that(3)] that assms(1)
    by (metis IntI wakeups_ok_def)
  moreover have "window_ok i' ((sy_handlers s)[k := h']) f" if "f \<in> set (sy_fetchers s)" for f
    using window_handle [OF ch k step _ bound] that assms(1) by (simp add: wakeups_ok_def)
  ultimately show ?thesis
    using sys_ok_handler [OF ok step] keyed_next [OF key step] assms(1)
      set_update_subset_insert [of "sy_handlers s" k h']
    by (auto simp: wakeups_ok_def)
qed

section \<open>Runs\<close>

lemma window_ok_call: "window_ok i hs f \<Longrightarrow> window_ok i (hs @ [h]) f"
  by (auto simp: window_ok_def split: fetch_pc.splits)

lemma wait_ok_call: "wait_ok i hs x \<Longrightarrow> wait_ok i (hs @ [h]) x"
  by (auto simp: wait_ok_def)

lemma wakeups_call:
  "wakeups_ok X s \<Longrightarrow> keyed X h \<Longrightarrow> wakeups_ok X (s\<lparr>sy_handlers := sy_handlers s @ [h]\<rparr>)"
  by (auto simp: wakeups_ok_def sys_ok_def intro: window_ok_call wait_ok_call)

lemma wakeups_move:
  assumes "wakeups_ok X s" and quiet: "\<And>db p. st_GetHead A db \<noteq> Panic p"
    and key: "\<And>blk. m = MSeen blk \<Longrightarrow> keyed_block X blk"
    and bound: "unat (ix_seen (sy_ix s)) + 1 < 2 ^ 64"
    and move: "do_move S A cfg m s = Some s'"
  shows "wakeups_ok X s'"
proof (cases m)
  case (MFetch k ctx)
  with move assms(1) quiet show ?thesis
    by (auto simp: do_move_def split: if_splits option.splits intro: wakeups_fetch)
next
  case (MHandle k)
  with move assms(1) bound show ?thesis
    by (auto simp: do_move_def split: if_splits option.splits intro: wakeups_handle)
next
  case (MBlock blk coins)
  have "window_ok i hs (new_fetcher blk coins)" "ft_waits (new_fetcher blk coins) = []" for i hs
    by (simp_all add: window_ok_def new_fetcher_def ft_waits_def)
  with MBlock move assms(1) show ?thesis by (auto simp: do_move_def wakeups_ok_def sys_ok_def)
qed (use move assms(1) key in \<open>auto simp: do_move_def intro!: wakeups_call\<close>)

lemma move_counts:
  assumes "sys_ok s" and move: "do_move S A cfg m s = Some s'"
    and bound: "unat (ix_seen (sy_ix s)) + 1 < 2 ^ 64"
  shows "unat (ix_seen (sy_ix s')) \<le> unat (ix_seen (sy_ix s)) + 1"
proof (cases m)
  case (MFetch k ctx)
  with move show ?thesis
    by (auto simp: do_move_def split: if_splits option.splits dest: fetch_step_state(3))
next
  case (MHandle k)
  with move obtain h' i' where step: "handler_step S A (sy_handlers s ! k) (sy_ix s) = Some (h', i')"
    and s': "sy_ix s' = i'" by (auto simp: do_move_def split: if_splits option.splits)
  have ch: "chan_ok (sy_ix s)" "\<not> wt_locked (ix_waiter (sy_ix s))"
    using assms(1) by (simp_all add: sys_ok_def)
  show ?thesis
    using handler_step_state(3) [OF ch step] bound
    by (cases "sy_handlers s ! k") (simp_all add: s' unat_word_ariths)
qed (use move in \<open>auto simp: do_move_def\<close>)

lemma wakeups_run:
  assumes quiet: "\<And>db p. st_GetHead A db \<noteq> Panic p"
  shows "run_schedule S A cfg ms s = Some s' \<Longrightarrow> wakeups_ok X s \<Longrightarrow>
    (\<And>blk. MSeen blk \<in> set ms \<Longrightarrow> keyed_block X blk) \<Longrightarrow>
    unat (ix_seen (sy_ix s)) + length ms < 2 ^ 64 \<Longrightarrow> wakeups_ok X s'"
proof (induction ms arbitrary: s)
  case (Cons m ms)
  from Cons.prems(1) obtain t where t: "do_move S A cfg m s = Some t"
    and r: "run_schedule S A cfg ms t = Some s'" by (auto split: option.splits)
  have b: "unat (ix_seen (sy_ix s)) + 1 < 2 ^ 64" using Cons.prems(4) by simp
  have "wakeups_ok X t"
    by (rule wakeups_move [OF Cons.prems(2) quiet _ b t]) (use Cons.prems(3) in simp)
  moreover have "unat (ix_seen (sy_ix t)) \<le> unat (ix_seen (sy_ix s)) + 1"
    by (rule move_counts [OF _ t b]) (use Cons.prems(2) in \<open>simp add: wakeups_ok_def\<close>)
  ultimately show ?case using Cons.IH [OF r] Cons.prems(3,4) by simp
qed simp

lemma wakeups_run_init:
  assumes "run_schedule S A cfg ms (sys_init db) = Some s" and "\<And>db p. st_GetHead A db \<noteq> Panic p"
    and "length ms < 2 ^ 64" and "\<And>blk. MSeen blk \<in> set ms \<Longrightarrow> keyed_block X blk"
  shows "wakeups_ok X s"
  by (rule wakeups_run [OF assms(2,1) wakeups_ok_init assms(4)])
    (use assms(3) in \<open>simp_all add: sys_init_def InitIndexer_def\<close>)

lemma joined_in_window:
  assumes "window_ok i hs f" and "ft_pc f = PcRegister (x # rest) n h"
    and "fst (findCoin_register S A key height n h i) = RgJoined"
    and "ix_coinCache i (ic_InputID x) \<noteq> None"
  shows "\<exists>blk. HSeenCount blk \<in> set hs \<and> creates blk (ic_InputID x)"
  using assms by (auto simp: window_ok_def findCoin_register_def split: go.splits if_splits)

section \<open>No wake-up is lost\<close>

text \<open>
  C15: In every run of fewer than \<open>2 ^ 64\<close> moves, if a search joins the wait table although its
  coin is already cached, a \<open>BlockSeen\<close> of a block that creates the coin has cached it and
  has not even counted it, so that its waking section comes after the join. And while
  a search waits for a coin under the hash of the transaction that creates it, and the coin
  is cached, its wait is closed, or a \<open>BlockSeen\<close> that created the coin is still on its way
  to wake it, or a handler has failed: with all handlers returned normally, no search
  sleeps on a cached coin.
\<close>

theorem no_lost_wakeup:
  assumes "run_schedule S A cfg ms (sys_init db) = Some s" and "length ms < 2 ^ 64"
    and "\<And>db p. st_GetHead A db \<noteq> Panic p" and "f \<in> set (sy_fetchers s)"
  shows "(\<forall>x rest n h. ft_pc f = PcRegister (x # rest) n h \<longrightarrow>
       fst (findCoin_register S A (ic_TxID x) (block_height (ft_block f)) n h (sy_ix s)) = RgJoined \<longrightarrow>
       ix_coinCache (sy_ix s) (ic_InputID x) \<noteq> None \<longrightarrow>
       (\<exists>blk. HSeenCount blk \<in> set (sy_handlers s) \<and> creates blk (ic_InputID x))) \<and>
    (\<forall>x \<in> set (ft_waits f).
       (\<forall>blk. MSeen blk \<in> set ms \<longrightarrow> creates blk (ic_InputID x) \<longrightarrow> ic_TxID x \<in> set (tx_hashes blk)) \<longrightarrow>
       ix_coinCache (sy_ix s) (ic_InputID x) \<noteq> None \<longrightarrow>
       is_closed (ix_waiter (sy_ix s)) (ic_TxID x) \<or>
       (\<exists>h \<in> set (sy_handlers s). wake_pending (ic_InputID x) h))"
proof (intro conjI allI ballI impI, goal_cases)
  case (1 x rest n h)
  have "wakeups_ok {} s"
    by (rule wakeups_run_init [OF assms(1,3,2)]) (simp add: keyed_block_def)
  with 1 assms(4) show ?case by (auto simp: wakeups_ok_def intro: joined_in_window)
next
  case (2 x)
  have "wakeups_ok {x} s"
    by (rule wakeups_run_init [OF assms(1,3,2)]) (use 2(2) in \<open>simp add: keyed_block_def\<close>)
  with 2(1,3) assms(4) show ?case by (auto simp: wakeups_ok_def wait_ok_def)
qed

text \<open>
  The instance: a search for \<open>g\<close> under \<open>t0\<close>, the transaction that creates it, looks into the
  cache; block 1 caches \<open>g\<close>; then the search joins, and the handler will wake it.
\<close>

definition window_moves :: "move list" where
  "window_moves = MBlock (Some sample_block) [\<lparr>ic_TxID = ''t0'', ic_InputID = ''g''\<rparr>] #
     replicate 4 (MFetch 0 None) @ [MSeen block1, MHandle 0, MFetch 0 None]"

lemma window_runs:
  "(case run_schedule sdk_ref sample_storage sample_cfg window_moves (sys_init sample_db0) of
      None \<Rightarrow> False
    | Some s \<Rightarrow> length (sy_fetchers s) = 1 \<and>
        ft_waits (sy_fetchers s ! 0) = [\<lparr>ic_TxID = ''t0'', ic_InputID = ''g''\<rparr>] \<and>
        (case ix_coinCache (sy_ix s) ''g'' of None \<Rightarrow> False | Some c \<Rightarrow> True) \<and>
        \<not> is_closed (ix_waiter (sy_ix s)) ''t0'')"
  by code_simp

theorem no_lost_wakeup_witness:
  "\<exists>s. run_schedule sdk_ref sample_storage sample_cfg window_moves (sys_init sample_db0) = Some s \<and>
     \<not> is_closed (ix_waiter (sy_ix s)) ''t0'' \<and> (\<exists>h \<in> set (sy_handlers s). wake_pending ''g'' h)"
proof -
  from window_runs obtain s where
    s: "run_schedule sdk_ref sample_storage sample_cfg window_moves (sys_init sample_db0) = Some s"
    and one: "length (sy_fetchers s) = 1"
    and w: "ft_waits (sy_fetchers s ! 0) = [\<lparr>ic_TxID = ''t0'', ic_InputID = ''g''\<rparr>]"
    and c: "ix_coinCache (sy_ix s) ''g'' \<noteq> None" "\<not> is_closed (ix_waiter (sy_ix s)) ''t0''"
    by (auto split: option.splits)
  have f: "sy_fetchers s ! 0 \<in> set (sy_fetchers s)" using one by simp
  have len: "length window_moves < 2 ^ 64" by (simp add: window_moves_def)
  have "''t0'' \<in> set (tx_hashes blk)" if "MSeen blk \<in> set window_moves" for blk
    using that by (auto simp: window_moves_def block1_def mk_rblock_def tx_hashes_def)
  with no_lost_wakeup [OF s len sample_quiet f] w s c show ?thesis by auto
qed

end
