(* ===== verification/Indexer_Ontime.thy ===== *)
theory Indexer_Ontime
  imports Indexer_Wakeups
begin

text \<open>
  Why no search sleeps past the block before its own: a search joins only while that block is
  not the head yet, the entry keeps the earliest of the heights it is due at, and adding the
  block before the earliest one aborts it. The invariant behind it, over every interleaving.
\<close>

section \<open>What is relied on\<close>

text \<open>The height of the head; before any block there is only what precedes block 1.\<close>

definition chain_head :: "'db storage_api \<Rightarrow> 'db \<Rightarrow> int" where
  "chain_head A db = (case st_GetHead A db of Ok h \<Rightarrow> sint (bi_Index h) | _ \<Rightarrow> 0)"

text \<open>
  The syncer adds the blocks in the order of the chain; the storage, in the states \<open>D\<close> it may
  be in, stands for both: it refuses a block that is not the next one, its head is the block
  added last, and neither seeing nor removing a block raises the head.
\<close>

definition chain_storage :: "'db storage_api \<Rightarrow> ('db \<Rightarrow> bool) \<Rightarrow> bool" where
  "chain_storage A D \<longleftrightarrow>
     (\<forall>db. D db \<longrightarrow>
       (\<forall>blk. D (snd (st_SeeBlock A blk db)) \<and>
          chain_head A (snd (st_SeeBlock A blk db)) \<le> chain_head A db) \<and>
       (\<forall>b. D (snd (st_RemoveBlock A b db)) \<and>
          chain_head A (snd (st_RemoveBlock A b db)) \<le> chain_head A db) \<and>
       (\<forall>blk. D (snd (st_AddBlock A blk db)) \<and>
          (chain_head A (snd (st_AddBlock A blk db)) \<le> chain_head A db \<or>
           fst (st_AddBlock A blk db) = Ok () \<and>
           chain_head A (snd (st_AddBlock A blk db)) = chain_head A db + 1 \<and>
           chain_head A (snd (st_AddBlock A blk db)) = sint (bi_Index (bk_BlockIdentifier blk)))))"

text \<open>
  A coin a block spends is stored once the block before it is the head: boxes are created in
  earlier blocks.
\<close>

definition in_time ::
  "'db storage_api \<Rightarrow> ('db \<Rightarrow> bool) \<Rightarrow> full_block option \<Rightarrow> string \<Rightarrow> bool"
where
  "in_time A D blk b \<longleftrightarrow>
     (\<forall>db e. D db \<longrightarrow> sint (block_height blk) \<le> chain_head A db + 1 \<longrightarrow>
        st_GetCoin A db \<lparr>ci_Identifier = b\<rparr> = Err e \<longrightarrow> \<not> errors_Is e ErrCoinNotFound)"

text \<open>The hash of an identifier, which the code compares instead of the identifier, tells the index.\<close>

definition hash_tells :: "sdk \<Rightarrow> bool" where
  "hash_tells S \<longleftrightarrow>
     (\<forall>a b. HashBlockID S (Some a) = HashBlockID S b \<longrightarrow> (\<exists>c. b = Some c \<and> bi_Index c = bi_Index a))"

section \<open>A fetcher on time\<close>

definition due :: "fetcher \<Rightarrow> int" where
  "due f = sint (block_height (ft_block f))"

definition timely :: "'db storage_api \<Rightarrow> ('db \<Rightarrow> bool) \<Rightarrow> fetcher \<Rightarrow> bool" where
  "timely A D f \<longleftrightarrow> (\<forall>x \<in> set (ft_pending f). in_time A D (ft_block f) (ic_InputID x))"

text \<open>
  Between reading the snapshot and joining, the head read is below the block before its own.
\<close>

definition snap_before :: "block_identifier option \<Rightarrow> int \<Rightarrow> bool" where
  "snap_before h e \<longleftrightarrow> (\<forall>b. h = Some b \<longrightarrow> sint (bi_Index b) + 1 < e)"

definition snap_ok :: "fetcher \<Rightarrow> bool" where
  "snap_ok f \<longleftrightarrow>
     (case ft_pc f of
        PcRead todo n \<Rightarrow> todo \<noteq> []
      | PcSleep todo \<Rightarrow> todo \<noteq> []
      | PcCache todo n h \<Rightarrow> todo \<noteq> [] \<and> snap_before h (due f)
      | PcRegister todo n h \<Rightarrow> todo \<noteq> [] \<and> snap_before h (due f)
      | _ \<Rightarrow> True)"

lemma fetch_step_due: "fetch_step S A cfg ctx f i = Some (f', i') \<Longrightarrow> due f' = due f"
  by (simp add: due_def fetch_step_block)

lemma pending_shrinks:
  assumes step: "fetch_step S A cfg ctx f i = Some (f', i')"
  shows "set (ft_pending f') \<subseteq> set (ft_pending f)"
  using step
  by (cases rule: fetch_stepE)
    (auto simp: step_enter_def step_loop_def step_read_def step_cache_def step_register_def step_get_def
      step_await_def step_leave_def ft_pending_def end_defs
      split: go.splits list.splits option.splits read_result.splits register_result.splits prod.splits if_splits)

lemma timely_step: "timely A D f \<Longrightarrow> fetch_step S A cfg ctx f i = Some (f', i') \<Longrightarrow> timely A D f'"
  using pending_shrinks fetch_step_block unfolding timely_def by (metis subsetD)

lemma read_missing:
  assumes "timely A D f" and "D db" and "ft_pc f = PcRead (x # rest) n"
    and "findCoin_read A g db (ic_InputID x) = RdMissing h"
  shows "snap_before h (due f)"
  unfolding snap_before_def
proof (intro allI impI)
  fix b assume "h = Some b"
  with assms(4) obtain e where "st_GetHead A db = Ok b"
      "st_GetCoin A db \<lparr>ci_Identifier = ic_InputID x\<rparr> = Err e" "errors_Is e ErrCoinNotFound"
    by (auto simp: findCoin_read_def read_coin_def split: go.splits if_splits)
  moreover have "in_time A D (ft_block f) (ic_InputID x)"
    using assms(1,3) by (simp add: timely_def ft_pending_def)
  ultimately show "sint (bi_Index b) + 1 < due f"
    using assms(2) by (force simp: in_time_def chain_head_def due_def)
qed

lemma snap_fetch:
  assumes "snap_ok f" and "timely A D f" and "D (ix_db i)"
    and step: "fetch_step S A cfg ctx f i = Some (f', i')"
  shows "snap_ok f'"
  using step
proof (cases rule: fetch_stepE)
  case (read x rest n)
  have "due (f\<lparr>ft_pc := pc\<rparr>) = due f" for pc by (simp add: due_def)
  with read read_missing [OF assms(2,3) read(1)] show ?thesis
    by (auto simp: step_read_def snap_ok_def end_defs split: read_result.splits)
next
  case (cache x rest n h)
  with assms(1) show ?thesis by (auto simp: step_cache_def snap_ok_def end_defs due_def split: option.splits)
qed (auto simp: step_enter_def step_loop_def step_register_def step_get_def step_await_def step_leave_def
      snap_ok_def end_defs
      split: go.splits list.splits option.splits register_result.splits prod.splits if_splits)

section \<open>The entries\<close>

text \<open>
  A handler that has added the block before \<open>e\<close> and has yet to abort the waits due at \<open>e\<close>.
\<close>

fun aborting :: "int64 \<Rightarrow> handler \<Rightarrow> bool" where
  "aborting e (HAddUncache blk) = (bi_Index (bk_BlockIdentifier blk) + 1 = e)"
| "aborting e (HAddAbort blk) = (bi_Index (bk_BlockIdentifier blk) + 1 = e)"
| "aborting e _ = False"

definition open_ok :: "'db storage_api \<Rightarrow> 'db indexer \<Rightarrow> handler list \<Rightarrow> bool" where
  "open_ok A i hs \<longleftrightarrow>
     (\<forall>k v. wt_Get (ix_waiter i) k = Some v \<longrightarrow> \<not> wte_channelClosed v \<longrightarrow>
        chain_head A (ix_db i) + 1 < sint (wte_earliestBlock v) \<or>
        (\<exists>h \<in> set hs. aborting (wte_earliestBlock v) h))"

lemma open_okD:
  "open_ok A i hs \<Longrightarrow> wt_Get (ix_waiter i) k = Some v \<Longrightarrow> \<not> wte_channelClosed v \<Longrightarrow>
     chain_head A (ix_db i) + 1 < sint (wte_earliestBlock v) \<or>
     (\<exists>h \<in> set hs. aborting (wte_earliestBlock v) h)"
  unfolding open_ok_def by blast

lemma open_ok_append: "open_ok A i hs \<Longrightarrow> open_ok A i (hs @ hs')"
  unfolding open_ok_def by (metis UnI1 set_append)

definition entries_due :: "wait_table \<Rightarrow> fetcher \<Rightarrow> bool" where
  "entries_due t f \<longleftrightarrow>
     (\<forall>x \<in> set (ft_waits f). \<forall>v. wt_Get t (ic_TxID x) = Some v \<longrightarrow> sint (wte_earliestBlock v) \<le> due f)"

lemma joined_earliest:
  "wte_earliestBlock (joined_entry e h ch) = h \<or>
   (\<exists>v. e = Some v \<and> wte_earliestBlock (joined_entry e h ch) = wte_earliestBlock v)"
  by (cases e) (auto simp: joined_entry_def Let_def)

text \<open>An entry after a step of a search: an old one, or one joined for the head looked at.\<close>

lemma fetch_step_entry:
  assumes "chan_ok i" and "awaits_ok (ix_waiter i) f" and quiet: "\<And>db p. st_GetHead A db \<noteq> Panic p"
    and step: "fetch_step S A cfg ctx f i = Some (f', i')"
    and v': "wt_Get (ix_waiter i') k = Some v'" "\<not> wte_channelClosed v'"
  shows "(\<exists>v. wt_Get (ix_waiter i) k = Some v \<and> \<not> wte_channelClosed v \<and>
       wte_earliestBlock v' = wte_earliestBlock v) \<or>
    wte_earliestBlock v' = block_height (ft_block f) \<and>
    (\<exists>x rest n snap head. ft_pc f = PcRegister (x # rest) n snap \<and> st_GetHead A (ix_db i) = Ok head \<and>
       HashBlockID S (Some head) = HashBlockID S snap)"
  using step
proof (cases rule: fetch_stepE)
  case (register x rest n snap)
  show ?thesis
  proof (cases "fst (findCoin_register S A (ic_TxID x) (block_height (ft_block f)) n snap i) = RgJoined")
    case True
    then have "wt_Get (ix_waiter i') = (wt_Get (ix_waiter i))(ic_TxID x \<mapsto>
        joined_entry (wt_Get (ix_waiter i) (ic_TxID x)) (block_height (ft_block f)) (ix_nextChan i))"
      and head: "\<exists>head. st_GetHead A (ix_db i) = Ok head \<and> HashBlockID S (Some head) = HashBlockID S snap"
      using register by (auto simp: step_register_def findCoin_register_def
          join_wait_Get [OF chan_ok_wf [OF assms(1)]] split: go.splits if_splits)
    then show ?thesis
      using v' register(1)
        joined_earliest [of "wt_Get (ix_waiter i) k" "block_height (ft_block f)" "ix_nextChan i"]
      by (auto simp: joined_entry_simps split: if_splits option.splits)
  next
    case False
    then have "ix_waiter i' = ix_waiter i"
      using register quiet by (auto simp: step_register_def findCoin_register_def split: go.splits if_splits)
    with v' show ?thesis by simp
  qed
next
  case (leave x rest)
  with assms(2) obtain v where v: "wt_Get (ix_waiter i) (ic_TxID x) = Some v"
    by (auto simp: awaits_ok_def split: option.splits)
  from leave_wait_Some [OF chan_ok_wf [OF assms(1)] v] leave(2) v v' show ?thesis
    by (auto simp: step_leave_def split: if_splits)
qed (use v' in simp_all)

text \<open>The entry of a search's key is never later than the search.\<close>

lemma fetch_step_earlier:
  assumes "chan_ok i" and "awaits_ok (ix_waiter i) f" and quiet: "\<And>db p. st_GetHead A db \<noteq> Panic p"
    and step: "fetch_step S A cfg ctx f i = Some (f', i')"
    and "wt_Get (ix_waiter i) k = Some v" and "wt_Get (ix_waiter i') k = Some v'"
  shows "sint (wte_earliestBlock v') \<le> sint (wte_earliestBlock v)"
  using assms(1-4)
proof (cases rule: fetch_step_table)
  case (join key h)
  with assms(5,6) show ?thesis by (auto simp: joined_entry_simps split: if_splits)
next
  case (leave x rest w)
  with assms(5,6) show ?thesis by (auto split: if_splits)
next
  case same
  with assms(5,6) show ?thesis by simp
qed

lemma joined_due:
  assumes "chan_ok i" and step: "fetch_step S A cfg ctx f i = Some (f', i')"
    and "ft_pc f = PcRegister (x # rest) n h" and "x \<in> set (ft_waits f')" and "x \<notin> set (ft_waits f)"
    and "wt_Get (ix_waiter i') (ic_TxID x) = Some v'"
  shows "sint (wte_earliestBlock v') \<le> due f"
  using step
proof (cases rule: fetch_stepE)
  case (register y rest' n' h')
  with assms(3-6) show ?thesis
    by (auto simp: step_register_def findCoin_register_def wait_views end_defs due_def joined_entry_simps
        join_wait_Get [OF chan_ok_wf [OF assms(1)]] split: go.splits if_splits option.splits)
qed (use assms(3) in simp_all)

section \<open>The invariant\<close>

definition ontime :: "'db storage_api \<Rightarrow> ('db \<Rightarrow> bool) \<Rightarrow> 'db sys \<Rightarrow> bool" where
  "ontime A D s \<longleftrightarrow>
     sys_ok s \<and> D (ix_db (sy_ix s)) \<and> open_ok A (sy_ix s) (sy_handlers s) \<and>
     (\<forall>f \<in> set (sy_fetchers s). snap_ok f \<and> timely A D f \<and> entries_due (ix_waiter (sy_ix s)) f)"

lemma ontime_init: "D db \<Longrightarrow> ontime A D (sys_init db)"
  using sys_ok_init [of db] by (simp add: ontime_def sys_init_def InitIndexer_def open_ok_def)

lemma snap_heads_differ:
  assumes "snap_ok f" and "ft_pc f = PcRegister todo n snap" and "hash_tells S"
    and "HashBlockID S (Some head) = HashBlockID S snap"
  shows "sint (bi_Index head) + 1 < due f"
proof -
  from assms(3,4) obtain c where "snap = Some c" "bi_Index c = bi_Index head"
    unfolding hash_tells_def by blast
  with assms(1,2) show ?thesis by (auto simp: snap_ok_def snap_before_def)
qed

lemma open_ok_fetch:
  assumes "open_ok A i hs" and "chan_ok i" and "awaits_ok (ix_waiter i) f"
    and quiet: "\<And>db p. st_GetHead A db \<noteq> Panic p"
    and step: "fetch_step S A cfg ctx f i = Some (f', i')" and "snap_ok f" and "hash_tells S"
  shows "open_ok A i' hs"
  unfolding open_ok_def fetch_step_state(1) [OF step]
proof (intro allI impI)
  fix k v assume v: "wt_Get (ix_waiter i') k = Some v" "\<not> wte_channelClosed v"
  from fetch_step_entry [OF assms(2,3) quiet step v]
  show "chain_head A (ix_db i) + 1 < sint (wte_earliestBlock v) \<or> (\<exists>h \<in> set hs. aborting (wte_earliestBlock v) h)"
  proof (elim disjE exE conjE)
    fix x rest n snap head
    assume "wte_earliestBlock v = block_height (ft_block f)" and "st_GetHead A (ix_db i) = Ok head"
      and "ft_pc f = PcRegister (x # rest) n snap" and "HashBlockID S (Some head) = HashBlockID S snap"
    with snap_heads_differ [OF assms(6) _ assms(7)] show ?thesis by (simp add: chain_head_def due_def)
  qed (use open_okD [OF assms(1)] in auto)
qed

text \<open>What a handler does to an entry that stays open.\<close>

lemma handler_step_entry:
  assumes "chan_ok i" and "\<not> wt_locked (ix_waiter i)" and step: "handler_step S A h i = Some (h', i')"
    and "wt_Get (ix_waiter i') k = Some v'"
  shows "\<exists>v. wt_Get (ix_waiter i) k = Some v \<and> wte_earliestBlock v' = wte_earliestBlock v \<and>
    (\<not> wte_channelClosed v' \<longrightarrow> \<not> wte_channelClosed v)"
  using assms(1-3)
proof (cases rule: handler_step_table)
  case (wake blk)
  with assms(4) show ?thesis by (auto simp: retagged_def wake_entry_def split: if_splits)
next
  case (abort blk)
  with assms(4) show ?thesis by (auto simp: retagged_def abort_stale_def split: if_splits)
qed (use assms(4) in simp)

lemma aborting_next:
  assumes "chan_ok i" and "\<not> wt_locked (ix_waiter i)" and step: "handler_step S A h i = Some (h', i')"
    and "aborting (wte_earliestBlock v') h" and "wt_Get (ix_waiter i') k = Some v'" "\<not> wte_channelClosed v'"
  shows "aborting (wte_earliestBlock v') h'"
proof (cases h)
  case (HAddUncache blk)
  with step assms(4) show ?thesis by (auto simp: handler_step_def BlockAdded_uncache_def after_section_def)
next
  case (HAddAbort blk)
  obtain j where "BlockAdded_abort blk i = (Ok (), j)" "retagged (abort_stale blk UNIV) i j"
    using BlockAdded_abort_ok [OF assms(1,2)] by blast
  then have "retagged (abort_stale blk UNIV) i i'"
    using HAddAbort step assms(2) by (simp add: handler_step_def)
  then obtain v where "v' = abort_stale blk UNIV k v"
    using assms(5) by (auto simp: retagged_def)
  with assms(6) have "v' = v" "\<not> stale blk v" by (simp_all add: abort_stale_def split: if_splits)
  with HAddAbort assms(4,6) have False by (simp add: stale_def)
  then show ?thesis ..
qed (use assms(4) in simp_all)

text \<open>The head only rises by adding the next block, whose handler then is about to abort.\<close>

lemma handler_step_head:
  assumes "chan_ok i" and "\<not> wt_locked (ix_waiter i)" and step: "handler_step S A h i = Some (h', i')"
    and "chain_storage A D" and "D (ix_db i)"
  shows "D (ix_db i')"
    and "chain_head A (ix_db i') \<le> chain_head A (ix_db i) \<or>
      (\<exists>blk. h' = HAddUncache blk \<and> chain_head A (ix_db i') = chain_head A (ix_db i) + 1 \<and>
         chain_head A (ix_db i') = sint (bi_Index (bk_BlockIdentifier blk)))"
proof -
  show "D (ix_db i')"
    using assms(4,5) by (cases h) (simp_all add: handler_step_state [OF assms(1-3)] chain_storage_def)
  show "chain_head A (ix_db i') \<le> chain_head A (ix_db i) \<or>
      (\<exists>blk. h' = HAddUncache blk \<and> chain_head A (ix_db i') = chain_head A (ix_db i) + 1 \<and>
         chain_head A (ix_db i') = sint (bi_Index (bk_BlockIdentifier blk)))"
  proof (cases h)
    case (HAddStore blk)
    have "h' = HAddUncache blk" if "fst (st_AddBlock A blk (ix_db i)) = Ok ()"
      using that step HAddStore
      by (cases "st_AddBlock A blk (ix_db i)")
        (auto simp: handler_step_def BlockAdded_store_def with_db_def smap_err_def after_section_def)
    with HAddStore assms(4,5) show ?thesis
      by (auto simp: handler_step_state(1) [OF assms(1-3)] chain_storage_def)
  qed (use assms(4,5) in \<open>simp_all add: handler_step_state(1) [OF assms(1-3)] chain_storage_def\<close>)
qed

lemma open_ok_handle:
  assumes "open_ok A i hs" and ch: "chan_ok i" "\<not> wt_locked (ix_waiter i)" and k: "k < length hs"
    and step: "handler_step S A (hs ! k) i = Some (h', i')"
    and "chain_storage A D" and "D (ix_db i)"
  shows "open_ok A i' (hs[k := h'])"
  unfolding open_ok_def
proof (intro allI impI)
  fix key v' assume v': "wt_Get (ix_waiter i') key = Some v'" "\<not> wte_channelClosed v'"
  let ?e = "wte_earliestBlock v'"
  from handler_step_entry [OF ch step v'(1)] v'(2) obtain v where
    "wt_Get (ix_waiter i) key = Some v" "?e = wte_earliestBlock v" "\<not> wte_channelClosed v" by blast
  with open_okD [OF assms(1)]
  have "chain_head A (ix_db i) + 1 < sint ?e \<or> (\<exists>h \<in> set hs. aborting ?e h)" by simp
  then show "chain_head A (ix_db i') + 1 < sint ?e \<or> (\<exists>h \<in> set (hs[k := h']). aborting ?e h)"
  proof
    assume before: "chain_head A (ix_db i) + 1 < sint ?e"
    have "aborting ?e (HAddUncache blk)"
      if "sint ?e = sint (bi_Index (bk_BlockIdentifier blk)) + 1" for blk
    proof -
      have "?e = of_int (sint ?e)" by simp
      also have "\<dots> = bi_Index (bk_BlockIdentifier blk) + 1" unfolding that by simp
      finally have "?e = bi_Index (bk_BlockIdentifier blk) + 1" .
      then show ?thesis by simp
    qed
    with handler_step_head(2) [OF ch step assms(6,7)] before set_update_memI [OF k, of h']
    show ?thesis by (cases "chain_head A (ix_db i') + 1 = sint ?e") force+
  next
    assume "\<exists>h \<in> set hs. aborting ?e h"
    then obtain j where j: "j < length hs" "aborting ?e (hs ! j)" by (auto simp: in_set_conv_nth)
    show ?thesis
    proof (cases "j = k")
      case True
      with j aborting_next [OF ch step _ v'] set_update_memI [OF k, of h'] show ?thesis by blast
    next
      case False
      with j have "hs ! j \<in> set (hs[k := h'])" by (metis length_list_update nth_list_update_neq nth_mem)
      with j(2) show ?thesis by blast
    qed
  qed
qed

lemma ontime_fetch:
  assumes "ontime A D s" and k: "k < length (sy_fetchers s)" and quiet: "\<And>db p. st_GetHead A db \<noteq> Panic p"
    and "hash_tells S"
    and step: "fetch_step S A cfg ctx (sy_fetchers s ! k) (sy_ix s) = Some (f', i')"
  shows "ontime A D (s\<lparr>sy_ix := i', sy_fetchers := (sy_fetchers s)[k := f']\<rparr>)" (is "ontime A D ?s")
proof -
  let ?f = "sy_fetchers s ! k" and ?i = "sy_ix s"
  have f: "?f \<in> set (sy_fetchers s)" using k by simp
  have ok: "sys_ok s" and D: "D (ix_db ?i)" and old: "\<And>g. g \<in> set (sy_fetchers s) \<Longrightarrow>
      snap_ok g \<and> timely A D g \<and> entries_due (ix_waiter ?i) g"
    using assms(1) by (simp_all add: ontime_def)
  have ok': "sys_ok ?s" by (rule sys_ok_fetch [OF ok k quiet step])
  have ch: "chan_ok ?i" "awaits_ok (ix_waiter ?i) ?f" using ok f by (simp_all add: sys_ok_def)
  note earlier = fetch_step_earlier [OF ch quiet step]
  have entry: "entries_due (ix_waiter i') g" if g: "g \<in> set (sy_fetchers s)" for g
    unfolding entries_due_def
  proof (intro ballI allI impI)
    fix x v' assume x: "x \<in> set (ft_waits g)" and v': "wt_Get (ix_waiter i') (ic_TxID x) = Some v'"
    obtain v where v: "wt_Get (ix_waiter ?i) (ic_TxID x) = Some v" using waited_entry [OF ok g x] .
    with old [OF g] x have "sint (wte_earliestBlock v) \<le> due g" by (simp add: entries_due_def)
    with earlier [OF v v'] show "sint (wte_earliestBlock v') \<le> due g" by simp
  qed
  have "entries_due (ix_waiter i') f'"
    unfolding entries_due_def fetch_step_due [OF step]
  proof (intro ballI allI impI)
    fix x v' assume x: "x \<in> set (ft_waits f')" and v': "wt_Get (ix_waiter i') (ic_TxID x) = Some v'"
    show "sint (wte_earliestBlock v') \<le> due ?f"
    proof (cases "x \<in> set (ft_waits ?f)")
      case True
      with entry [OF f] v' show ?thesis by (simp add: entries_due_def)
    next
      case False
      with fetch_step_joined [OF step x] joined_due [OF ch(1) step _ x _ v'] show ?thesis by blast
    qed
  qed
  moreover have "snap_ok f'" "timely A D f'"
    using snap_fetch [where D = D, OF _ _ D step] timely_step [OF _ step] old [OF f] by blast+
  moreover have "open_ok A i' (sy_handlers s)"
    using open_ok_fetch [OF _ ch quiet step _ assms(4)] assms(1) old [OF f] by (simp add: ontime_def)
  ultimately show ?thesis
    using ok' D old entry set_update_subset_insert [of "sy_fetchers s" k f'] fetch_step_state(1) [OF step]
    by (auto simp: ontime_def)
qed

lemma ontime_handle:
  assumes "ontime A D s" and k: "k < length (sy_handlers s)" and "chain_storage A D"
    and step: "handler_step S A (sy_handlers s ! k) (sy_ix s) = Some (h', i')"
  shows "ontime A D (s\<lparr>sy_ix := i', sy_handlers := (sy_handlers s)[k := h']\<rparr>)"
proof -
  have ok: "sys_ok s" and D: "D (ix_db (sy_ix s))" and op: "open_ok A (sy_ix s) (sy_handlers s)"
    using assms(1) by (simp_all add: ontime_def)
  then have ch: "chan_ok (sy_ix s)" "\<not> wt_locked (ix_waiter (sy_ix s))" by (simp_all add: sys_ok_def)
  have "entries_due (ix_waiter i') g" if "g \<in> set (sy_fetchers s)" for g
    using assms(1) that handler_step_entry [OF ch step] by (fastforce simp: ontime_def entries_due_def)
  then show ?thesis
    using sys_ok_handler [OF ok step] handler_step_head(1) [OF ch step assms(3) D]
      open_ok_handle [OF op ch k step assms(3) D] assms(1) by (simp add: ontime_def)
qed

text \<open>A call of \<open>Block\<close> whose coins come in time.\<close>

definition in_time_move :: "'db storage_api \<Rightarrow> ('db \<Rightarrow> bool) \<Rightarrow> move \<Rightarrow> bool" where
  "in_time_move A D m \<longleftrightarrow>
     (\<forall>blk cs. m = MBlock blk cs \<longrightarrow> (\<forall>x \<in> set cs. in_time A D blk (ic_InputID x)))"

lemma ontime_move:
  assumes "ontime A D s" and "chain_storage A D" and "hash_tells S"
    and quiet: "\<And>db p. st_GetHead A db \<noteq> Panic p" and "in_time_move A D m"
    and move: "do_move S A cfg m s = Some s'"
  shows "ontime A D s'"
proof (cases m)
  case (MBlock blk cs)
  then have "timely A D (new_fetcher blk cs)"
    using assms(5) by (simp add: in_time_move_def timely_def new_fetcher_def ft_pending_def)
  moreover have "snap_ok (new_fetcher blk cs)" "entries_due t (new_fetcher blk cs)" for t
    by (simp_all add: snap_ok_def entries_due_def new_fetcher_def ft_waits_def)
  ultimately show ?thesis
    using MBlock move assms(1) by (auto simp: do_move_def ontime_def sys_ok_def)
next
  case (MFetch k ctx)
  with move assms(1,3) quiet show ?thesis
    by (auto simp: do_move_def split: if_splits option.splits intro: ontime_fetch)
next
  case (MHandle k)
  with move assms(1,2) show ?thesis
    by (auto simp: do_move_def split: if_splits option.splits intro: ontime_handle)
qed (use move assms(1) in \<open>auto simp: do_move_def ontime_def sys_ok_def intro: open_ok_append\<close>)

interpretation intime: run_invariant S A cfg "in_time_move A D"
  "\<lambda>s. quiet A \<and> chain_storage A D \<and> hash_tells S \<longrightarrow> ontime A D s" for S A cfg D
  by unfold_locales (auto simp: quiet_def intro: ontime_move)

text \<open>With all handlers returned, an entry due by the block after the head is closed.\<close>

lemma due_entry_closed:
  assumes "ontime A D s" and "f \<in> set (sy_fetchers s)" and "x \<in> set (ft_waits f)"
    and "\<And>h. h \<in> set (sy_handlers s) \<Longrightarrow> \<exists>r. h = HDone r"
    and "due f \<le> chain_head A (ix_db (sy_ix s)) + 1"
  shows "is_closed (ix_waiter (sy_ix s)) (ic_TxID x)"
proof -
  have "sys_ok s" using assms(1) by (simp add: ontime_def)
  then obtain v where v: "wt_Get (ix_waiter (sy_ix s)) (ic_TxID x) = Some v"
    using waited_entry assms(2,3) by blast
  with assms(1-3) have "sint (wte_earliestBlock v) \<le> due f" by (auto simp: ontime_def entries_due_def)
  moreover have "\<not> aborting e h" if "h \<in> set (sy_handlers s)" for e h using assms(4) [OF that] by auto
  moreover have "open_ok A (sy_ix s) (sy_handlers s)" using assms(1) by (simp add: ontime_def)
  ultimately have "wte_channelClosed v" using open_okD v assms(5) by fastforce
  with v show ?thesis by (simp add: is_closed_def)
qed

end
