(* ===== verification/Indexer_Progress.thy ===== *)
theory Indexer_Progress
  imports Indexer_Ontime
begin

text \<open>
  The search for the next block ends: once every handler has returned and the block before
  its own is the head, a search is never blocked and each of its steps brings it nearer to
  its end, by a cost that bounds the steps it still takes.
\<close>

section \<open>The cost of what is left of a search\<close>

text \<open>
  A coin still to look up costs two steps, one more where a stale lookup is repeated; a wait
  costs three, and the repeated search of the coins waited for finds them at once.
\<close>

definition wait_cost :: "fetcher \<Rightarrow> nat" where
  "wait_cost f = (let r = length (ft_remaining f) in if r = 0 then 1 else 5 * r + 4)"

definition search_cost :: "fetcher \<Rightarrow> nat" where
  "search_cost f =
     (case ft_pc f of
        PcEnter cs \<Rightarrow> 2 * length cs + 2
      | PcLoop todo \<Rightarrow> 2 * length todo + wait_cost f
      | PcRead todo n \<Rightarrow> 2 * length todo - 1 + wait_cost f
      | PcSleep todo \<Rightarrow> 2 * length todo + 1 + wait_cost f
      | PcCache todo n h \<Rightarrow> 2 * length todo + 2 + wait_cost f
      | PcRegister todo n h \<Rightarrow> 2 * length todo + 1 + wait_cost f
      | PcGet ws \<Rightarrow> 3 * length ws + 2 * length (ft_remaining f) + 3
      | PcAwait ws ch \<Rightarrow> 3 * length ws + 2 * length (ft_remaining f) + 2
      | PcLeave ws \<Rightarrow> 3 * length ws + 2 * length (ft_remaining f) + 1
      | PcReturn r \<Rightarrow> 0)"

lemma search_cost_zero: "search_cost f = 0 \<Longrightarrow> \<exists>r. ft_pc f = PcReturn r"
  by (auto simp: search_cost_def wait_cost_def Let_def split: fetch_pc.splits if_splits)

lemma ended_cost [simp]:
  "search_cost (ft_err f e) = 0" "search_cost (ft_panic f p) = 0" "search_cost (ft_fail f x e) = 0"
  by (simp_all add: search_cost_def end_defs)

text \<open>Such a search finds every coin it reads and never joins.\<close>

lemma reads_found:
  assumes "timely A D f" and "D db" and "ft_pc f = PcRead (x # rest) n"
    and "st_GetHead A db = Ok head" and "due f \<le> sint (bi_Index head) + 1"
  shows "\<nexists>h. findCoin_read A g db (ic_InputID x) = RdMissing h" and "findCoin_read A g db (ic_InputID x) \<noteq> RdSleep"
proof -
  have "snap_before (Some head) (due f) \<Longrightarrow> False" using assms(5) by (simp add: snap_before_def)
  moreover have "h = Some head" if "findCoin_read A g db (ic_InputID x) = RdMissing h" for h
    using that assms(4) by (auto simp: findCoin_read_def read_coin_def split: go.splits if_splits)
  ultimately show "\<nexists>h. findCoin_read A g db (ic_InputID x) = RdMissing h"
    using read_missing [OF assms(1,2,3)] by blast
  show "findCoin_read A g db (ic_InputID x) \<noteq> RdSleep"
    using assms(4) by (auto simp: findCoin_read_def read_coin_def split: go.splits if_splits)
qed

lemma search_cost_falls:
  assumes "snap_ok f" and "timely A D f" and "D (ix_db i)" and "hash_tells S"
    and head: "st_GetHead A (ix_db i) = Ok head" and "due f \<le> sint (bi_Index head) + 1"
    and step: "fetch_step S A cfg None f i = Some (f', i')"
  shows "search_cost f' < search_cost f"
  using step
proof (cases rule: fetch_stepE)
  case (read x rest n)
  with reads_found [OF assms(2,3) read(1) head assms(6)] show ?thesis
    by (cases "findCoin_read A (isGenesis cfg (ft_block f) = Ok True) (ix_db i) (ic_InputID x)")
      (auto simp: step_read_def search_cost_def wait_cost_def end_defs)
next
  case (register x rest n snap)
  have "HashBlockID S (Some head) \<noteq> HashBlockID S snap"
    using snap_heads_differ [OF assms(1) register(1) assms(4)] assms(6) by fastforce
  with register head show ?thesis
    by (auto simp: step_register_def findCoin_register_def search_cost_def wait_cost_def)
qed (auto simp: step_enter_def step_loop_def step_cache_def step_get_def step_await_def step_leave_def
      search_cost_def wait_cost_def Let_def end_defs
      split: go.splits list.splits option.splits prod.splits if_splits)

text \<open>And it is never blocked.\<close>

lemma never_blocked:
  assumes "ontime A D s" and f: "f \<in> set (sy_fetchers s)"
    and "\<And>h. h \<in> set (sy_handlers s) \<Longrightarrow> \<exists>r. h = HDone r"
    and "due f \<le> chain_head A (ix_db (sy_ix s)) + 1" and "\<nexists>r. ft_pc f = PcReturn r"
  shows "fetch_step S A cfg None f (sy_ix s) \<noteq> None"
proof -
  have ok: "chan_ok (sy_ix s)" "\<not> wt_locked (ix_waiter (sy_ix s))" "awaits_ok (ix_waiter (sy_ix s)) f"
    and snap: "snap_ok f"
    using assms(1) f by (simp_all add: ontime_def sys_ok_def)
  have "ch \<in> ix_closed (sy_ix s)" if pc: "ft_pc f = PcAwait ws ch" for ws ch
  proof -
    from ok(3) pc obtain x rest v where ws: "ws = x # rest"
      and v: "wt_Get (ix_waiter (sy_ix s)) (ic_TxID x) = Some v" "wte_channel v = ch"
      by (auto simp: awaits_ok_def split: list.splits option.splits)
    have "is_closed (ix_waiter (sy_ix s)) (ic_TxID x)"
      by (rule due_entry_closed [OF assms(1) f _ assms(3,4)]) (simp_all add: pc ws ft_waits_def)
    with v chan_ok_closed [OF ok(1) v(1)] show ?thesis by (simp add: is_closed_def)
  qed
  with assms(5) ok(2,3) snap show ?thesis
    by (auto simp: fetch_step_def step_await_def snap_ok_def awaits_ok_def Let_def
        split: fetch_pc.splits list.splits option.splits)
qed

lemma search_ends:
  assumes "ontime A D s" and "k < length (sy_fetchers s)" and quiet: "\<And>db p. st_GetHead A db \<noteq> Panic p"
    and tells: "hash_tells S" and "\<And>h. h \<in> set (sy_handlers s) \<Longrightarrow> \<exists>r. h = HDone r"
    and "st_GetHead A (ix_db (sy_ix s)) = Ok head" and "due (sy_fetchers s ! k) \<le> sint (bi_Index head) + 1"
    and "search_cost (sy_fetchers s ! k) \<le> n"
  shows "\<exists>f' i' r. run_fetcher_alone n S A cfg (sy_fetchers s ! k) (sy_ix s) = (f', i') \<and> ft_pc f' = PcReturn r"
  using assms(1,2,5-)
proof (induction n arbitrary: s)
  case 0
  then show ?case using search_cost_zero [of "sy_fetchers s ! k"] by simp
next
  case (Suc n)
  let ?f = "sy_fetchers s ! k" and ?i = "sy_ix s"
  show ?case
  proof (cases "\<exists>r. ft_pc ?f = PcReturn r")
    case True
    then show ?thesis by (auto simp: fetch_step_def)
  next
    case False
    have f: "?f \<in> set (sy_fetchers s)" using Suc.prems(2) by simp
    have now: "snap_ok ?f" "timely A D ?f" "D (ix_db ?i)" using Suc.prems(1) f by (simp_all add: ontime_def)
    obtain f' i' where step: "fetch_step S A cfg None ?f ?i = Some (f', i')"
      using never_blocked [OF Suc.prems(1) f Suc.prems(3) _ False] Suc.prems(4,5)
      by (fastforce simp: chain_head_def)
    let ?s = "s\<lparr>sy_ix := i', sy_fetchers := (sy_fetchers s)[k := f']\<rparr>"
    have "search_cost f' \<le> n"
      using search_cost_falls [where D = D, OF now tells Suc.prems(4,5) step] Suc.prems(6) by simp
    moreover have "ontime A D ?s" by (rule ontime_fetch [OF Suc.prems(1,2) quiet tells step])
    ultimately have "\<exists>g j r. run_fetcher_alone n S A cfg (sy_fetchers ?s ! k) (sy_ix ?s) = (g, j) \<and> ft_pc g = PcReturn r"
      by (intro Suc.IH) (use Suc.prems fetch_step_due [OF step] fetch_step_state(1) [OF step] in simp_all)
    with step Suc.prems(2) show ?thesis by simp
  qed
qed

section \<open>The search for the next block ends\<close>


text \<open>
  The instance: the sample storage taking only block 1 on top of block 0. The search for the
  sample block at height 2 joins while block 0 is the head; block 1 is added without having
  been seen, and its handler returns.
\<close>

definition one_block_storage :: "sample_db storage_api" where
  "one_block_storage = sample_storage\<lparr>st_AddBlock := (\<lambda>blk db.
     if blk = block1 \<and> map_option bi_Index (sd_head db) = Some 0
     then st_AddBlock sample_storage blk db else (Err (New ''not the next block''), db))\<rparr>"

definition one_block_state :: "sample_db \<Rightarrow> bool" where
  "one_block_state db \<longleftrightarrow>
     (case sd_head db of None \<Rightarrow> True | Some h \<Rightarrow> bi_Index h = 0 \<or> bi_Index h = 1 \<and> sd_coins db ''g'' \<noteq> None)"

lemma one_block_chain: "chain_storage one_block_storage one_block_state"
  unfolding chain_storage_def
  by (auto simp: one_block_storage_def one_block_state_def chain_head_def sample_storage_def block1_def
      mk_rblock_def mk_created_def block_operations_def sample_store_op_def split: option.splits)

lemma one_block_in_time: "in_time one_block_storage one_block_state (Some sample_block) ''g''"
  by (auto simp: in_time_def one_block_storage_def one_block_state_def chain_head_def sample_storage_def
      block_height_def sample_fields sample_header_def mk_header_def split: option.splits)

lemma sdk_ref_hash_tells: "hash_tells sdk_ref"
  unfolding hash_tells_def
proof (intro allI impI)
  have index: "takeWhile (\<lambda>c. c \<noteq> CHR '':'') (show_int z @ CHR '':'' # h) = show_int z" for z h
    using show_int_no_colon [of z] by (subst takeWhile_append2) auto
  fix a b assume h: "HashBlockID sdk_ref (Some a) = HashBlockID sdk_ref b"
  then obtain c where b: "b = Some c" by (cases b) (simp_all add: sdk_ref_def)
  with h have "show_int (sint (bi_Index a)) @ CHR '':'' # bi_Hash a = show_int (sint (bi_Index c)) @ CHR '':'' # bi_Hash c"
    by (simp add: sdk_ref_def)
  then have "show_int (sint (bi_Index a)) = show_int (sint (bi_Index c))"
    using index by metis
  with b show "\<exists>c. b = Some c \<and> bi_Index c = bi_Index a" by (metis show_int_inj signed_word_eqI)
qed

definition late_moves :: "move list" where
  "late_moves = wait_moves @ MAdded block1 # replicate 4 (MHandle 0)"

lemma late_runs:
  "(case run_schedule sdk_ref one_block_storage sample_cfg late_moves (sys_init sample_db0) of
      None \<Rightarrow> False
    | Some s \<Rightarrow> sy_handlers s = [HDone (Ok ())] \<and>
        map ft_awaits (sy_fetchers s) = [Some ([\<lparr>ic_TxID = ''t1'', ic_InputID = ''g''\<rparr>], 0)] \<and>
        map (\<lambda>f. block_height (ft_block f)) (sy_fetchers s) = [2] \<and> map search_cost (sy_fetchers s) = [7] \<and>
        st_GetHead one_block_storage (ix_db (sy_ix s)) = Ok \<lparr>bi_Index = 1, bi_Hash = ''h1''\<rparr>)"
  by code_simp


end
