(* ===== verification/Indexer_Ledger.thy ===== *)
theory Indexer_Ledger
  imports Indexer_Handlers Indexer_Props
begin

text \<open>
  The outcome of a search does not depend on the interleaving. On the chain a box identifier
  determines the box, so there is one ledger every stored coin and every seen block agree
  with; whatever the fetchers and handlers do in between, a search that returns coins
  returns the ledger's entries for exactly the identifiers it was asked for.
\<close>

section \<open>Agreeing with a ledger\<close>

definition of_ledger :: "(string \<rightharpoonup> account_coin) \<Rightarrow> string \<Rightarrow> account_coin \<Rightarrow> bool" where
  "of_ledger L k ac \<longleftrightarrow> L k = Some ac"

definition block_agrees :: "(string \<rightharpoonup> account_coin) \<Rightarrow> block \<Rightarrow> bool" where
  "block_agrees L blk \<longleftrightarrow>
     (\<forall>op \<in> set (block_operations blk). \<forall>k ac. created_coin op = Some (k, ac) \<longrightarrow> L k = Some ac)"

text \<open>
  What is relied on of the storage: in the states \<open>D\<close> it may be in it reads only coins of the
  ledger, and storing, seeing and removing blocks keeps it in such a state.
\<close>

definition keeps_ledger :: "'db storage_api \<Rightarrow> ('db \<Rightarrow> bool) \<Rightarrow> (string \<rightharpoonup> account_coin) \<Rightarrow> bool" where
  "keeps_ledger A D L \<longleftrightarrow>
     (\<forall>db. D db \<longrightarrow> reads_at A (of_ledger L) db) \<and>
     (\<forall>db blk. D db \<longrightarrow> block_agrees L blk \<longrightarrow>
        D (snd (st_SeeBlock A blk db)) \<and> D (snd (st_AddBlock A blk db))) \<and>
     (\<forall>db b. D db \<longrightarrow> D (snd (st_RemoveBlock A b db)))"

fun agrees :: "(string \<rightharpoonup> account_coin) \<Rightarrow> handler \<Rightarrow> bool" where
  "agrees L (HSeenCache blk) = block_agrees L blk"
| "agrees L (HSeenCount blk) = block_agrees L blk"
| "agrees L (HSeenStore blk) = block_agrees L blk"
| "agrees L (HAddStart blk) = block_agrees L blk"
| "agrees L (HAddStore blk) = block_agrees L blk"
| "agrees L _ = True"

text \<open>Negating the inputs leaves the created coins alone.\<close>

lemma ensure_op_created: "ensure_op S op = Ok op' \<Longrightarrow> created_coin op' = created_coin op"
  by (auto simp: ensure_op_def created_coin_def split: if_splits option.splits)

lemma ensured_operations:
  assumes "ensureNegativeValueInputs S blk = Ok blk'"
  shows "list_all2 (\<lambda>op op'. ensure_op S op = Ok op') (block_operations blk) (block_operations blk')"
proof -
  from assms obtain txs where blk': "blk' = blk\<lparr>bk_Transactions := txs\<rparr>"
    and "list_all2 (\<lambda>tx tx'. \<exists>ops. gmapM (ensure_op S) (tx_Operations tx) = Ok ops \<and>
       tx\<lparr>tx_Operations := ops\<rparr> = tx') (bk_Transactions blk) txs"
    by (auto simp: ensureNegativeValueInputs_def gmapM_Ok_iff)
  then have "list_all2 (list_all2 (\<lambda>op op'. ensure_op S op = Ok op'))
      (map tx_Operations (bk_Transactions blk)) (map tx_Operations txs)"
    by (auto simp: list_all2_map1 list_all2_map2 gmapM_Ok_iff elim!: list_all2_mono)
  then show ?thesis by (auto simp: block_operations_def blk' intro: concat_transfer [THEN rel_funD])
qed

lemma list_all2_source: "list_all2 R xs ys \<Longrightarrow> y \<in> set ys \<Longrightarrow> \<exists>x \<in> set xs. R x y"
  by (induction rule: list_all2_induct) auto

lemma ensured_agrees:
  assumes "ensureNegativeValueInputs S blk = Ok blk'" and "block_agrees L blk"
  shows "block_agrees L blk'"
  unfolding block_agrees_def
proof (intro ballI allI impI)
  fix op' k ac assume "op' \<in> set (block_operations blk')" and c: "created_coin op' = Some (k, ac)"
  with list_all2_source [OF ensured_operations [OF assms(1)]] obtain op
    where "op \<in> set (block_operations blk)" "ensure_op S op = Ok op'" by blast
  with c assms(2) show "L k = Some ac" by (auto simp: block_agrees_def dest: ensure_op_created)
qed

section \<open>The invariant\<close>

lemma cache_ops_agree:
  assumes "all_coins (of_ledger L) m" and "\<forall>op \<in> set ops. \<forall>k ac. created_coin op = Some (k, ac) \<longrightarrow> L k = Some ac"
  shows "all_coins (of_ledger L) (foldl cache_op m ops)"
  using assms
proof (induction ops arbitrary: m)
  case (Cons op ops)
  have "all_coins (of_ledger L) (cache_op m op)"
    using Cons.prems
    by (auto simp: cache_op_def cache_put_def all_coins_def of_ledger_def split: option.splits)
  with Cons show ?case by simp
qed simp

lemma add_start_agrees: "block_agrees L blk \<Longrightarrow> agrees L (add_start S blk)"
  by (cases "ensureNegativeValueInputs S blk") (simp_all add: add_start_def ensured_agrees)

lemma after_section_agrees: "agrees L next \<Longrightarrow> agrees L (fst (after_section r next))"
  by (cases r rule: go_cases_pair) (simp_all add: after_section_def)

lemma agrees_next:
  assumes "agrees L h" and "handler_step S A h i = Some (h', i')"
  shows "agrees L h'"
proof -
  have "h' = fst (the (handler_step S A h i))" using assms(2) by simp
  with assms show ?thesis
    by (cases h) (auto simp: handler_step_def add_start_agrees after_section_agrees split: if_splits)
qed

text \<open>What a section does to the database and to the cache.\<close>

lemma handler_step_agrees:
  assumes "chan_ok i" and "\<not> wt_locked (ix_waiter i)" and step: "handler_step S A h i = Some (h', i')"
    and "keeps_ledger A D L" and "agrees L h"
  shows "D (ix_db i) \<Longrightarrow> D (ix_db i')"
    and "all_coins (of_ledger L) (ix_coinCache i) \<Longrightarrow> all_coins (of_ledger L) (ix_coinCache i')"
proof -
  show "D (ix_db i')" if "D (ix_db i)"
    using assms(4,5) that by (cases h) (simp_all add: handler_step_state [OF assms(1-3)] keeps_ledger_def)
  show "all_coins (of_ledger L) (ix_coinCache i')" if "all_coins (of_ledger L) (ix_coinCache i)"
    using assms(5) that
    by (cases h) (simp_all add: handler_step_state [OF assms(1-3)] cache_ops_agree uncache_ops_coin_is
        block_agrees_def)
qed

definition ledger_ok :: "('db \<Rightarrow> bool) \<Rightarrow> (string \<rightharpoonup> account_coin) \<Rightarrow> 'db sys \<Rightarrow> bool" where
  "ledger_ok D L s \<longleftrightarrow>
     sys_ok s \<and> D (ix_db (sy_ix s)) \<and> all_coins (of_ledger L) (ix_coinCache (sy_ix s)) \<and>
     (\<forall>h \<in> set (sy_handlers s). agrees L h) \<and> (\<forall>f \<in> set (sy_fetchers s). found_ok (of_ledger L) f)"

lemma ledger_ok_init: "D db \<Longrightarrow> ledger_ok D L (sys_init db)"
  using sys_ok_init [of db] by (simp add: ledger_ok_def sys_init_def InitIndexer_def)

lemma ledger_ok_fetch:
  assumes "ledger_ok D L s" and "keeps_ledger A D L" and k: "k < length (sy_fetchers s)"
    and quiet: "\<And>db p. st_GetHead A db \<noteq> Panic p"
    and step: "fetch_step S A cfg ctx (sy_fetchers s ! k) (sy_ix s) = Some (f', i')"
  shows "ledger_ok D L (s\<lparr>sy_ix := i', sy_fetchers := (sy_fetchers s)[k := f']\<rparr>)"
proof -
  have ok: "sys_ok s" using assms(1) by (simp add: ledger_ok_def)
  have "found_ok (of_ledger L) (sy_fetchers s ! k)" using assms(1) k by (simp add: ledger_ok_def)
  then have "found_ok (of_ledger L) f'"
    using found_fetch_step [OF _ _ _ step] assms(1,2) by (simp add: ledger_ok_def keeps_ledger_def)
  then show ?thesis
    using sys_ok_fetch [OF ok k quiet step] assms(1) set_update_subset_insert [of "sy_fetchers s" k f']
    by (auto simp: ledger_ok_def fetch_step_state [OF step])
qed

lemma ledger_ok_handle:
  assumes "ledger_ok D L s" and keep: "keeps_ledger A D L" and k: "k < length (sy_handlers s)"
    and step: "handler_step S A (sy_handlers s ! k) (sy_ix s) = Some (h', i')"
  shows "ledger_ok D L (s\<lparr>sy_ix := i', sy_handlers := (sy_handlers s)[k := h']\<rparr>)"
proof -
  have ok: "sys_ok s" and ag: "agrees L (sy_handlers s ! k)"
    using assms(1) k by (simp_all add: ledger_ok_def)
  then have ch: "chan_ok (sy_ix s)" "\<not> wt_locked (ix_waiter (sy_ix s))" by (simp_all add: sys_ok_def)
  show ?thesis
    using sys_ok_handler [OF ok step] agrees_next [OF ag step] handler_step_agrees [OF ch step keep ag]
      assms(1) set_update_subset_insert [of "sy_handlers s" k h']
    by (auto simp: ledger_ok_def)
qed

definition agreeing :: "(string \<rightharpoonup> account_coin) \<Rightarrow> move \<Rightarrow> bool" where
  "agreeing L m \<longleftrightarrow> (\<forall>blk. m = MSeen blk \<or> m = MAdded blk \<longrightarrow> block_agrees L blk)"

lemma ledger_ok_move:
  assumes "ledger_ok D L s" and keep: "keeps_ledger A D L"
    and quiet: "\<And>db p. st_GetHead A db \<noteq> Panic p" and "agreeing L m"
    and move: "do_move S A cfg m s = Some s'"
  shows "ledger_ok D L s'"
proof (cases m)
  case (MBlock blk coins)
  have "found_ok (of_ledger L) (new_fetcher blk coins)"
    by (simp add: found_ok_def new_fetcher_def ft_pending_def)
  with MBlock move assms(1) show ?thesis by (auto simp: do_move_def ledger_ok_def sys_ok_def)
next
  case (MFetch k ctx)
  with move assms(1) keep quiet show ?thesis
    by (auto simp: do_move_def split: if_splits option.splits intro: ledger_ok_fetch)
next
  case (MHandle k)
  with move assms(1) keep show ?thesis
    by (auto simp: do_move_def split: if_splits option.splits intro: ledger_ok_handle)
qed (use move assms(1,4) in \<open>auto simp: do_move_def ledger_ok_def sys_ok_def agreeing_def\<close>)

interpretation ledger: run_invariant S A cfg "agreeing L"
  "\<lambda>s. quiet A \<and> keeps_ledger A D L \<longrightarrow> ledger_ok D L s" for S A cfg D L
  by unfold_locales (auto simp: quiet_def intro: ledger_ok_move)

section \<open>The result of a search\<close>

text \<open>
  C7: When the stored coins and the seen and added blocks agree with one ledger, a search
  that returns coins returns exactly the ledger's entries for the identifiers it was asked
  for, whatever the interleaving, so that two runs never disagree on the coins of a block.
\<close>

theorem search_follows_ledger:
  assumes "run_schedule S A cfg ms (sys_init db) = Some s" and "\<And>db p. st_GetHead A db \<noteq> Panic p"
    and "keeps_ledger A D L" and "D db"
    and "\<And>blk. MSeen blk \<in> set ms \<or> MAdded blk \<in> set ms \<Longrightarrow> block_agrees L blk"
    and "f \<in> set (sy_fetchers s)" and "ft_pc f = PcReturn (Ok m)"
  shows "m = L |` (ic_InputID ` set (ft_request f))"
proof -
  have "list_all (agreeing L) ms" using assms(5) by (auto simp: list_all_iff agreeing_def)
  from ledger.run [OF assms(1), where D = D and L = L, OF _ this] have "ledger_ok D L s"
    using ledger_ok_init [of D db L] assms(3,4) quietI [OF assms(2)] by blast
  then have "found_ok (of_ledger L) f" using assms(6) by (simp add: ledger_ok_def)
  then have dom: "dom m = ic_InputID ` set (ft_request f)" and "\<And>k ac. m k = Some ac \<Longrightarrow> L k = Some ac"
    using assms(7) by (simp_all add: found_ok_def ids_def all_coins_def of_ledger_def)
  then have "m k = (L |` dom m) k" for k
    by (cases "m k") (auto simp: restrict_map_def)
  then show ?thesis unfolding dom by blast
qed

text \<open>The instance: the sample storage, with the one coin block 1 creates as the ledger.\<close>

definition sample_ledger :: "string \<rightharpoonup> account_coin" where
  "sample_ledger = [''g'' \<mapsto> mk_coin ''addr'' ''g'' ''100'']"

definition stores_ledger :: "(string \<rightharpoonup> account_coin) \<Rightarrow> sample_db \<Rightarrow> bool" where
  "stores_ledger L db \<longleftrightarrow>
     (\<forall>k am owner. sd_coins db k = Some (am, owner) \<longrightarrow>
        L k = Some \<lparr>ac_Account = owner, ac_Coin = \<lparr>co_CoinIdentifier = \<lparr>ci_Identifier = k\<rparr>, co_Amount = am\<rparr>\<rparr>)"

lemma stores_ledger_op:
  assumes "stores_ledger L db" and "\<And>k ac. created_coin op = Some (k, ac) \<Longrightarrow> L k = Some ac"
  shows "stores_ledger L (sample_store_op db op)"
proof (cases "op_CoinChange op")
  case None
  with assms(1) show ?thesis by (simp add: sample_store_op_def)
next
  case (Some cc)
  obtain k where k: "cc_CoinIdentifier cc = \<lparr>ci_Identifier = k\<rparr>" by (cases "cc_CoinIdentifier cc")
  with assms Some show ?thesis
    by (auto simp: stores_ledger_def sample_store_op_def created_coin_def split: if_splits)
qed

lemma stores_ledger_ops:
  "stores_ledger L db \<Longrightarrow> \<forall>op \<in> set ops. \<forall>k ac. created_coin op = Some (k, ac) \<longrightarrow> L k = Some ac \<Longrightarrow>
   stores_ledger L (foldl sample_store_op db ops)"
proof (induction ops arbitrary: db)
  case (Cons op ops)
  have "stores_ledger L (sample_store_op db op)"
    by (rule stores_ledger_op) (use Cons.prems in auto)
  with Cons show ?case by simp
qed simp

lemma sample_keeps_ledger: "keeps_ledger sample_storage (stores_ledger L) L"
proof -
  have "reads_at sample_storage (of_ledger L) db" if "stores_ledger L db" for db
    using that by (auto simp: reads_at_def sample_storage_def of_ledger_def stores_ledger_def split: option.splits)
  moreover have "stores_ledger L (db\<lparr>sd_head := h\<rparr>) \<longleftrightarrow> stores_ledger L db" for db h
    by (simp add: stores_ledger_def)
  ultimately show ?thesis
    using stores_ledger_ops by (simp add: keeps_ledger_def block_agrees_def sample_storage_def)
qed

theorem search_follows_ledger_witness:
  "\<exists>s m. schedule_result found_moves = Some s \<and> ft_pc (sy_fetchers s ! 0) = PcReturn (Ok m) \<and>
     m ''g'' = Some (mk_coin ''addr'' ''g'' ''100'')"
proof -
  from runsE [OF found_runs] obtain s where s: "schedule_result found_moves = Some s"
    and c: "length (sy_fetchers s) = 1 \<and> has_found ''g'' (sy_fetchers s ! 0) \<and>
       map ic_InputID (ft_request (sy_fetchers s ! 0)) = [''g'']" .
  then have f: "sy_fetchers s ! 0 \<in> set (sy_fetchers s)" by simp
  from c obtain m where m: "ft_pc (sy_fetchers s ! 0) = PcReturn (Ok m)" by (auto simp: has_found_iff)
  have blocks: "block_agrees sample_ledger blk"
    if "MSeen blk \<in> set found_moves \<or> MAdded blk \<in> set found_moves" for blk
    using that by (auto simp: found_moves_def wake_moves_def wait_moves_def block_agrees_def block_operations_def
        block1_def block2_def mk_rblock_def created_coin_def mk_created_def sample_ledger_def mk_coin_def)
  have "stores_ledger sample_ledger sample_db1" by (simp add: stores_ledger_def sample_db1_def)
  from search_follows_ledger [OF s [unfolded schedule_result_def] sample_quiet sample_keeps_ledger this blocks f m]
  have "m = sample_ledger |` set (map ic_InputID (ft_request (sy_fetchers s ! 0)))" by simp
  with c have "m = sample_ledger |` {''g''}" by (elim conjE) simp
  with s m show ?thesis by (auto simp: sample_ledger_def)
qed

end
