(* ===== verification/Indexer_Fetch.thy ===== *)
theory Indexer_Fetch
  imports Indexer_Block Converter_Props
begin

text \<open>
  Fetching a block from end to end: a search whose coins are all stored or cached returns
  them after a bounded number of its own steps, without waiting, and \<open>Block\<close> then returns
  the converted block.
\<close>

section \<open>A search that need not wait\<close>

text \<open>The coin a lookup finds: in the database, or else in the cache.\<close>

definition coin_at :: "'db storage_api \<Rightarrow> 'db indexer \<Rightarrow> string \<Rightarrow> account_coin option" where
  "coin_at A i b =
     (case st_GetCoin A (ix_db i) \<lparr>ci_Identifier = b\<rparr> of
        Ok (coin, owner) \<Rightarrow> Some \<lparr>ac_Account = owner, ac_Coin = coin\<rparr>
      | Err e \<Rightarrow> if errors_Is e ErrCoinNotFound then ix_coinCache i b else None
      | Panic p \<Rightarrow> None)"

definition found_at :: "'db storage_api \<Rightarrow> 'db indexer \<Rightarrow> input_ctx list \<Rightarrow> string \<Rightarrow> account_coin option" where
  "found_at A i cs b = (if b \<in> ic_InputID ` set cs then coin_at A i b else None)"

lemma look_up_coin:
  assumes head: "st_GetHead A (ix_db i) = Ok head" and g: "isGenesis cfg (ft_block f) = Ok g"
    and pc: "ft_pc f = PcLoop (x # rest)" and c: "coin_at A i (ic_InputID x) = Some ac"
  shows "\<exists>n \<le> 3. \<forall>m. run_fetcher_alone (n + m) S A cfg f i =
    run_fetcher_alone m S A cfg
      (f\<lparr>ft_coinMap := (ft_coinMap f)(ic_InputID x \<mapsto> ac), ft_pc := PcLoop rest\<rparr>) i"
proof (cases "st_GetCoin A (ix_db i) \<lparr>ci_Identifier = ic_InputID x\<rparr>")
  case (Ok p)
  then show ?thesis
    using head g pc c
    by (intro exI [of _ 2]) (auto simp: numeral_2_eq_2 fetch_step_def step_loop_def step_read_def
        findCoin_read_def read_coin_def ft_found_def coin_at_def split: prod.splits)
next
  case (Err e)
  then have "errors_Is e ErrCoinNotFound" "ix_coinCache i (ic_InputID x) = Some ac"
    using c by (auto simp: coin_at_def split: if_splits)
  then show ?thesis
    using head g pc Err
    by (intro exI [of _ 3], cases ac) (auto simp: numeral_3_eq_3 fetch_step_def step_loop_def step_read_def
        step_cache_def findCoin_read_def read_coin_def ft_found_def)
next
  case (Panic p)
  with c show ?thesis by (simp add: coin_at_def)
qed

lemma look_up_coins:
  assumes head: "st_GetHead A (ix_db i) = Ok head" and g: "isGenesis cfg (ft_block f) = Ok g"
    and "ft_pc f = PcLoop todo" and "\<And>x. x \<in> set todo \<Longrightarrow> coin_at A i (ic_InputID x) \<noteq> None"
  shows "\<exists>n \<le> 3 * length todo. \<forall>m. run_fetcher_alone (n + m) S A cfg f i =
    run_fetcher_alone m S A cfg (f\<lparr>ft_coinMap := ft_coinMap f ++ found_at A i todo, ft_pc := PcLoop []\<rparr>) i"
  using assms(2-4)
proof (induction todo arbitrary: f)
  case Nil
  have "ft_coinMap f ++ found_at A i [] = ft_coinMap f" by (simp add: found_at_def fun_eq_iff map_add_def)
  then show ?case using Nil.prems(2) by (cases f) simp
next
  case (Cons x rest)
  obtain ac where ac: "coin_at A i (ic_InputID x) = Some ac" using Cons.prems(3) [of x] by auto
  let ?f = "f\<lparr>ft_coinMap := (ft_coinMap f)(ic_InputID x \<mapsto> ac), ft_pc := PcLoop rest\<rparr>"
  obtain n where n: "n \<le> 3" "\<And>m. run_fetcher_alone (n + m) S A cfg f i = run_fetcher_alone m S A cfg ?f i"
    using look_up_coin [OF head Cons.prems(1,2) ac] by blast
  have "\<exists>n \<le> 3 * length rest. \<forall>m. run_fetcher_alone (n + m) S A cfg ?f i =
    run_fetcher_alone m S A cfg (?f\<lparr>ft_coinMap := ft_coinMap ?f ++ found_at A i rest, ft_pc := PcLoop []\<rparr>) i"
    by (rule Cons.IH) (use Cons.prems in simp_all)
  then obtain k where k: "k \<le> 3 * length rest" "\<And>m. run_fetcher_alone (k + m) S A cfg ?f i =
    run_fetcher_alone m S A cfg (?f\<lparr>ft_coinMap := ft_coinMap ?f ++ found_at A i rest, ft_pc := PcLoop []\<rparr>) i"
    by blast
  have "(ft_coinMap f)(ic_InputID x \<mapsto> ac) ++ found_at A i rest = ft_coinMap f ++ found_at A i (x # rest)"
    using ac by (auto simp: found_at_def fun_eq_iff map_add_def split: option.split)
  with k n(2) [of "k + _"] n(1) show ?case
    by (intro exI [of _ "n + k"]) (simp add: add.assoc)
qed

lemma run_ended: "ft_pc f = PcReturn r \<Longrightarrow> run_fetcher_alone n S A cfg f i = (f, i)"
  by (cases n) (simp_all add: fetch_step_def)

lemma search_alone_returns:
  assumes head: "st_GetHead A (ix_db i) = Ok head" and g: "isGenesis cfg blk = Ok g"
    and match: "checkHeaderMatch A (ix_db i) blk = Ok ()"
    and coins: "\<And>x. x \<in> set cs \<Longrightarrow> coin_at A i (ic_InputID x) \<noteq> None" and "3 * length cs + 2 \<le> n"
  shows "\<exists>f'. run_fetcher_alone n S A cfg (new_fetcher blk cs) i = (f', i) \<and>
    ft_pc f' = PcReturn (Ok (found_at A i cs))"
proof -
  let ?f = "(new_fetcher blk cs)\<lparr>ft_coinMap := Map.empty, ft_remaining := [], ft_abort := False,
    ft_pc := PcLoop cs\<rparr>"
  have enter: "run_fetcher_alone (Suc m) S A cfg (new_fetcher blk cs) i = run_fetcher_alone m S A cfg ?f i" for m
    using match by (simp add: fetch_step_def step_enter_def new_fetcher_def)
  obtain k where k: "k \<le> 3 * length cs" "\<And>m. run_fetcher_alone (k + m) S A cfg ?f i =
    run_fetcher_alone m S A cfg (?f\<lparr>ft_coinMap := ft_coinMap ?f ++ found_at A i cs, ft_pc := PcLoop []\<rparr>) i"
    using look_up_coins [of A i head cfg ?f g cs S] head g coins by (auto simp: new_fetcher_def)
  have m: "n = Suc (k + Suc (n - k - 2))" using assms(5) k(1) by simp
  let ?g = "?f\<lparr>ft_coinMap := ft_coinMap ?f ++ found_at A i cs, ft_pc := PcLoop []\<rparr>"
  have "run_fetcher_alone n S A cfg (new_fetcher blk cs) i = run_fetcher_alone (Suc (n - k - 2)) S A cfg ?g i"
    by (subst m) (simp only: enter k(2))
  also have "\<dots> = (?g\<lparr>ft_pc := PcReturn (Ok (found_at A i cs))\<rparr>, i)"
    by (simp add: fetch_step_def step_loop_def run_ended new_fetcher_def)
  finally show ?thesis by auto
qed

section \<open>The whole of Block\<close>

text \<open>The search as \<open>Block\<close> runs it when nobody interferes, with as many steps as it needs.\<close>

definition search_alone ::
  "sdk \<Rightarrow> 'db storage_api \<Rightarrow> configuration \<Rightarrow> 'db indexer \<Rightarrow> full_block option \<Rightarrow> input_ctx list \<Rightarrow>
   (string \<rightharpoonup> account_coin) go"
where
  "search_alone S A cfg i blk cs =
     (case ft_pc (fst (run_fetcher_alone (3 * length cs + 2) S A cfg (new_fetcher blk cs) i)) of
        PcReturn r \<Rightarrow> r
      | _ \<Rightarrow> Err (New ''not returned''))"

lemma search_alone_found:
  assumes "st_GetHead A (ix_db i) = Ok head" and "isGenesis cfg blk = Ok g"
    and "checkHeaderMatch A (ix_db i) blk = Ok ()"
    and "\<And>x. x \<in> set cs \<Longrightarrow> coin_at A i (ic_InputID x) \<noteq> None"
  shows "search_alone S A cfg i blk cs = Ok (found_at A i cs)"
proof -
  obtain f' where "run_fetcher_alone (3 * length cs + 2) S A cfg (new_fetcher blk cs) i = (f', i)"
      "ft_pc f' = PcReturn (Ok (found_at A i cs))"
    using search_alone_returns [OF assms(1-3) assms(4) order_refl, of cs S] by blast
  then show ?thesis unfolding search_alone_def by simp
qed

lemma Block_answers:
  assumes "negates S" and "contains_spec S" and "list_all wf_tx ts"
    and "fb_Header fb = Some h" and "fb_BlockTransactions fb = Some bt" and "bt_Transactions bt = Some ts"
    and "k \<le> retryLimit"
    and "\<And>n. n < k \<Longrightarrow> at_ctxErr (env n) = None \<and> at_sleep (env n) = None \<and>
           (\<exists>e. getBlockByIdentifier (at_client (env n)) b = Err e)"
    and "at_ctxErr (env k) = None" and "getBlockByIdentifier (at_client (env k)) b = Ok (Some fb)"
    and "st_GetHead A (ix_db i) = Ok head" and "checkHeaderMatch A (ix_db i) (Some fb) = Ok ()"
    and "\<And>j x. j < length ts \<Longrightarrow> x \<in> set (spent_ids (ts ! j)) \<Longrightarrow>
           (\<exists>l < j. x \<in> set (created_ids (ts ! l))) \<or>
           (\<exists>ac z. coin_at A i x = Some ac \<and> coin_value ac = Some z)"
    and "\<And>t. t \<in> set ts \<Longrightarrow> set (spent_ids t) \<inter> set (created_ids t) = {}"
    and "\<And>t x. t \<in> set ts \<Longrightarrow> x \<in> set (tx_outputs t) \<Longrightarrow>
           is_ok (output_address (NewBlockConverter c Map.empty) (out_ErgoTree x))"
    and "\<And>blk. bk_BlockIdentifier blk = bk_BlockIdentifier (HeaderToRosettaBlock h) \<Longrightarrow>
           AssertBlock S blk = Ok ()"
  shows "\<exists>cs blk. GetInputsForTxs S (Some ts) = Ok cs \<and>
    Block S env c (search_alone S A cfg i) b = Ok blk \<and>
    BlockToRosettaBlock S (NewBlockConverter c (found_at A i cs)) (Some fb) = Ok blk \<and>
    bk_BlockIdentifier blk = \<lparr>bi_Index = int64_of_int32 (bh_Height h), bi_Hash = bh_ID h\<rparr> \<and>
    map (\<lambda>t. ti_Hash (tx_TransactionIdentifier t)) (bk_Transactions blk) = map tx_id ts"
proof -
  let ?cs = "needed_inputs [] ts"
  have cs: "GetInputsForTxs S (Some ts) = Ok ?cs" by (rule GetInputsForTxs_wf [OF assms(2,3)])
  have avail: "\<exists>ac z. coin_at A i (ic_InputID x) = Some ac \<and> coin_value ac = Some z" if "x \<in> set ?cs" for x
  proof -
    obtain txid bx where x: "x = \<lparr>ic_TxID = txid, ic_InputID = bx\<rparr>" by (cases x)
    from that obtain j where "j < length ts" "bx \<in> set (spent_ids (ts ! j))"
        "\<forall>l \<le> j. bx \<notin> set (created_ids (ts ! l))"
      unfolding x needed_inputs_iff by auto
    with assms(13) [of j bx] show ?thesis by (auto simp: x)
  qed
  have "fetch_loop S env b 0 = Ok (Some fb, ?cs)"
    using fetch_loop_answers [where env = env and b = b, OF assms(7-10), of S] assms(5,6) cs by (simp add: block_inputs_def)
  moreover have "search_alone S A cfg i (Some fb) ?cs = Ok (found_at A i ?cs)"
    by (rule search_alone_found [OF assms(11) _ assms(12)]) (use assms(4) avail in \<open>auto simp: isGenesis_def\<close>)
  moreover have addr: "output_address (NewBlockConverter c (found_at A i ?cs)) =
      output_address (NewBlockConverter c Map.empty)"
    by (simp add: fun_eq_iff output_address_def NewBlockConverter_def)
  moreover have "\<exists>blk. BlockToRosettaBlock S (NewBlockConverter c (found_at A i ?cs)) (Some fb) = Ok blk"
    by (rule prefetched_suffices [OF assms(1-6) cs _ assms(14)])
      (use avail assms(15) in \<open>auto simp: found_at_def addr\<close>)
  then obtain blk where blk: "BlockToRosettaBlock S (NewBlockConverter c (found_at A i ?cs)) (Some fb) = Ok blk" ..
  moreover from blk obtain rs where rs: "converts S (NewBlockConverter c (found_at A i ?cs)) ts rs"
      "blk = (HeaderToRosettaBlock h)\<lparr>bk_Transactions := rs\<rparr>"
    unfolding BlockToRosettaBlock_Ok_iff [OF assms(4-6)] by blast
  moreover have "AssertBlock S blk = Ok ()" using assms(16) [of blk] rs(2) by simp
  ultimately have "Block S env c (search_alone S A cfg i) b = Ok blk" by (simp add: Block_def)
  moreover have "bk_BlockIdentifier blk = \<lparr>bi_Index = int64_of_int32 (bh_Height h), bi_Hash = bh_ID h\<rparr>"
    by (simp add: rs(2) HeaderToRosettaBlock_def Let_def)
  ultimately show ?thesis
    using cs blk converts_hashes [OF rs(1) assms(3)] rs(2) by auto
qed


text \<open>
  The instance: the node is down for three attempts, box \<open>g\<close> is stored and the sample block
  spends it.
\<close>

definition stored_db :: sample_db where
  "stored_db = sample_db1\<lparr>sd_coins := [''g'' \<mapsto>
     (Some \<lparr>am_Value = ''100'', am_Currency = Currency\<rparr>, Some \<lparr>ai_Address = ''addr''\<rparr>)]\<rparr>"

lemma stored_coin:
  "coin_at sample_storage (InitIndexer stored_db) ''g'' = Some (mk_coin ''addr'' ''g'' ''100'')"
  by (simp add: coin_at_def sample_storage_def InitIndexer_def stored_db_def mk_coin_def)


end
