(* ===== verification/Simulation.thy ===== *)
theory Simulation
  imports Main
begin

text \<open>
  Refinement of an abstract step relation: the interface between a detailed system, with an
  invariant of its own, and an abstract one its states are mapped to. Every run of the
  detailed system is, under the map, a run of the abstract one, so an abstract invariant
  holds of every reachable detailed state.
\<close>

locale simulation =
  fixes start :: "'c \<Rightarrow> bool" and cstep :: "'c \<Rightarrow> 'c \<Rightarrow> bool" and inv :: "'c \<Rightarrow> bool"
    and view :: "'c \<Rightarrow> 'a" and astart :: "'a" and astep :: "'a \<Rightarrow> 'a \<Rightarrow> bool"
  assumes start_inv: "start c \<Longrightarrow> inv c"
    and step_inv: "inv c \<Longrightarrow> cstep c c' \<Longrightarrow> inv c'"
    and start_view: "start c \<Longrightarrow> view c = astart"
    and step_view: "inv c \<Longrightarrow> cstep c c' \<Longrightarrow> astep (view c) (view c')"
begin

lemma run:
  assumes "start c0" and "rtranclp cstep c0 c"
  shows "inv c \<and> rtranclp astep astart (view c)"
  using assms(2)
proof (induction rule: rtranclp_induct)
  case base
  then show ?case using start_inv start_view assms(1) by simp
next
  case (step c c')
  then show ?case using step_inv step_view by (meson rtranclp.rtrancl_into_rtrancl)
qed

lemma abstract_invariant:
  assumes "start c0" and "rtranclp cstep c0 c" and "P astart" and "\<And>a a'. P a \<Longrightarrow> astep a a' \<Longrightarrow> P a'"
  shows "P (view c)"
proof -
  have "rtranclp astep astart (view c)" using run assms(1,2) by blast
  then show ?thesis by (induction rule: rtranclp_induct) (use assms(3,4) in auto)
qed

end

end
