(* ===== verification/Indexer_Room.thy ===== *)
theory Indexer_Room
  imports Indexer_Props Simulation
begin

text \<open>
  What the wait table promises, without listeners counts kept by hand, channels and a lock:
  a room in which searches wait under a key. One joins under a key, with the height it is
  due at; a key is released or aborted for all who wait under it; who was released may
  leave. Every step of the indexer is, on the wait table, at most one of these.
\<close>

section \<open>The abstract room\<close>

record place =
  pl_waiting :: nat
  pl_released :: bool
  pl_aborted :: bool
  pl_due :: int

type_synonym room = "string \<rightharpoonup> place"

definition room_join :: "string \<Rightarrow> int \<Rightarrow> room \<Rightarrow> room" where
  "room_join k h r = r(k \<mapsto>
     (case r k of
        None \<Rightarrow> \<lparr>pl_waiting = 1, pl_released = False, pl_aborted = False, pl_due = h\<rparr>
      | Some p \<Rightarrow> p\<lparr>pl_waiting := pl_waiting p + 1, pl_due := min h (pl_due p)\<rparr>))"

definition room_leave :: "string \<Rightarrow> place \<Rightarrow> room \<Rightarrow> room" where
  "room_leave k p r =
     r(k := if pl_waiting p = 1 then None else Some (p\<lparr>pl_waiting := pl_waiting p - 1\<rparr>))"

definition room_release :: "string set \<Rightarrow> room \<Rightarrow> room" where
  "room_release K r = (\<lambda>k. map_option (\<lambda>p. if k \<in> K then p\<lparr>pl_released := True\<rparr> else p) (r k))"

definition room_abort :: "int \<Rightarrow> room \<Rightarrow> room" where
  "room_abort h r = (\<lambda>k. map_option (\<lambda>p.
     if pl_due p = h \<and> \<not> pl_released p then p\<lparr>pl_released := True, pl_aborted := True\<rparr> else p) (r k))"

inductive room_step :: "room \<Rightarrow> room \<Rightarrow> bool" where
  idle: "room_step r r"
| joins: "room_step r (room_join k h r)"
| leaves: "r k = Some p \<Longrightarrow> pl_released p \<Longrightarrow> room_step r (room_leave k p r)"
| release: "room_step r (room_release K r)"
| abort: "room_step r (room_abort h r)"

text \<open>Nobody's place is kept, and an aborted place is a released one.\<close>

definition room_ok :: "room \<Rightarrow> bool" where
  "room_ok r \<longleftrightarrow> (\<forall>k p. r k = Some p \<longrightarrow> 0 < pl_waiting p \<and> (pl_aborted p \<longrightarrow> pl_released p))"

lemma room_ok_empty [simp]: "room_ok Map.empty"
  by (simp add: room_ok_def)

lemma room_step_ok: "room_step r r' \<Longrightarrow> room_ok r \<Longrightarrow> room_ok r'"
  by (induction rule: room_step.induct)
    (fastforce simp: room_ok_def room_join_def room_leave_def room_release_def room_abort_def
       split: if_splits option.splits)+

section \<open>The table as a room\<close>

definition place_of :: "wait_table_entry \<Rightarrow> place" where
  "place_of v = \<lparr>pl_waiting = nat (wte_listeners v), pl_released = wte_channelClosed v,
     pl_aborted = wte_aborted v, pl_due = sint (wte_earliestBlock v)\<rparr>"

definition room_of :: "wait_table \<Rightarrow> room" where
  "room_of t = (\<lambda>k. map_option place_of (wt_Get t k))"

lemma place_of_simps [simp]:
  "pl_waiting (place_of v) = nat (wte_listeners v)" "pl_released (place_of v) = wte_channelClosed v"
  "pl_aborted (place_of v) = wte_aborted v" "pl_due (place_of v) = sint (wte_earliestBlock v)"
  by (simp_all add: place_of_def)

lemma room_of_joined:
  assumes "wt_Get t' = (wt_Get t)(key \<mapsto> joined_entry (wt_Get t key) h ch)"
    and "\<And>v. wt_Get t key = Some v \<Longrightarrow> 0 \<le> wte_listeners v"
  shows "room_of t' = room_join key (sint h) (room_of t)"
proof -
  have "place_of (joined_entry (wt_Get t key) h ch) =
      (case room_of t key of
         None \<Rightarrow> \<lparr>pl_waiting = 1, pl_released = False, pl_aborted = False, pl_due = sint h\<rparr>
       | Some p \<Rightarrow> p\<lparr>pl_waiting := pl_waiting p + 1, pl_due := min (sint h) (pl_due p)\<rparr>)"
    using assms(2) by (cases "wt_Get t key") (auto simp: room_of_def place_of_def joined_entry_simps nat_add_distrib)
  with assms(1) show ?thesis by (auto simp: room_of_def room_join_def fun_eq_iff)
qed

lemma room_of_left:
  assumes "wt_Get t' = (wt_Get t)(k := if wte_listeners v = 1 then None
             else Some (v\<lparr>wte_listeners := wte_listeners v - 1\<rparr>))"
    and "0 < wte_listeners v"
  shows "room_of t' = room_leave k (place_of v) (room_of t)"
  using assms by (auto simp: room_of_def room_leave_def fun_eq_iff place_of_def nat_diff_distrib)

lemma room_of_woken:
  "retagged (wake_entry K) i i' \<Longrightarrow> room_of (ix_waiter i') = room_release K (room_of (ix_waiter i))"
  by (auto simp: retagged_def room_of_def room_release_def wake_entry_def place_of_def fun_eq_iff
      option.map_comp intro: option.map_cong)

lemma stale_iff:
  "stale blk v \<longleftrightarrow>
     sint (wte_earliestBlock v) = sint (bi_Index (bk_BlockIdentifier blk) + 1) \<and> \<not> wte_channelClosed v"
  by (auto simp: stale_def intro: signed_word_eqI)

lemma place_of_aborted:
  "place_of (abort_stale blk UNIV k v) =
     (if pl_due (place_of v) = sint (bi_Index (bk_BlockIdentifier blk) + 1) \<and> \<not> pl_released (place_of v)
      then (place_of v)\<lparr>pl_released := True, pl_aborted := True\<rparr> else place_of v)"
  by (simp add: abort_stale_def stale_iff place_of_def)

lemma room_of_aborted:
  "retagged (abort_stale blk UNIV) i i' \<Longrightarrow>
     room_of (ix_waiter i') = room_abort (sint (bi_Index (bk_BlockIdentifier blk) + 1)) (room_of (ix_waiter i))"
  by (simp add: retagged_def room_of_def room_abort_def fun_eq_iff option.map_comp o_def place_of_aborted
      cong: option.map_cong)

section \<open>The refinement\<close>

lemma listed_entry:
  assumes "sys_ok s" and "wt_Get (ix_waiter (sy_ix s)) k = Some v"
  shows "0 \<le> wte_listeners v"
proof -
  have "int (sys_held s k) \<le> listeners (ix_waiter (sy_ix s)) k" using assms(1) by (simp add: sys_ok_def)
  with assms(2) show ?thesis by (simp add: listeners_def)
qed

lemma fetch_step_room:
  assumes "sys_ok s" and f: "f \<in> set (sy_fetchers s)" and quiet: "\<And>db p. st_GetHead A db \<noteq> Panic p"
    and step: "fetch_step S A cfg ctx f (sy_ix s) = Some (f', i')"
  shows "room_step (room_of (ix_waiter (sy_ix s))) (room_of (ix_waiter i'))"
proof -
  let ?t = "ix_waiter (sy_ix s)"
  have "chan_ok (sy_ix s)" and aw: "awaits_ok ?t f" using assms(1) f by (simp_all add: sys_ok_def)
  then show ?thesis
    using quiet step
  proof (cases rule: fetch_step_table)
    case (join key h)
    with room_of_joined [OF join] listed_entry [OF assms(1)] show ?thesis by (auto intro: room_step.joins)
  next
    case (leave x rest v)
    have "0 < ft_count (ic_TxID x) f"
      by (rule waited_count) (use leave(1) in \<open>simp add: ft_waits_def\<close>)
    with count_le_listeners [OF assms(1) f, of "ic_TxID x"] leave(2) have "0 < wte_listeners v"
      by (simp add: listeners_def)
    moreover have "wte_channelClosed v" using aw leave(1,2) by (simp add: awaits_ok_def)
    ultimately show ?thesis
      using room_of_left [OF leave(3)] leave(2) by (auto simp: room_of_def intro: room_step.leaves)
  next
    case same
    then show ?thesis by (simp add: room_step.idle)
  qed
qed

lemma handler_step_room:
  assumes "sys_ok s" and step: "handler_step S A h (sy_ix s) = Some (h', i')"
  shows "room_step (room_of (ix_waiter (sy_ix s))) (room_of (ix_waiter i'))"
proof -
  have "chan_ok (sy_ix s)" "\<not> wt_locked (ix_waiter (sy_ix s))" using assms(1) by (simp_all add: sys_ok_def)
  then show ?thesis
    using step
  proof (cases rule: handler_step_table)
    case (wake blk)
    then show ?thesis using room_of_woken [OF wake(2)] by (auto intro: room_step.release)
  next
    case (abort blk)
    then show ?thesis using room_of_aborted [OF abort(2)] by (auto intro: room_step.abort)
  next
    case same
    then show ?thesis by (simp add: room_step.idle)
  qed
qed

lemma sys_step_room:
  assumes "sys_ok s" and "\<And>db p. st_GetHead A db \<noteq> Panic p" and step: "sys_step S A cfg s s'"
  shows "room_step (room_of (ix_waiter (sy_ix s))) (room_of (ix_waiter (sy_ix s')))"
  using step
proof cases
  case (run_fetcher k ctx f' i')
  with fetch_step_room [OF assms(1) _ assms(2) run_fetcher(3)] show ?thesis by simp
next
  case (run_handler k h' i')
  with handler_step_room [OF assms(1) run_handler(3)] show ?thesis by simp
qed (auto intro: room_step.idle)

text \<open>
  The indexer from its start, as runs of its step relation, simulates the room from the empty
  one on.
\<close>

definition starts :: "'db sys \<Rightarrow> bool" where
  "starts s \<longleftrightarrow> (\<exists>db. s = sys_init db)"

lemma reachable_runs: "reachable S A cfg s \<Longrightarrow> \<exists>s0. starts s0 \<and> rtranclp (sys_step S A cfg) s0 s"
  by (induction rule: reachable.induct)
    (auto simp: starts_def intro: rtranclp.rtrancl_into_rtrancl)

definition quiet_step :: "sdk \<Rightarrow> 'db storage_api \<Rightarrow> configuration \<Rightarrow> 'db sys \<Rightarrow> 'db sys \<Rightarrow> bool" where
  "quiet_step S A cfg s s' \<longleftrightarrow> quiet A \<and> sys_step S A cfg s s'"

lemma sys_step_ok:
  assumes "sys_ok s" and quiet: "\<And>db p. st_GetHead A db \<noteq> Panic p" and step: "sys_step S A cfg s s'"
  shows "sys_ok s'"
proof (rule sys_stepE [OF step])
  show "sys_ok s'" if "s' = s\<lparr>sy_ix := i', sy_fetchers := (sy_fetchers s)[k := f']\<rparr>"
      "k < length (sy_fetchers s)" "fetch_step S A cfg ctx (sy_fetchers s ! k) (sy_ix s) = Some (f', i')"
    for k ctx f' i'
    using sys_ok_fetch [OF assms(1) that(2) quiet that(3)] that(1) by simp
  show "sys_ok s'" if "s' = s\<lparr>sy_ix := i', sy_handlers := (sy_handlers s)[k := h']\<rparr>"
      "handler_step S A (sy_handlers s ! k) (sy_ix s) = Some (h', i')" for k h' i'
    using sys_ok_handler [OF assms(1) that(2)] that(1) by simp
qed (use assms(1) in \<open>auto simp: sys_ok_def\<close>)

interpretation room: simulation starts "quiet_step S A cfg" sys_ok "\<lambda>s. room_of (ix_waiter (sy_ix s))"
  Map.empty room_step for S A cfg
proof
  show "sys_ok s" if "starts s" for s :: "'a sys" using that sys_ok_init by (auto simp: starts_def)
  show "sys_ok s'" if "sys_ok s" "quiet_step S A cfg s s'" for s s'
    using that sys_step_ok [of s A S cfg s'] by (simp add: quiet_step_def quiet_def)
  show "room_of (ix_waiter (sy_ix s)) = Map.empty" if "starts s" for s :: "'a sys"
    using that by (auto simp: starts_def sys_init_def InitIndexer_def room_of_def)
  show "room_step (room_of (ix_waiter (sy_ix s))) (room_of (ix_waiter (sy_ix s')))"
    if "sys_ok s" "quiet_step S A cfg s s'" for s s'
    using that sys_step_room [of s A S cfg s'] by (simp add: quiet_step_def quiet_def)
qed

lemma quiet_runs:
  assumes "reachable S A cfg s" and "\<And>db p. st_GetHead A db \<noteq> Panic p"
  obtains s0 where "starts s0" and "rtranclp (quiet_step S A cfg) s0 s"
proof -
  have "quiet_step S A cfg = sys_step S A cfg"
    using quietI [OF assms(2)] by (simp add: quiet_step_def fun_eq_iff)
  with reachable_runs [OF assms(1)] that show thesis by auto
qed

text \<open>
  C12: Every step of the indexer is, on the wait table, a step of the abstract room or none:
  a search joins or, once released, leaves; seeing a block releases; adding one aborts. So
  every reachable table is, as a room, reached from the empty room by these steps. In every reachable state a search that waits on a channel has its place, which counts at
  least itself, and its channel is closed exactly when the place is released; no place is
  kept without anyone counted in it, and every aborted place is released.
\<close>

theorem wait_table_refines_room:
  assumes "reachable S A cfg s" and "\<And>db p. st_GetHead A db \<noteq> Panic p"
  shows "(\<forall>s'. sys_step S A cfg s s' \<longrightarrow>
       room_step (room_of (ix_waiter (sy_ix s))) (room_of (ix_waiter (sy_ix s')))) \<and>
    rtranclp room_step Map.empty (room_of (ix_waiter (sy_ix s))) \<and>
    room_ok (room_of (ix_waiter (sy_ix s))) \<and>
    (\<forall>f \<in> set (sy_fetchers s). \<forall>x rest ch. ft_pc f = PcAwait (x # rest) ch \<longrightarrow>
       (\<exists>p. room_of (ix_waiter (sy_ix s)) (ic_TxID x) = Some p \<and> 0 < pl_waiting p \<and>
          (ch \<in> ix_closed (sy_ix s) \<longleftrightarrow> pl_released p)))"
proof (intro conjI allI impI ballI)
  show "room_step (room_of (ix_waiter (sy_ix s))) (room_of (ix_waiter (sy_ix s')))"
    if "sys_step S A cfg s s'" for s'
    by (rule sys_step_room [OF reachable_sys_ok [OF assms] assms(2) that])
  obtain s0 where runs: "starts s0" "rtranclp (quiet_step S A cfg) s0 s" by (rule quiet_runs [OF assms])
  show "rtranclp room_step Map.empty (room_of (ix_waiter (sy_ix s)))" using room.run [OF runs] by blast
  show ok: "room_ok (room_of (ix_waiter (sy_ix s)))"
    by (rule room.abstract_invariant [OF runs]) (auto intro: room_step_ok)
  fix f x rest ch assume f: "f \<in> set (sy_fetchers s)" and pc: "ft_pc f = PcAwait (x # rest) ch"
  have sys: "sys_ok s" by (rule reachable_sys_ok [OF assms])
  then have "awaits_ok (ix_waiter (sy_ix s)) f" using f by (simp add: sys_ok_def)
  with pc obtain v where v: "wt_Get (ix_waiter (sy_ix s)) (ic_TxID x) = Some v" "wte_channel v = ch"
    by (auto simp: awaits_ok_def split: option.splits)
  then have p: "room_of (ix_waiter (sy_ix s)) (ic_TxID x) = Some (place_of v)" by (simp add: room_of_def)
  moreover have "0 < pl_waiting (place_of v)" using ok p unfolding room_ok_def by blast
  moreover have "ch \<in> ix_closed (sy_ix s) \<longleftrightarrow> pl_released (place_of v)"
    using chan_ok_closed [OF _ v(1)] v(2) sys by (simp add: sys_ok_def)
  ultimately show "\<exists>p. room_of (ix_waiter (sy_ix s)) (ic_TxID x) = Some p \<and> 0 < pl_waiting p \<and>
      (ch \<in> ix_closed (sy_ix s) \<longleftrightarrow> pl_released p)" by blast
qed

theorem wait_table_refines_room_witness:
  "\<exists>s f p. schedule_result wake_moves = Some s \<and> f \<in> set (sy_fetchers s) \<and>
     room_of (ix_waiter (sy_ix s)) ''t1'' = Some p \<and> 0 < pl_waiting p \<and>
     (0 \<in> ix_closed (sy_ix s) \<longleftrightarrow> pl_released p)"
proof -
  from runsE [OF waking_runs] obtain s where
    s: "schedule_result wake_moves = Some s" and r: "reachable sdk_ref sample_storage sample_cfg s"
    and c: "map ft_awaits (sy_fetchers s) =
       [Some ([\<lparr>ic_TxID = ''t1'', ic_InputID = ''g''\<rparr>], 0)] \<and>
     (case sy_handlers s of [h0, HSeenWake blk] \<Rightarrow> tx_hashes blk = [''t1''] | _ \<Rightarrow> False)" .
  from c obtain f where f: "f \<in> set (sy_fetchers s)"
    and p: "ft_pc f = PcAwait [\<lparr>ic_TxID = ''t1'', ic_InputID = ''g''\<rparr>] 0"
    by (auto simp: map_eq_Cons_conv)
  from wait_table_refines_room [OF r sample_quiet] f p s show ?thesis by fastforce
qed

end
