(* ===== verification/Indexer_Resume.thy ===== *)
theory Indexer_Resume
  imports Indexer_Block
begin

text \<open>
  Starting again: the indexer keeps nothing but the database across a restart, and \<open>Sync\<close>
  goes on after the last block that was added.
\<close>

section \<open>What adding a block leaves in the database\<close>

lemma sfor_db:
  assumes "\<And>x i. ix_db (snd (f x i)) = ix_db i"
  shows "ix_db (snd (sfor f xs i)) = ix_db i"
proof (induction xs arbitrary: i)
  case (Cons x xs)
  with assms [of x i] show ?case by (cases "f x i" rule: go_cases_pair) simp_all
qed simp

lemma abort_entry_db: "ix_db (snd (abort_entry blk e i)) = ix_db i"
  by (cases e) (simp add: abort_entry_def close_chan_def upd_waiter_def)

lemma BlockAdded_abort_db: "ix_db (snd (BlockAdded_abort blk i)) = ix_db i"
proof -
  let ?j = "i\<lparr>ix_waiter := wt_Lock (ix_waiter i)\<rparr>"
  have "ix_db (snd (sfor (abort_entry blk) (wt_table (ix_waiter ?j)) ?j)) = ix_db i"
    by (simp add: sfor_db [of "abort_entry blk", OF abort_entry_db])
  then show ?thesis
    by (cases "sfor (abort_entry blk) (wt_table (ix_waiter ?j)) ?j" rule: go_cases_pair)
      (simp_all add: BlockAdded_abort_def upd_waiter_def)
qed

lemma BlockAdded_OkE:
  assumes "BlockAdded S A blk i = (Ok u, i')"
  obtains blk' where "ensureNegativeValueInputs S blk = Ok blk'"
    and "st_AddBlock A blk' (ix_db i) = (Ok (), ix_db i')"
proof (cases "ensureNegativeValueInputs S blk")
  case (Ok blk')
  show ?thesis
  proof (cases "st_AddBlock A blk' (ix_db i)" rule: go_cases_pair)
    case s: (Ok v db)
    let ?j = "snd (BlockAdded_uncache blk' (i\<lparr>ix_db := db\<rparr>))"
    have "BlockAdded S A blk i = BlockAdded_abort blk' ?j"
      using Ok s by (simp add: BlockAdded_def BlockAdded_store_def with_db_def smap_err_def BlockAdded_uncache_def)
    then have "i' = snd (BlockAdded_abort blk' ?j)" using assms by (metis snd_conv)
    then have "ix_db i' = ix_db ?j" by (simp only: BlockAdded_abort_db)
    then have "ix_db i' = db" by (simp add: BlockAdded_uncache_def)
    with s that [OF Ok] show ?thesis by simp
  qed (use assms Ok in \<open>simp_all add: BlockAdded_def BlockAdded_store_def with_db_def smap_err_def\<close>)
qed (use assms in \<open>simp_all add: BlockAdded_def\<close>)

lemma ensured_identifier:
  "ensureNegativeValueInputs S blk = Ok blk' \<Longrightarrow> bk_BlockIdentifier blk' = bk_BlockIdentifier blk"
  by (auto simp: ensureNegativeValueInputs_def)

text \<open>
  C29: With a storage whose head is the block added last, an indexer started again on the
  database that \<open>BlockAdded\<close> left behind syncs from the block after it and changes nothing
  before; where the head cannot be looked up it bootstraps the balances and coins and
  starts before the genesis block, and a failed bootstrap ends the process.
\<close>

theorem Sync_resumes:
  assumes "\<And>db blk db'. st_AddBlock A blk db = (Ok (), db') \<Longrightarrow> st_GetHead A db' = Ok (bk_BlockIdentifier blk)"
    and "BlockAdded S A blk i = (Ok (), i')" and "waitForNode cfg env 0 = Some (Ok ())"
  shows "Sync cfg A env (InitIndexer (ix_db i')) =
      Some (Ok (bi_Index (bk_BlockIdentifier blk) + 1), InitIndexer (ix_db i')) \<and>
    (\<forall>db e. st_GetHead A db = Err e \<longrightarrow>
       (case bootstrapGenesisState cfg A (InitIndexer db) of
          (Ok _, j) \<Rightarrow> Sync cfg A env (InitIndexer db) = Some (Ok (- 1), j)
        | (Err _, j) \<Rightarrow> Sync cfg A env (InitIndexer db) = Some (Panic ProcessExit, j)
        | (Panic p, j) \<Rightarrow> Sync cfg A env (InitIndexer db) = Some (Panic p, j)))"
proof
  obtain blk' where "ensureNegativeValueInputs S blk = Ok blk'"
    "st_AddBlock A blk' (ix_db i) = (Ok (), ix_db i')" by (rule BlockAdded_OkE [OF assms(2)])
  then have "st_GetHead A (ix_db i') = Ok (bk_BlockIdentifier blk)"
    using assms(1) ensured_identifier by metis
  then show "Sync cfg A env (InitIndexer (ix_db i')) =
      Some (Ok (bi_Index (bk_BlockIdentifier blk) + 1), InitIndexer (ix_db i'))"
    using assms(3) by (simp add: Sync_def sync_start_def InitIndexer_def)
qed (use assms(3) in \<open>auto simp: Sync_def sync_start_def InitIndexer_def initialStartIndex_def
       split: prod.split go.split\<close>)

text \<open>The instance: the sample storage, block 1 added, a node that answers the fourth time.\<close>

lemma sample_added_head:
  "st_AddBlock sample_storage blk db = (Ok (), db') \<Longrightarrow>
   st_GetHead sample_storage db' = Ok (bk_BlockIdentifier blk)"
  by (auto simp: sample_storage_def)

theorem Sync_resumes_witness:
  "\<exists>i'. BlockAdded sdk_ref sample_storage block1 (InitIndexer sample_db0) = (Ok (), i') \<and>
     Sync sample_cfg sample_storage (down_until 3) (InitIndexer (ix_db i')) = Some (Ok 2, InitIndexer (ix_db i'))"
proof -
  have "is_ok (fst (BlockAdded sdk_ref sample_storage block1 (InitIndexer sample_db0)))"
    by code_simp
  then obtain i' where i': "BlockAdded sdk_ref sample_storage block1 (InitIndexer sample_db0) = (Ok (), i')"
    by (cases "BlockAdded sdk_ref sample_storage block1 (InitIndexer sample_db0)") (auto simp: is_ok_iff)
  have "node_ready sample_cfg (down_until 3 3)" "\<forall>j < 3. node_retried sample_cfg (down_until 3 j)"
    by (simp_all add: node_ready_def down_until_def)
  then have "waitForNode sample_cfg (down_until 3) 0 = Some (Ok ())"
    using waitForNode_ok by blast
  from Sync_resumes [OF sample_added_head i' this] i' show ?thesis
    by (simp add: block1_def mk_rblock_def)
qed

end
