(* ===== verification/Block_Types.thy ===== *)
theory Block_Types
  imports Indexer_Handlers Converter_Props
begin

text \<open>
  The types of a converted block: what the SDK's asserter and syncer require of its
  operations, and that the check the indexer makes before storing a block finds nothing to
  change in a block the converter made.
\<close>

section \<open>Well-typed operations\<close>

text \<open>
  A published type and status, an integer amount in the currency, a coin change that fits
  the type, and related operations that come before it in the transaction.
\<close>

definition op_typed :: "operation \<Rightarrow> bool" where
  "op_typed op \<longleftrightarrow>
     op_Type op \<in> set OperationTypes \<and>
     (\<exists>st \<in> set OperationStatuses. op_Status op = Some (os_Status st)) \<and>
     (\<exists>am. op_Amount op = Some am \<and> am_Currency am = Currency \<and> SetString (am_Value am) \<noteq> None) \<and>
     (\<exists>cc. op_CoinChange op = Some cc \<and>
           (cc_CoinAction cc = CoinSpent \<longleftrightarrow> op_Type op = InputOpType) \<and>
           (cc_CoinAction cc = CoinCreated \<longleftrightarrow> op_Type op = OutputOpType)) \<and>
     (\<forall>r \<in> set (op_RelatedOperations op).
        sint (oi_Index r) < sint (oi_Index (op_OperationIdentifier op)))"

lemma type_names: "InputOpType \<noteq> OutputOpType"
  by (simp add: InputOpType_def OutputOpType_def)

lemma spent_op_typed: "op_typed (spent_op k n b ac z)"
  using type_names by (simp add: op_typed_def spent_op_def OperationTypes_def OperationStatuses_def packages_agree)

lemma made_op_typed:
  assumes "\<And>r. r \<in> set rel \<Longrightarrow> sint (oi_Index r) < sint k"
  shows "op_typed (made_op k rel addr idx x)"
  using assms type_names
  by (simp add: op_typed_def made_op_def OperationTypes_def OperationStatuses_def packages_agree)

lemma sint_int64_of_len: "n < 2 ^ 63 \<Longrightarrow> sint (int64_of_len n) = int n"
  by (simp add: int64_of_len_def signed_of_nat signed_take_bit_int_eq_self)

section \<open>Coins without debts\<close>

definition coins_nonneg :: "block_converter \<Rightarrow> bool" where
  "coins_nonneg c \<longleftrightarrow>
     (\<forall>b ac z. blockTxInputs c b = Some ac \<or> preFetchedInputs c b = Some ac \<longrightarrow>
        coin_value ac = Some z \<longrightarrow> 0 \<le> z)"

definition outputs_nonneg :: "ergo_transaction \<Rightarrow> bool" where
  "outputs_nonneg t \<longleftrightarrow> (\<forall>x \<in> set (tx_outputs t). 0 \<le> sint (out_Value x))"

definition tx_small :: "ergo_transaction \<Rightarrow> bool" where
  "tx_small t \<longleftrightarrow> length (tx_inputs t) + length (tx_outputs t) < 2 ^ 63"

lemma coins_nonneg_store:
  assumes "coins_nonneg c" and "wf_tx t" and "negates S" and "TxToRosettaTx S c t = Ok r"
    and "outputs_nonneg t"
  shows "coins_nonneg (storeTxCoins c r)"
proof -
  from converted_created_coins [OF assms(2-4)] obtain addrs where
    cs: "created_coins r = map2 (\<lambda>a x. (out_id x, made_coin a x)) addrs (tx_outputs t)" by metis
  have new: "0 \<le> z" if "map_of (rev (created_coins r)) b = Some ac" "coin_value ac = Some z" for b ac z
  proof -
    from map_of_SomeD [OF that(1)] cs obtain a x where "x \<in> set (tx_outputs t)" "ac = made_coin a x"
      by (auto dest: set_zip_rightD)
    with that(2) assms(5) show ?thesis by (auto simp: outputs_nonneg_def)
  qed
  show ?thesis
    unfolding coins_nonneg_def
  proof (intro allI impI)
    fix b ac z
    assume "blockTxInputs (storeTxCoins c r) b = Some ac \<or> preFetchedInputs (storeTxCoins c r) b = Some ac"
      and z: "coin_value ac = Some z"
    then consider "map_of (rev (created_coins r)) b = Some ac"
      | "blockTxInputs c b = Some ac \<or> preFetchedInputs c b = Some ac"
      by (auto simp: map_add_Some_iff)
    then show "0 \<le> z" using new z assms(1) by (cases) (auto simp: coins_nonneg_def)
  qed
qed

section \<open>One transaction, a block\<close>

definition op_fine :: "operation \<Rightarrow> bool" where
  "op_fine op \<longleftrightarrow> op_typed op \<and> (is_spent op \<longrightarrow> (\<exists>z \<le> 0. op_value op = Some z))"

lemma converted_ops_fine:
  assumes "coins_nonneg c" and "wf_tx t" and "negates S" and "TxToRosettaTx S c t = Ok r" and "tx_small t"
    and op: "op \<in> set (tx_Operations r)"
  shows "op_fine op"
proof -
  from TxToRosettaTx_OkE [OF assms(2-4)] obtain ins outs where
    r: "r = \<lparr>tx_TransactionIdentifier = \<lparr>ti_Hash = tx_id t\<rparr>, tx_Operations = ins @ outs\<rparr>"
    and len: "length ins = length (tx_inputs t)" "length outs = length (tx_outputs t)"
    and i: "\<And>k. k < length (tx_inputs t) \<Longrightarrow>
       \<exists>ac z. findCoinForInput c (in_BoxID (tx_inputs t ! k)) = Ok ac \<and> coin_value ac = Some z \<and>
         ins ! k = spent_op (int64_of_len k) (int64_of_len k) (in_BoxID (tx_inputs t ! k)) ac z"
    and o': "\<And>k. k < length (tx_outputs t) \<Longrightarrow>
       \<exists>addr idx. output_address c (out_ErgoTree (tx_outputs t ! k)) = Ok addr \<and>
         out_Index (tx_outputs t ! k) = Some idx \<and>
         outs ! k = made_op (int64_of_len (length ins + k)) (map related_of ins) addr idx
                      (tx_outputs t ! k)"
    by metis
  from op consider k where "k < length ins" "op = ins ! k" | k where "k < length outs" "op = outs ! k"
    by (auto simp: r in_set_conv_nth)
  then show ?thesis
  proof cases
    case (1 k)
    with i [of k] len obtain ac z where ac: "findCoinForInput c (in_BoxID (tx_inputs t ! k)) = Ok ac"
      "coin_value ac = Some z" and op': "op = spent_op (int64_of_len k) (int64_of_len k) (in_BoxID (tx_inputs t ! k)) ac z"
      by auto
    have "0 \<le> z" using ac assms(1) by (auto simp: findCoinForInput_Ok_iff coins_nonneg_def)
    then show ?thesis by (simp add: op_fine_def op' spent_op_typed)
  next
    case (2 k)
    with o' [of k] len obtain addr idx where
      op': "op = made_op (int64_of_len (length ins + k)) (map related_of ins) addr idx (tx_outputs t ! k)"
      by auto
    have small: "length ins + k < 2 ^ 63" using assms(5) len 2 by (simp add: tx_small_def)
    have "sint (oi_Index q) < sint (int64_of_len (length ins + k))" if "q \<in> set (map related_of ins)" for q
    proof -
      from that obtain j where j: "j < length ins" "q = related_of (ins ! j)"
        by (auto simp: in_set_conv_nth)
      then have "oi_Index q = int64_of_len j" using i [of j] len by (auto simp: related_of_def)
      then show ?thesis using j small by (simp add: sint_int64_of_len)
    qed
    then show ?thesis by (simp add: op_fine_def op' made_op_typed [of "map related_of ins"] is_spent_def del: set_map)
  qed
qed

lemma converts_fine:
  assumes "converts S c ts rs" and "coins_nonneg c" and "negates S"
    and "\<And>t. t \<in> set ts \<Longrightarrow> wf_tx t \<and> tx_small t \<and> outputs_nonneg t"
  shows "\<forall>r \<in> set rs. list_all op_fine (tx_Operations r)"
  using assms
proof (induction ts arbitrary: c rs)
  case (Cons t ts)
  from Cons.prems(1) obtain r rs' where rs: "rs = r # rs'" and r: "TxToRosettaTx S c t = Ok r"
    and rest: "converts S (storeTxCoins c r) ts rs'" by (auto simp: converts_Cons)
  have t: "wf_tx t" "tx_small t" "outputs_nonneg t" using Cons.prems(4) by simp_all
  have "\<forall>r \<in> set rs'. list_all op_fine (tx_Operations r)"
    by (rule Cons.IH [OF rest coins_nonneg_store [OF Cons.prems(2) t(1) Cons.prems(3) r t(3)] Cons.prems(3)])
      (simp add: Cons.prems(4))
  with converted_ops_fine [OF Cons.prems(2) t(1) Cons.prems(3) r t(2)] rs show ?case
    by (simp add: list_all_iff)
qed simp

lemma op_fine_ensurable: "op_fine op \<Longrightarrow> ensurable op"
  by (auto simp: op_fine_def op_typed_def ensurable_def)

lemma op_fine_negated: "op_fine op \<Longrightarrow> negated_op op = op"
  by (auto simp: op_fine_def negated_op_def op_value_def bind_eq_Some_conv split: option.splits)

lemma negated_block_fine:
  assumes "\<forall>r \<in> set (bk_Transactions b). list_all op_fine (tx_Operations r)"
  shows "negated_block b = b"
proof -
  have "tx\<lparr>tx_Operations := map negated_op (tx_Operations tx)\<rparr> = tx" if "tx \<in> set (bk_Transactions b)" for tx
  proof -
    have "map negated_op (tx_Operations tx) = tx_Operations tx"
      using assms that by (intro map_idI) (simp add: list_all_iff op_fine_negated)
    then show ?thesis by simp
  qed
  then have "map (\<lambda>tx. tx\<lparr>tx_Operations := map negated_op (tx_Operations tx)\<rparr>) (bk_Transactions b) =
      bk_Transactions b" by (rule map_idI)
  then show ?thesis by (simp add: negated_block_def)
qed

lemma converted_block_fine:
  assumes "negates S" and "list_all wf_tx ts"
    and "fb_Header fb = Some h" and "fb_BlockTransactions fb = Some bt" and "bt_Transactions bt = Some ts"
    and "\<And>t. t \<in> set ts \<Longrightarrow> tx_small t \<and> outputs_nonneg t"
    and "\<And>b ac z. m b = Some ac \<Longrightarrow> coin_value ac = Some z \<Longrightarrow> 0 \<le> z"
    and "BlockToRosettaBlock S (NewBlockConverter e m) (Some fb) = Ok b"
  shows "(\<forall>op \<in> set (block_operations b). op_typed op) \<and> ensureNegativeValueInputs S b = Ok b"
proof -
  from assms(8) obtain rs where rs: "converts S (NewBlockConverter e m) ts rs"
    and b: "b = (HeaderToRosettaBlock h)\<lparr>bk_Transactions := rs\<rparr>"
    by (auto simp: BlockToRosettaBlock_Ok_iff [OF assms(3-5)])
  have "coins_nonneg (NewBlockConverter e m)"
    using assms(7) by (simp add: coins_nonneg_def NewBlockConverter_def)
  from converts_fine [OF rs this assms(1)] assms(2,6)
  have fine: "\<forall>r \<in> set (bk_Transactions b). list_all op_fine (tx_Operations r)"
    by (simp add: b list_all_iff)
  then have "ensureNegativeValueInputs S b = Ok (negated_block b)"
    by (intro ensure_block [OF assms(1)]) (auto simp: list_all_iff op_fine_ensurable)
  with negated_block_fine [OF fine] fine show ?thesis
    by (auto simp: block_operations_def list_all_iff op_fine_def)
qed


lemma sample_txs_small: "t \<in> set [sample_tx1, sample_tx2] \<Longrightarrow> tx_small t \<and> outputs_nonneg t"
  by (auto simp: tx_small_def outputs_nonneg_def)


end
