(* ===== verification/Chain_Ledger.thy ===== *)
theory Chain_Ledger
  imports Block_Types
begin

text \<open>
  A reference semantics of the chain, stated on the node's transactions: a ledger of unspent
  boxes, which a transaction updates when it spends distinct unspent boxes and creates fresh
  ones. The operations of a converted block, read as changes of coins, do to the ledger
  what the transactions do.
\<close>

section \<open>The ledger\<close>

type_synonym ledger = "string \<rightharpoonup> account_coin"

definition address_of :: "client option \<Rightarrow> ergo_transaction_output \<Rightarrow> string option" where
  "address_of e x =
     (case output_address (NewBlockConverter e Map.empty) (out_ErgoTree x) of Ok a \<Rightarrow> Some a | _ \<Rightarrow> None)"

definition created_boxes :: "client option \<Rightarrow> ergo_transaction \<Rightarrow> (string \<times> account_coin) list" where
  "created_boxes e t = map (\<lambda>x. (out_id x, made_coin (the (address_of e x)) x)) (tx_outputs t)"

definition valid_tx :: "client option \<Rightarrow> ergo_transaction \<Rightarrow> ledger \<Rightarrow> bool" where
  "valid_tx e t L \<longleftrightarrow>
     wf_tx t \<and> tx_small t \<and> outputs_nonneg t \<and>
     distinct (spent_ids t) \<and> list_all (\<lambda>b. L b \<noteq> None) (spent_ids t) \<and>
     distinct (created_ids t) \<and> list_all (\<lambda>b. L b = None) (created_ids t) \<and>
     list_all (\<lambda>x. address_of e x \<noteq> None) (tx_outputs t)"

definition apply_tx :: "client option \<Rightarrow> ergo_transaction \<Rightarrow> ledger \<Rightarrow> ledger option" where
  "apply_tx e t L =
     (if valid_tx e t L
      then Some ((\<lambda>b. if b \<in> set (spent_ids t) then None else L b) ++ map_of (created_boxes e t))
      else None)"

primrec apply_txs :: "client option \<Rightarrow> ergo_transaction list \<Rightarrow> ledger \<Rightarrow> ledger option" where
  "apply_txs e [] L = Some L"
| "apply_txs e (t # ts) L = Option.bind (apply_tx e t L) (apply_txs e ts)"

definition block_txs :: "full_block \<Rightarrow> ergo_transaction list option" where
  "block_txs fb = Option.bind (fb_BlockTransactions fb) bt_Transactions"

primrec apply_blocks :: "client option \<Rightarrow> full_block list \<Rightarrow> ledger \<Rightarrow> ledger option" where
  "apply_blocks e [] L = Some L"
| "apply_blocks e (fb # fbs) L =
     Option.bind (block_txs fb) (\<lambda>ts. Option.bind (apply_txs e ts L) (apply_blocks e fbs))"

text \<open>The values of the boxes are integers, none of them negative.\<close>

definition ledger_nonneg :: "ledger \<Rightarrow> bool" where
  "ledger_nonneg L \<longleftrightarrow> (\<forall>b ac. L b = Some ac \<longrightarrow> (\<exists>z \<ge> 0. coin_value ac = Some z))"

lemma dom_created_boxes: "dom (map_of (created_boxes e t)) = set (created_ids t)"
  by (simp add: dom_map_of_conv_image_fst created_boxes_def created_ids_def image_image)

lemma apply_tx_dom:
  assumes "apply_tx e t L = Some L'"
  shows "dom L' = (dom L - set (spent_ids t)) \<union> set (created_ids t)"
proof -
  have "L' = (\<lambda>b. if b \<in> set (spent_ids t) then None else L b) ++ map_of (created_boxes e t)"
    using assms by (simp add: apply_tx_def split: if_splits)
  then show ?thesis unfolding dom_map_add dom_created_boxes by (auto simp: dom_created_boxes split: if_splits)
qed

lemma apply_tx_nonneg:
  assumes "apply_tx e t L = Some L'" and "ledger_nonneg L"
  shows "ledger_nonneg L'"
  unfolding ledger_nonneg_def
proof (intro allI impI)
  fix b ac assume ac: "L' b = Some ac"
  from assms(1) have t: "outputs_nonneg t"
    and L': "L' = (\<lambda>b. if b \<in> set (spent_ids t) then None else L b) ++ map_of (created_boxes e t)"
    by (auto simp: apply_tx_def valid_tx_def split: if_splits)
  from ac have "L b = Some ac \<or> (b, ac) \<in> set (created_boxes e t)"
    by (auto simp: L' map_add_Some_iff split: if_splits dest: map_of_SomeD)
  then show "\<exists>z \<ge> 0. coin_value ac = Some z"
    using assms(2) t by (auto simp: ledger_nonneg_def created_boxes_def outputs_nonneg_def)
qed

lemma apply_txs_nonneg: "apply_txs e ts L = Some L' \<Longrightarrow> ledger_nonneg L \<Longrightarrow> ledger_nonneg L'"
  by (induction ts arbitrary: L) (auto simp: bind_eq_Some_conv intro: apply_tx_nonneg)

text \<open>What a valid list of transactions provides for the search and the converter.\<close>

lemma apply_txs_valid:
  assumes "apply_txs e ts L = Some L'" and "t \<in> set ts"
  shows "\<exists>M. valid_tx e t M"
  using assms
  by (induction ts arbitrary: L) (auto simp: bind_eq_Some_conv apply_tx_def split: if_splits)

lemma address_of_ok:
  "address_of e x \<noteq> None \<longleftrightarrow> is_ok (output_address (NewBlockConverter e Map.empty) (out_ErgoTree x))"
  by (cases "output_address (NewBlockConverter e Map.empty) (out_ErgoTree x)") (simp_all add: address_of_def)

lemma valid_tx_fields:
  assumes "valid_tx e t L"
  shows "wf_tx t" "tx_small t" "outputs_nonneg t" "set (spent_ids t) \<inter> set (created_ids t) = {}"
    and "x \<in> set (tx_outputs t) \<Longrightarrow> is_ok (output_address (NewBlockConverter e Map.empty) (out_ErgoTree x))"
  using assms unfolding valid_tx_def address_of_ok by (auto simp: list_all_iff)

lemma apply_txs_available:
  assumes "apply_txs e ts L = Some L'" and "j < length ts" and "b \<in> set (spent_ids (ts ! j))"
  shows "(\<exists>l < j. b \<in> set (created_ids (ts ! l))) \<or> L b \<noteq> None"
  using assms
proof (induction ts arbitrary: L j)
  case (Cons t ts)
  from Cons.prems(1) obtain M where M: "apply_tx e t L = Some M" "apply_txs e ts M = Some L'"
    by (auto simp: bind_eq_Some_conv)
  show ?case
  proof (cases j)
    case 0
    with Cons.prems(3) M(1) show ?thesis by (auto simp: apply_tx_def valid_tx_def list_all_iff split: if_splits)
  next
    case (Suc k)
    with Cons.IH [OF M(2), of k] Cons.prems(2,3)
    have "(\<exists>l < k. b \<in> set (created_ids (ts ! l))) \<or> b \<in> dom M" by auto
    with apply_tx_dom [OF M(1)] Suc show ?thesis by (auto simp: Ex_less_Suc2)
  qed
qed simp

section \<open>Operations as changes of coins\<close>

text \<open>
  What a store of coins makes of an operation: a created coin is new, a spent one is there;
  nothing else changes a coin.
\<close>

definition coin_op :: "operation \<Rightarrow> ledger \<Rightarrow> ledger option" where
  "coin_op op L =
     (case op_CoinChange op of
        None \<Rightarrow> Some L
      | Some cc \<Rightarrow>
          let b = ci_Identifier (cc_CoinIdentifier cc)
          in case cc_CoinAction cc of
               CoinCreated \<Rightarrow> if L b = None then map_option (\<lambda>(i, ac). L(i \<mapsto> ac)) (created_coin op) else None
             | CoinSpent \<Rightarrow> if L b = None then None else Some (L(b := None))
             | OtherAction a \<Rightarrow> None)"

primrec coin_ops :: "operation list \<Rightarrow> ledger \<Rightarrow> ledger option" where
  "coin_ops [] L = Some L"
| "coin_ops (op # ops) L = Option.bind (coin_op op L) (coin_ops ops)"

lemma coin_ops_append: "coin_ops (xs @ ys) L = Option.bind (coin_ops xs L) (coin_ops ys)"
proof (induction xs arbitrary: L)
  case (Cons x xs)
  then show ?case by (cases "coin_op x L") simp_all
qed simp

lemma coin_ops_spent:
  assumes "list_all2 (\<lambda>op b. \<exists>k n ac z. op = spent_op k n b ac z) ops bs"
    and "distinct bs" and "list_all (\<lambda>b. L b \<noteq> None) bs"
  shows "coin_ops ops L = Some (\<lambda>b. if b \<in> set bs then None else L b)"
  using assms
proof (induction arbitrary: L rule: list_all2_induct)
  case (Cons op ops b bs)
  then have "list_all (\<lambda>c. (L(b := None)) c \<noteq> None) bs" by (auto simp: list_all_iff)
  with Cons have "coin_ops ops (L(b := None)) = Some (\<lambda>c. if c \<in> set bs then None else (L(b := None)) c)" by simp
  with Cons.hyps(1) Cons.prems(2) show ?case
    by (auto simp: coin_op_def Let_def fun_eq_iff)
qed simp

lemma coin_ops_made:
  assumes "list_all2 (\<lambda>op p. \<exists>k rel addr idx x. op = made_op k rel addr idx x \<and> p = (out_id x, made_coin addr x)) ops ps"
    and "distinct (map fst ps)" and "list_all (\<lambda>p. L (fst p) = None) ps"
  shows "coin_ops ops L = Some (L ++ map_of ps)"
  using assms
proof (induction arbitrary: L rule: list_all2_induct)
  case (Cons op ops p ps)
  obtain b ac where p: "p = (b, ac)" by (cases p)
  with Cons.hyps(1) have op: "coin_op op L = Some (L(b \<mapsto> ac))"
    using Cons.prems(2) by (auto simp: coin_op_def Let_def)
  have "list_all (\<lambda>q. (L(b \<mapsto> ac)) (fst q) = None) ps"
    using Cons.prems p by (auto simp: list_all_iff image_iff)
  with Cons have "coin_ops ops (L(b \<mapsto> ac)) = Some (L(b \<mapsto> ac) ++ map_of ps)" by simp
  moreover have "map_of ps b = None" using Cons.prems(1) p by (simp add: map_of_eq_None_iff)
  then have "L(b \<mapsto> ac) ++ map_of ps = L ++ map_of (p # ps)"
    by (auto simp: p fun_eq_iff map_add_def split: option.split)
  moreover have "coin_ops (op # ops) L = coin_ops ops (L(b \<mapsto> ac))" by (simp add: op)
  ultimately show ?case by (simp only:)
qed simp

text \<open>A converted transaction changes the coins as the node's transaction changes the ledger.\<close>

lemma coin_ops_tx:
  assumes "negates S" and "TxToRosettaTx S c t = Ok r" and "apply_tx e t L = Some L'"
    and addr: "output_address c = output_address (NewBlockConverter e Map.empty)"
  shows "coin_ops (tx_Operations r) L = Some L'"
proof -
  from assms(3) have v: "valid_tx e t L"
    and L': "L' = (\<lambda>b. if b \<in> set (spent_ids t) then None else L b) ++ map_of (created_boxes e t)"
    by (auto simp: apply_tx_def split: if_splits)
  note wf = valid_tx_fields(1) [OF v]
  from TxToRosettaTx_OkE [OF wf assms(1,2)] obtain ins outs where
    r: "r = \<lparr>tx_TransactionIdentifier = \<lparr>ti_Hash = tx_id t\<rparr>, tx_Operations = ins @ outs\<rparr>"
    and len: "length ins = length (tx_inputs t)" "length outs = length (tx_outputs t)"
    and i: "\<And>k. k < length (tx_inputs t) \<Longrightarrow>
       \<exists>ac z. findCoinForInput c (in_BoxID (tx_inputs t ! k)) = Ok ac \<and> coin_value ac = Some z \<and>
         ins ! k = spent_op (int64_of_len k) (int64_of_len k) (in_BoxID (tx_inputs t ! k)) ac z"
    and o': "\<And>k. k < length (tx_outputs t) \<Longrightarrow>
       \<exists>addr idx. output_address c (out_ErgoTree (tx_outputs t ! k)) = Ok addr \<and>
         out_Index (tx_outputs t ! k) = Some idx \<and>
         outs ! k = made_op (int64_of_len (length ins + k)) (map related_of ins) addr idx
                      (tx_outputs t ! k)"
    by metis
  let ?M = "\<lambda>b. if b \<in> set (spent_ids t) then None else L b"
  have "list_all2 (\<lambda>op b. \<exists>k n ac z. op = spent_op k n b ac z) ins (spent_ids t)"
    using i len by (fastforce simp: list_all2_conv_all_nth spent_ids_def)
  then have ins: "coin_ops ins L = Some ?M"
    by (rule coin_ops_spent) (use v in \<open>simp_all add: valid_tx_def\<close>)
  have "list_all2 (\<lambda>op p. \<exists>k rel addr idx x. op = made_op k rel addr idx x \<and> p = (out_id x, made_coin addr x))
      outs (created_boxes e t)"
    unfolding list_all2_conv_all_nth
  proof (intro conjI allI impI)
    show "length outs = length (created_boxes e t)" using len by (simp add: created_boxes_def)
    fix k assume "k < length outs"
    with o' [of k] len show "\<exists>ka rel addr idx x. outs ! k = made_op ka rel addr idx x \<and>
        created_boxes e t ! k = (out_id x, made_coin addr x)"
      by (fastforce simp: created_boxes_def address_of_def addr)
  qed
  moreover have "map fst (created_boxes e t) = created_ids t"
    by (simp add: created_boxes_def created_ids_def)
  moreover have "list_all (\<lambda>p. ?M (fst p) = None) (created_boxes e t)"
    using v by (auto simp: valid_tx_def list_all_iff created_boxes_def created_ids_def)
  ultimately have "coin_ops outs ?M = Some L'"
    unfolding L' by (intro coin_ops_made) (use v in \<open>simp_all add: valid_tx_def\<close>)
  with ins show ?thesis by (simp add: r coin_ops_append)
qed

lemma coin_ops_txs:
  assumes "negates S" and "converts S c ts rs" and "apply_txs e ts L = Some L'"
    and "output_address c = output_address (NewBlockConverter e Map.empty)"
  shows "coin_ops (concat (map tx_Operations rs)) L = Some L'"
  using assms(2-)
proof (induction ts arbitrary: c rs L)
  case (Cons t ts)
  then show ?case
    by (auto simp: converts_Cons bind_eq_Some_conv coin_ops_append dest: coin_ops_tx [OF assms(1)])
qed simp

end
