(* ===== verification/Chain_Sync.thy ===== *)
theory Chain_Sync
  imports Chain_Ledger Indexer_Fetch
begin

text \<open>
  The components together: a valid chain of blocks, fetched, seen and added one after the
  other, is indexed without an error, and what is stored in the end is the ledger of the
  reference semantics.
\<close>

section \<open>Syncing block by block\<close>

text \<open>
  What the syncer calls for each block when nothing else runs: fetch it, announce it, add it.
\<close>

definition sync_block ::
  "sdk \<Rightarrow> 'db storage_api \<Rightarrow> configuration \<Rightarrow> client option \<Rightarrow>
   (nat \<Rightarrow> attempt) \<times> partial_block_identifier \<Rightarrow> ('db indexer, unit) stm"
where
  "sync_block S A cfg c rq i =
     sbind (sgo (Block S (fst rq) c (search_alone S A cfg i) (snd rq))) (\<lambda>blk.
     sbind (BlockSeen A (Ok ()) blk) (\<lambda>_. BlockAdded S A blk)) i"

definition sync_blocks ::
  "sdk \<Rightarrow> 'db storage_api \<Rightarrow> configuration \<Rightarrow> client option \<Rightarrow>
   ((nat \<Rightarrow> attempt) \<times> partial_block_identifier) list \<Rightarrow> ('db indexer, unit) stm"
where
  "sync_blocks S A cfg c rqs = sfor (sync_block S A cfg c) rqs"

text \<open>
  What a storage of coins in the states \<open>D\<close> with the coins \<open>V\<close> does: it finds exactly those
  coins; it takes an announcement without changing them; a block on top of its head whose
  changes of coins are possible brings it to a state in \<open>E\<close> with these changes made.
\<close>

definition stores_coins ::
  "'db storage_api \<Rightarrow> ('db \<Rightarrow> bool) \<Rightarrow> ('db \<Rightarrow> bool) \<Rightarrow> ('db \<Rightarrow> ledger) \<Rightarrow> bool"
where
  "stores_coins A D E V \<longleftrightarrow>
     (\<forall>db. D db \<longrightarrow>
       (\<forall>b. case V db b of
          Some ac \<Rightarrow> st_GetCoin A db \<lparr>ci_Identifier = b\<rparr> = Ok (ac_Coin ac, ac_Account ac)
        | None \<Rightarrow> \<exists>e. st_GetCoin A db \<lparr>ci_Identifier = b\<rparr> = Err e \<and> errors_Is e ErrCoinNotFound) \<and>
       (\<forall>blk. \<exists>db'. st_SeeBlock A blk db = (Ok (), db') \<and> D db' \<and> V db' = V db \<and>
          st_GetHead A db' = st_GetHead A db) \<and>
       (\<forall>blk m. st_GetHead A db = Ok (bk_ParentBlockIdentifier blk) \<longrightarrow>
          coin_ops (block_operations blk) (V db) = Some m \<longrightarrow>
          (\<exists>db'. st_AddBlock A blk db = (Ok (), db') \<and> E db' \<and> V db' = m \<and>
             st_GetHead A db' = Ok (bk_BlockIdentifier blk))))"

abbreviation coin_storage :: "'db storage_api \<Rightarrow> ('db \<Rightarrow> bool) \<Rightarrow> ('db \<Rightarrow> ledger) \<Rightarrow> bool" where
  "coin_storage A D V \<equiv> stores_coins A D D V"

text \<open>The node gives a block within the retry limit.\<close>

definition node_gives :: "(nat \<Rightarrow> attempt) \<times> partial_block_identifier \<Rightarrow> full_block \<Rightarrow> bool" where
  "node_gives rq fb \<longleftrightarrow>
     (\<exists>k \<le> retryLimit.
        (\<forall>n < k. at_ctxErr (fst rq n) = None \<and> at_sleep (fst rq n) = None \<and>
           (\<exists>e. getBlockByIdentifier (at_client (fst rq n)) (snd rq) = Err e)) \<and>
        at_ctxErr (fst rq k) = None \<and>
        getBlockByIdentifier (at_client (fst rq k)) (snd rq) = Ok (Some fb))"

text \<open>Each block is the next one of the one before, above the genesis block.\<close>

definition header_id :: "block_header \<Rightarrow> block_identifier" where
  "header_id h = \<lparr>bi_Index = int64_of_int32 (bh_Height h), bi_Hash = bh_ID h\<rparr>"

definition follows :: "block_header \<Rightarrow> block_identifier \<Rightarrow> bool" where
  "follows h head \<longleftrightarrow> int64_of_int32 (bh_Height h) = bi_Index head + 1 \<and>
     int64_of_int32 (bh_Height h) \<noteq> genesisBlockIndex \<and> bh_ParentID h = bi_Hash head"

fun linked :: "block_identifier \<Rightarrow> full_block list \<Rightarrow> bool" where
  "linked head [] = True"
| "linked head (fb # fbs) =
     (case fb_Header fb of None \<Rightarrow> False | Some h \<Rightarrow> follows h head \<and> linked (header_id h) fbs)"

fun tip :: "block_identifier \<Rightarrow> full_block list \<Rightarrow> block_identifier" where
  "tip head [] = head"
| "tip head (fb # fbs) = tip (case fb_Header fb of None \<Rightarrow> head | Some h \<Rightarrow> header_id h) fbs"

text \<open>The SDK's asserter takes every block with the identifier of one of these.\<close>

definition asserter_takes :: "sdk \<Rightarrow> full_block list \<Rightarrow> bool" where
  "asserter_takes S fbs \<longleftrightarrow>
     (\<forall>fb \<in> set fbs. \<forall>h blk. fb_Header fb = Some h \<longrightarrow> bk_BlockIdentifier blk = header_id h \<longrightarrow>
        AssertBlock S blk = Ok ())"

section \<open>The handlers without waits\<close>

text \<open>The state between two blocks.\<close>

definition settled ::
  "'db storage_api \<Rightarrow> ('db \<Rightarrow> bool) \<Rightarrow> ('db \<Rightarrow> ledger) \<Rightarrow> ledger \<Rightarrow> block_identifier \<Rightarrow> 'db indexer \<Rightarrow> bool"
where
  "settled A D V L head i \<longleftrightarrow>
     chan_ok i \<and> \<not> wt_locked (ix_waiter i) \<and> ix_coinCache i = Map.empty \<and>
     D (ix_db i) \<and> V (ix_db i) = L \<and> st_GetHead A (ix_db i) = Ok head"

lemma BlockSeen_ok:
  assumes "chan_ok i" and "\<not> wt_locked (ix_waiter i)" and "st_SeeBlock A blk (ix_db i) = (Ok (), db')"
  shows "\<exists>i'. BlockSeen A (Ok ()) blk i = (Ok (), i') \<and> chan_ok i' \<and> \<not> wt_locked (ix_waiter i') \<and>
    ix_db i' = db' \<and> ix_coinCache i' = foldl cache_op (ix_coinCache i) (block_operations blk) \<and>
    ix_seen i' = ix_seen i + 1"
proof -
  let ?j = "i\<lparr>ix_coinCache := foldl cache_op (ix_coinCache i) (block_operations blk),
    ix_seen := ix_seen i + 1, ix_db := db'\<rparr>"
  have "chan_ok ?j" "\<not> wt_locked (ix_waiter ?j)" using assms(1,2) chan_ok_cong [of ?j i] by simp_all
  then obtain i' where i': "BlockSeen_wake blk ?j = (Ok (), i')" "chan_ok i'" "\<not> wt_locked (ix_waiter i')"
    "retagged (wake_entry (set (tx_hashes blk))) ?j i'" using BlockSeen_wake_ok by blast
  then show ?thesis
    using assms(3) by (simp add: BlockSeen_def BlockSeen_cache_def BlockSeen_count_def BlockSeen_store_def
        with_db_def smap_err_def retagged_def)
qed

lemma BlockAdded_ok:
  assumes "chan_ok i" and "\<not> wt_locked (ix_waiter i)" and "ensureNegativeValueInputs S blk = Ok blk"
    and "st_AddBlock A blk (ix_db i) = (Ok (), db')"
  shows "\<exists>i'. BlockAdded S A blk i = (Ok (), i') \<and> chan_ok i' \<and> \<not> wt_locked (ix_waiter i') \<and>
    ix_db i' = db' \<and> ix_coinCache i' = foldl uncache_op (ix_coinCache i) (block_operations blk) \<and>
    ix_seen i' = ix_seen i"
proof -
  let ?j = "i\<lparr>ix_db := db', ix_coinCache := foldl uncache_op (ix_coinCache i) (block_operations blk)\<rparr>"
  have "chan_ok ?j" "\<not> wt_locked (ix_waiter ?j)" using assms(1,2) chan_ok_cong [of ?j i] by simp_all
  then obtain i' where i': "BlockAdded_abort blk ?j = (Ok (), i')" "chan_ok i'" "\<not> wt_locked (ix_waiter i')"
    "retagged (abort_stale blk UNIV) ?j i'" using BlockAdded_abort_ok by blast
  then show ?thesis
    using assms(3,4) by (simp add: BlockAdded_def BlockAdded_store_def BlockAdded_uncache_def
        with_db_def smap_err_def retagged_def)
qed

text \<open>The cache is empty again after both.\<close>

lemma cache_emptied: "foldl uncache_op (foldl cache_op Map.empty ops) ops = Map.empty"
proof -
  have "foldl uncache_op (foldl cache_op Map.empty ops) ops =
      (\<lambda>k. if k \<in> created_in ops then None else (Map.empty :: ledger) k)"
    using cc.get_del_after_put [of "map fst (List.map_filter created_coin ops)"
        "List.map_filter created_coin ops" Map.empty]
    by (simp add: foldl_cache_op foldl_uncache_op created_in_filter fun_eq_iff)
  then show ?thesis by (simp add: fun_eq_iff)
qed

section \<open>One block\<close>

lemma stores_coins_seeE:
  assumes "stores_coins A D E V" and "D db"
  obtains db' where "st_SeeBlock A blk db = (Ok (), db')" "D db'" "V db' = V db"
    "st_GetHead A db' = st_GetHead A db"
  using assms unfolding stores_coins_def by blast

lemma stores_coins_addE:
  assumes "stores_coins A D E V" and "D db" and "st_GetHead A db = Ok (bk_ParentBlockIdentifier blk)"
    and "coin_ops (block_operations blk) (V db) = Some m"
  obtains db' where "st_AddBlock A blk db = (Ok (), db')" "E db'" "V db' = m"
    "st_GetHead A db' = Ok (bk_BlockIdentifier blk)"
  using assms unfolding stores_coins_def by blast

lemma coin_at_settled:
  assumes "stores_coins A D E V" and "settled A D V L head i"
  shows "coin_at A i = L"
proof
  fix b
  from assms have "case V (ix_db i) b of
      Some ac \<Rightarrow> st_GetCoin A (ix_db i) \<lparr>ci_Identifier = b\<rparr> = Ok (ac_Coin ac, ac_Account ac)
    | None \<Rightarrow> \<exists>e. st_GetCoin A (ix_db i) \<lparr>ci_Identifier = b\<rparr> = Err e \<and> errors_Is e ErrCoinNotFound"
    and "V (ix_db i) = L" "ix_coinCache i = Map.empty"
    by (auto simp: stores_coins_def settled_def)
  then show "coin_at A i b = L b" by (auto simp: coin_at_def split: option.splits)
qed

lemma output_address_new: "output_address (NewBlockConverter c m) = output_address (NewBlockConverter c Map.empty)"
  by (simp add: fun_eq_iff output_address_def NewBlockConverter_def)

lemma header_ids:
  assumes "follows h head"
  shows "bk_BlockIdentifier (HeaderToRosettaBlock h) = header_id h"
    and "bk_ParentBlockIdentifier (HeaderToRosettaBlock h) = head"
  using assms by (cases head; auto simp: HeaderToRosettaBlock_def header_id_def follows_def Let_def)+

lemma sync_block_ok:
  assumes S: "negates S" "contains_spec S" and A: "stores_coins A D E V" and now: "settled A D V L head i"
    and pos: "ledger_nonneg L" and h: "fb_Header fb = Some h" and flw: "follows h head"
    and txs: "block_txs fb = Some ts" and L': "apply_txs c ts L = Some L'" and gives: "node_gives rq fb"
    and asserter: "\<And>blk. bk_BlockIdentifier blk = header_id h \<Longrightarrow> AssertBlock S blk = Ok ()"
  shows "\<exists>i'. sync_block S A cfg c rq i = (Ok (), i') \<and> settled A E V L' (header_id h) i' \<and>
    ix_seen i' = ix_seen i + 1 \<and>
    (\<exists>blk. Block S (fst rq) c (search_alone S A cfg i) (snd rq) = Ok blk \<and> bk_BlockIdentifier blk = header_id h)"
proof -
  obtain bt where bt: "fb_BlockTransactions fb = Some bt" "bt_Transactions bt = Some ts"
    using txs by (auto simp: block_txs_def bind_eq_Some_conv)
  have i: "chan_ok i" "\<not> wt_locked (ix_waiter i)" "ix_coinCache i = Map.empty" "D (ix_db i)" "V (ix_db i) = L"
    "st_GetHead A (ix_db i) = Ok head" using now by (simp_all add: settled_def)
  have valid: "\<exists>M. valid_tx c t M" if "t \<in> set ts" for t by (rule apply_txs_valid [OF L' that])
  have wf: "list_all wf_tx ts" unfolding list_all_iff using valid valid_tx_fields(1) by blast
  have small: "tx_small t \<and> outputs_nonneg t" if "t \<in> set ts" for t
    using valid [OF that] valid_tx_fields(2,3) by blast
  have coin: "coin_at A i = L" by (rule coin_at_settled [OF A now])
  obtain k where k: "k \<le> retryLimit" "\<And>n. n < k \<Longrightarrow> at_ctxErr (fst rq n) = None \<and> at_sleep (fst rq n) = None \<and>
      (\<exists>e. getBlockByIdentifier (at_client (fst rq n)) (snd rq) = Err e)"
    "at_ctxErr (fst rq k) = None" "getBlockByIdentifier (at_client (fst rq k)) (snd rq) = Ok (Some fb)"
    using gives unfolding node_gives_def by blast
  have match: "checkHeaderMatch A (ix_db i) (Some fb) = Ok ()"
    using i(6) h flw by (simp add: checkHeaderMatch_def follows_def)
  obtain cs blk where blk: "Block S (fst rq) c (search_alone S A cfg i) (snd rq) = Ok blk"
    and conv: "BlockToRosettaBlock S (NewBlockConverter c (found_at A i cs)) (Some fb) = Ok blk"
  proof -
    have "\<exists>cs blk. GetInputsForTxs S (Some ts) = Ok cs \<and>
      Block S (fst rq) c (search_alone S A cfg i) (snd rq) = Ok blk \<and>
      BlockToRosettaBlock S (NewBlockConverter c (found_at A i cs)) (Some fb) = Ok blk \<and>
      bk_BlockIdentifier blk = \<lparr>bi_Index = int64_of_int32 (bh_Height h), bi_Hash = bh_ID h\<rparr> \<and>
      map (\<lambda>t. ti_Hash (tx_TransactionIdentifier t)) (bk_Transactions blk) = map tx_id ts"
    proof (rule Block_answers [where env = "fst rq" and b = "snd rq" and k = k, OF S wf h bt k(1,2,3,4) i(6) match])
      show "(\<exists>l < j. x \<in> set (created_ids (ts ! l))) \<or> (\<exists>ac z. coin_at A i x = Some ac \<and> coin_value ac = Some z)"
        if "j < length ts" "x \<in> set (spent_ids (ts ! j))" for j x
        using apply_txs_available [OF L' that] pos unfolding coin ledger_nonneg_def by blast
      show "set (spent_ids t) \<inter> set (created_ids t) = {}" if "t \<in> set ts" for t
        using valid [OF that] valid_tx_fields(4) by blast
      show "is_ok (output_address (NewBlockConverter c Map.empty) (out_ErgoTree x))"
        if "t \<in> set ts" "x \<in> set (tx_outputs t)" for t x
        using valid [OF that(1)] valid_tx_fields(5) that(2) by blast
      show "AssertBlock S blk = Ok ()"
        if "bk_BlockIdentifier blk = bk_BlockIdentifier (HeaderToRosettaBlock h)" for blk
        using asserter [of blk] that header_ids(1) [OF flw] by simp
    qed
    with that show thesis by blast
  qed
  have found: "0 \<le> z" if "found_at A i cs b = Some ac" "coin_value ac = Some z" for b ac z
  proof -
    have "L b = Some ac" using that(1) by (simp add: found_at_def coin split: if_splits)
    with pos that(2) show ?thesis by (fastforce simp: ledger_nonneg_def)
  qed
  have "(\<forall>op \<in> set (block_operations blk). op_typed op) \<and> ensureNegativeValueInputs S blk = Ok blk"
  proof (rule converted_block_fine [OF S(1) wf h bt _ _ conv])
    show "tx_small t \<and> outputs_nonneg t" if "t \<in> set ts" for t by (rule small [OF that])
    show "0 \<le> z" if "found_at A i cs b = Some ac" "coin_value ac = Some z" for b ac z by (rule found [OF that])
  qed
  then have neg: "ensureNegativeValueInputs S blk = Ok blk" ..
  from conv obtain rs where rs: "converts S (NewBlockConverter c (found_at A i cs)) ts rs"
    and blk': "blk = (HeaderToRosettaBlock h)\<lparr>bk_Transactions := rs\<rparr>"
    unfolding BlockToRosettaBlock_Ok_iff [OF h bt] by blast
  have ids: "bk_BlockIdentifier blk = header_id h" "bk_ParentBlockIdentifier blk = head"
    using header_ids [OF flw] by (simp_all add: blk')
  have ops: "coin_ops (block_operations blk) L = Some L'"
    using coin_ops_txs [OF S(1) rs L' output_address_new] by (simp add: blk' block_operations_def)
  obtain db1 where db1: "st_SeeBlock A blk (ix_db i) = (Ok (), db1)" "D db1" "V db1 = L" "st_GetHead A db1 = Ok head"
    using stores_coins_seeE [OF A i(4), of blk] i(5,6) by metis
  from BlockSeen_ok [OF i(1,2) db1(1)] obtain i1 where i1: "BlockSeen A (Ok ()) blk i = (Ok (), i1)"
    "chan_ok i1" "\<not> wt_locked (ix_waiter i1)" "ix_db i1 = db1" "ix_seen i1 = ix_seen i + 1"
    "ix_coinCache i1 = foldl cache_op (ix_coinCache i) (block_operations blk)" by blast
  obtain db2 where db2: "st_AddBlock A blk db1 = (Ok (), db2)" "E db2" "V db2 = L'" "st_GetHead A db2 = Ok (header_id h)"
    using stores_coins_addE [OF A db1(2), of blk L'] db1(3,4) ids ops by auto
  then have "st_AddBlock A blk (ix_db i1) = (Ok (), db2)" by (simp add: i1)
  from BlockAdded_ok [OF i1(2,3) neg this] obtain i2 where i2: "BlockAdded S A blk i1 = (Ok (), i2)"
    "chan_ok i2" "\<not> wt_locked (ix_waiter i2)" "ix_db i2 = db2" "ix_seen i2 = ix_seen i1"
    "ix_coinCache i2 = foldl uncache_op (ix_coinCache i1) (block_operations blk)" by blast
  have "settled A E V L' (header_id h) i2"
    using i2 db2 i1(6) i(3) cache_emptied by (simp add: settled_def)
  with i2 i1 blk ids(1) show ?thesis by (simp add: sync_block_def)
qed

section \<open>A whole chain\<close>

lemma sync_blocks_ok:
  assumes S: "negates S" "contains_spec S" and A: "coin_storage A D V"
    and "settled A D V L0 head i" and "ledger_nonneg L0" and "linked head fbs"
    and "apply_blocks c fbs L0 = Some L" and "list_all2 node_gives rqs fbs"
    and "asserter_takes S fbs"
  shows "\<exists>i'. sync_blocks S A cfg c rqs i = (Ok (), i') \<and> settled A D V L (tip head fbs) i' \<and>
    ix_seen i' = ix_seen i + of_nat (length fbs)"
  using assms(4-)
proof (induction fbs arbitrary: rqs L0 head i)
  case Nil
  then show ?case by (simp add: sync_blocks_def)
next
  case (Cons fb fbs)
  from Cons.prems(5) obtain rq rqs' where rqs: "rqs = rq # rqs'" "node_gives rq fb" "list_all2 node_gives rqs' fbs"
    by (auto simp: list_all2_Cons2)
  from Cons.prems(3) obtain h where h: "fb_Header fb = Some h" "follows h head" "linked (header_id h) fbs"
    by (auto split: option.splits)
  from Cons.prems(4) obtain ts L1 where L1: "block_txs fb = Some ts" "apply_txs c ts L0 = Some L1"
    "apply_blocks c fbs L1 = Some L" by (auto simp: bind_eq_Some_conv)
  obtain j where j: "sync_block S A cfg c rq i = (Ok (), j)" "settled A D V L1 (header_id h) j" "ix_seen j = ix_seen i + 1"
    using sync_block_ok [OF S A Cons.prems(1,2) h(1,2) L1(1,2) rqs(2), of cfg] Cons.prems(6) h(1)
    by (auto simp: asserter_takes_def)
  have "\<exists>i'. sync_blocks S A cfg c rqs' j = (Ok (), i') \<and> settled A D V L (tip (header_id h) fbs) i' \<and>
      ix_seen i' = ix_seen j + of_nat (length fbs)"
    by (rule Cons.IH [OF j(2) apply_txs_nonneg [OF L1(2) Cons.prems(2)] h(3) L1(3) rqs(3)])
      (use Cons.prems(6) in \<open>simp add: asserter_takes_def\<close>)
  with j show ?case by (auto simp: sync_blocks_def rqs(1) h(1) add.assoc add.commute)
qed


text \<open>
  The instance: the sample storage at block 1 with box \<open>g\<close>, and the sample block, which spends
  it and an output of its own, given after three failures.
\<close>

definition sample_view :: "sample_db \<Rightarrow> ledger" where
  "sample_view db b = map_option (\<lambda>(am, owner).
     \<lparr>ac_Account = owner, ac_Coin = \<lparr>co_CoinIdentifier = \<lparr>ci_Identifier = b\<rparr>, co_Amount = am\<rparr>\<rparr>) (sd_coins db b)"

lemma sample_view_op:
  assumes "coin_op op (sample_view db) = Some m"
  shows "sample_view (sample_store_op db op) = m"
proof (cases "op_CoinChange op")
  case None
  with assms show ?thesis by (simp add: coin_op_def sample_store_op_def)
next
  case (Some cc)
  with assms show ?thesis
    by (cases "cc_CoinAction cc"; cases "cc_CoinIdentifier cc")
      (auto simp: coin_op_def sample_store_op_def created_coin_def sample_view_def Let_def fun_eq_iff split: if_splits)
qed

lemma sample_view_ops:
  "coin_ops ops (sample_view db) = Some m \<Longrightarrow> sample_view (foldl sample_store_op db ops) = m"
  by (induction ops arbitrary: db) (auto simp: bind_eq_Some_conv dest: sample_view_op)

lemma sample_coin_storage: "coin_storage sample_storage (\<lambda>_. True) sample_view"
proof -
  have "sample_view (db\<lparr>sd_head := h\<rparr>) = sample_view db" for db h by (simp add: sample_view_def fun_eq_iff)
  then show ?thesis
    by (auto simp: stores_coins_def sample_storage_def sample_view_def [of _ b for b] sample_view_ops
        split: option.splits)
qed

lemma sample_chain_valid:
  "case apply_blocks None [sample_block] (sample_view stored_db) of
     None \<Rightarrow> False
   | Some L \<Rightarrow> L ''g'' = None \<and> L ''a'' = None \<and>
       L ''b'' = Some (made_coin ''4MQyMKvMbnCJG3aJ'' (mk_output ''b'' 40 1)) \<and>
       L ''c'' = Some (made_coin ''4MQyMKvMbnCJG3aJ'' (mk_output ''c'' 60 0))"
proof -
  have "tx_small t" "outputs_nonneg t" if "t \<in> set [sample_tx1, sample_tx2]" for t
    using sample_txs_small [OF that] by simp_all
  moreover have "address_of None (mk_output b v k) = Some ''4MQyMKvMbnCJG3aJ''" for b v k
    by (simp add: address_of_def mk_output_def)
  moreover have "sample_view stored_db = [''g'' \<mapsto> mk_coin ''addr'' ''g'' ''100'']"
    by (simp add: fun_eq_iff sample_view_def stored_db_def sample_db1_def mk_coin_def)
  ultimately show ?thesis
    by (simp add: block_txs_def sample_fields apply_tx_def valid_tx_def created_boxes_def)
qed

lemma stored_nonneg: "ledger_nonneg (sample_view stored_db)"
  by (auto simp: ledger_nonneg_def sample_view_def stored_db_def sample_db1_def coin_value_def SetString_def
      read_nat_def digit_val_def)


end
