(* ===== verification/Chain_Reorg.thy ===== *)
theory Chain_Reorg
  imports Chain_Sync "HOL-Library.Sublist"
begin

text \<open>
  Reorganisations. The syncer takes blocks one after the other; when \<open>Block\<close> ends with
  \<open>ErrOrphanHead\<close> it removes the last block instead. Against a reference machine, a stack of
  the blocks of the current branch with the ledger after each, the indexer's storage holds
  that stack after every step.
\<close>

section \<open>The syncer's steps\<close>

text \<open>
  What the syncer keeps: the blocks of the branch, the last one first. An orphaned head is
  removed only when it knows the block.
\<close>

definition sync_next ::
  "sdk \<Rightarrow> 'db storage_api \<Rightarrow> configuration \<Rightarrow> client option \<Rightarrow>
   (nat \<Rightarrow> attempt) \<times> partial_block_identifier \<Rightarrow> (block_identifier list \<times> 'db indexer, unit) stm"
where
  "sync_next S A cfg c rq = (\<lambda>(past, i).
     case Block S (fst rq) c (search_alone S A cfg i) (snd rq) of
       Ok blk \<Rightarrow>
         (case sbind (BlockSeen A (Ok ()) blk) (\<lambda>_. BlockAdded S A blk) i of
            (r, i') \<Rightarrow> (r, (bk_BlockIdentifier blk # past, i')))
     | Err e \<Rightarrow>
         if errors_Is e ErrOrphanHead \<and> past \<noteq> []
         then (case BlockRemoved A (hd past) i of (r, i') \<Rightarrow> (r, (tl past, i')))
         else (Err e, (past, i))
     | Panic p \<Rightarrow> (Panic p, (past, i)))"

definition sync_all ::
  "sdk \<Rightarrow> 'db storage_api \<Rightarrow> configuration \<Rightarrow> client option \<Rightarrow>
   ((nat \<Rightarrow> attempt) \<times> partial_block_identifier) list \<Rightarrow>
   (block_identifier list \<times> 'db indexer, unit) stm"
where
  "sync_all S A cfg c rqs = sfor (sync_next S A cfg c) rqs"

section \<open>The reference machine\<close>

type_synonym branch = "(block_identifier \<times> ledger) list"

text \<open>The next block by height which does not name the head as its parent.\<close>

definition orphans :: "full_block \<Rightarrow> block_identifier \<Rightarrow> bool" where
  "orphans fb head \<longleftrightarrow>
     (case fb_Header fb of
        None \<Rightarrow> False
      | Some h \<Rightarrow> int64_of_int32 (bh_Height h) = bi_Index head + 1 \<and> bh_ParentID h \<noteq> bi_Hash head) \<and>
     (case block_txs fb of None \<Rightarrow> False | Some ts \<Rightarrow> list_all wf_tx ts)"

definition extend :: "client option \<Rightarrow> full_block \<Rightarrow> block_identifier \<times> ledger \<Rightarrow> (block_identifier \<times> ledger) option" where
  "extend c fb = (\<lambda>(head, L).
     Option.bind (fb_Header fb) (\<lambda>h.
     if follows h head
     then map_option (Pair (header_id h)) (Option.bind (block_txs fb) (\<lambda>ts. apply_txs c ts L))
     else None))"

fun follow :: "client option \<Rightarrow> full_block \<Rightarrow> branch \<Rightarrow> branch option" where
  "follow c fb [] = None"
| "follow c fb (now # below) =
     (if orphans fb (fst now) then (if below = [] then None else Some below)
      else map_option (\<lambda>t. t # now # below) (extend c fb now))"

primrec follow_all :: "client option \<Rightarrow> full_block list \<Rightarrow> branch \<Rightarrow> branch option" where
  "follow_all c [] P = Some P"
| "follow_all c (fb # fbs) P = Option.bind (follow c fb P) (follow_all c fbs)"

text \<open>
  What is relied on of the storage: it holds a branch; a block that fits on its head is put
  on top with the changes of its coins, and removing the head takes its changes back.
\<close>

definition branch_storage :: "'db storage_api \<Rightarrow> ('db \<Rightarrow> branch) \<Rightarrow> bool" where
  "branch_storage A P \<longleftrightarrow>
     (\<forall>db head L below. P db = (head, L) # below \<longrightarrow>
       st_GetHead A db = Ok head \<and>
       (\<forall>b. case L b of
          Some ac \<Rightarrow> st_GetCoin A db \<lparr>ci_Identifier = b\<rparr> = Ok (ac_Coin ac, ac_Account ac)
        | None \<Rightarrow> \<exists>e. st_GetCoin A db \<lparr>ci_Identifier = b\<rparr> = Err e \<and> errors_Is e ErrCoinNotFound) \<and>
       (\<forall>blk. \<exists>db'. st_SeeBlock A blk db = (Ok (), db') \<and> P db' = P db) \<and>
       (\<forall>blk m. bk_ParentBlockIdentifier blk = head \<longrightarrow> coin_ops (block_operations blk) L = Some m \<longrightarrow>
          (\<exists>db'. st_AddBlock A blk db = (Ok (), db') \<and> P db' = (bk_BlockIdentifier blk, m) # P db)) \<and>
       (below \<noteq> [] \<longrightarrow> (\<exists>db'. st_RemoveBlock A head db = (Ok (), db') \<and> P db' = below)))"

lemma branch_storage_removeE:
  assumes "branch_storage A P" and "P db = (head, L) # below" and "below \<noteq> []"
  obtains db' where "st_RemoveBlock A head db = (Ok (), db')" "P db' = below"
  using assms unfolding branch_storage_def by blast

lemma branch_storage_head: "branch_storage A P \<Longrightarrow> P db = (head, L) # below \<Longrightarrow> st_GetHead A db = Ok head"
  unfolding branch_storage_def by blast

text \<open>One block further it is a storage of coins.\<close>

lemma branch_stores_coins:
  assumes A: "branch_storage A P" and Q: "Q \<noteq> []"
  shows "stores_coins A (\<lambda>db. P db = Q) (\<lambda>db. \<exists>t. P db = t # Q) (\<lambda>db. snd (hd (P db)))"
proof -
  obtain head L below where Q': "Q = (head, L) # below" using Q by (cases Q) auto
  show ?thesis
    unfolding stores_coins_def
  proof (intro allI impI conjI)
    fix db assume db: "P db = Q"
    note here = A [unfolded branch_storage_def, rule_format, OF db [unfolded Q']]
    show "case snd (hd (P db)) b of
        Some ac \<Rightarrow> st_GetCoin A db \<lparr>ci_Identifier = b\<rparr> = Ok (ac_Coin ac, ac_Account ac)
      | None \<Rightarrow> \<exists>e. st_GetCoin A db \<lparr>ci_Identifier = b\<rparr> = Err e \<and> errors_Is e ErrCoinNotFound" for b
      using here db by (simp add: Q')
    show "\<exists>db'. st_SeeBlock A blk db = (Ok (), db') \<and> P db' = Q \<and> snd (hd (P db')) = snd (hd (P db)) \<and>
        st_GetHead A db' = st_GetHead A db" for blk
    proof -
      obtain db' where "st_SeeBlock A blk db = (Ok (), db')" "P db' = P db" using here by blast
      moreover from this have "st_GetHead A db' = Ok head" "st_GetHead A db = Ok head"
        using branch_storage_head [OF A, of _ head L below] db Q' by simp_all
      ultimately show ?thesis using db by auto
    qed
    show "\<exists>db'. st_AddBlock A blk db = (Ok (), db') \<and> (\<exists>t. P db' = t # Q) \<and> snd (hd (P db')) = m \<and>
        st_GetHead A db' = Ok (bk_BlockIdentifier blk)"
      if "st_GetHead A db = Ok (bk_ParentBlockIdentifier blk)"
        "coin_ops (block_operations blk) (snd (hd (P db))) = Some m" for blk m
    proof -
      have "bk_ParentBlockIdentifier blk = head" "coin_ops (block_operations blk) L = Some m"
        using that here db by (simp_all add: Q')
      then obtain db' where db': "st_AddBlock A blk db = (Ok (), db')" "P db' = (bk_BlockIdentifier blk, m) # P db"
        using here by blast
      with branch_storage_head [OF A, of db'] db show ?thesis by auto
    qed
  qed
qed

section \<open>An orphaned head\<close>

lemma search_alone_orphan:
  assumes "checkHeaderMatch A (ix_db i) blk = Err (Sentinel ErrOrphanHead)"
  shows "\<exists>e. search_alone S A cfg i blk cs = Err e \<and> errors_Is e ErrOrphanHead"
proof -
  have "run_fetcher_alone (Suc m) S A cfg (new_fetcher blk cs) i =
      (ft_err (new_fetcher blk cs) (Wrapf [] (Sentinel ErrOrphanHead) '': check header match failed''), i)" for m
    using assms by (simp add: fetch_step_def step_enter_def new_fetcher_def run_ended ft_err_def)
  then show ?thesis by (simp add: search_alone_def ft_err_def)
qed

lemma Block_orphan:
  assumes "contains_spec S" and "st_GetHead A (ix_db i) = Ok head" and "orphans fb head" and "node_gives rq fb"
  shows "\<exists>e. Block S (fst rq) c (search_alone S A cfg i) (snd rq) = Err e \<and> errors_Is e ErrOrphanHead"
proof -
  from assms(3) obtain h bt ts where h: "fb_Header fb = Some h" "int64_of_int32 (bh_Height h) = bi_Index head + 1"
    "bh_ParentID h \<noteq> bi_Hash head" and bt: "fb_BlockTransactions fb = Some bt" "bt_Transactions bt = Some ts"
    and wf: "list_all wf_tx ts"
    by (auto simp: orphans_def block_txs_def bind_eq_Some_conv split: option.splits)
  from h assms(2) have "checkHeaderMatch A (ix_db i) (Some fb) = Err (Sentinel ErrOrphanHead)"
    by (simp add: checkHeaderMatch_def)
  then obtain e where e: "search_alone S A cfg i (Some fb) (needed_inputs [] ts) = Err e" "errors_Is e ErrOrphanHead"
    using search_alone_orphan by blast
  from assms(4) obtain k where "k \<le> retryLimit" "\<And>n. n < k \<Longrightarrow> at_ctxErr (fst rq n) = None \<and> at_sleep (fst rq n) = None \<and>
      (\<exists>e. getBlockByIdentifier (at_client (fst rq n)) (snd rq) = Err e)"
    "at_ctxErr (fst rq k) = None" "getBlockByIdentifier (at_client (fst rq k)) (snd rq) = Ok (Some fb)"
    unfolding node_gives_def by blast
  from fetch_loop_answers [where env = "fst rq" and b = "snd rq" and S = S, OF this]
  have "fetch_loop S (fst rq) (snd rq) 0 = Ok (Some fb, needed_inputs [] ts)"
    using bt GetInputsForTxs_wf [OF assms(1) wf] by (simp add: block_inputs_def)
  with e show ?thesis by (simp add: Block_def)
qed

section \<open>One step\<close>

text \<open>The indexer at rest with a branch in its storage, and the syncer knowing all of it but its base.\<close>

definition on_branch ::
  "('db \<Rightarrow> branch) \<Rightarrow> branch \<Rightarrow> block_identifier list \<times> 'db indexer \<Rightarrow> bool"
where
  "on_branch P Q = (\<lambda>(past, i). chan_ok i \<and> \<not> wt_locked (ix_waiter i) \<and> ix_coinCache i = Map.empty \<and>
     P (ix_db i) = Q \<and> past = map fst (butlast Q))"

definition branch_nonneg :: "branch \<Rightarrow> bool" where
  "branch_nonneg Q \<longleftrightarrow> (\<forall>(b, L) \<in> set Q. ledger_nonneg L)"

lemma extend_nonneg: "extend c fb (head, L) = Some (b, L') \<Longrightarrow> ledger_nonneg L \<Longrightarrow> ledger_nonneg L'"
  by (auto simp: extend_def bind_eq_Some_conv split: if_splits intro: apply_txs_nonneg)

lemma follow_nonneg: "follow c fb Q = Some Q' \<Longrightarrow> branch_nonneg Q \<Longrightarrow> branch_nonneg Q'"
  by (cases "(c, fb, Q)" rule: follow.cases)
    (auto simp: branch_nonneg_def split: if_splits dest: extend_nonneg)

lemma sync_next_removes:
  assumes "contains_spec S" and A: "branch_storage A P" and now: "on_branch P ((head, L) # below) (past, i)"
    and "orphans fb head" and below: "below \<noteq> []" and "node_gives rq fb"
  shows "\<exists>past' i'. sync_next S A cfg c rq (past, i) = (Ok (), (past', i')) \<and> on_branch P below (past', i') \<and>
    ix_seen i' = ix_seen i"
proof -
  have i: "P (ix_db i) = (head, L) # below" "past = head # map fst (butlast below)"
    and rest: "chan_ok i" "\<not> wt_locked (ix_waiter i)" "ix_coinCache i = Map.empty"
    using now below by (simp_all add: on_branch_def)
  obtain e where e: "Block S (fst rq) c (search_alone S A cfg i) (snd rq) = Err e" "errors_Is e ErrOrphanHead"
    using Block_orphan [OF assms(1) branch_storage_head [OF A i(1)] assms(4,6)] by blast
  obtain db' where db': "st_RemoveBlock A head (ix_db i) = (Ok (), db')" "P db' = below"
    using branch_storage_removeE [OF A i(1) below] by blast
  have "chan_ok (i\<lparr>ix_db := db'\<rparr>)" using rest(1) chan_ok_cong [of "i\<lparr>ix_db := db'\<rparr>" i] by simp
  then show ?thesis
    using e db' rest i(2)
    by (auto simp: sync_next_def BlockRemoved_def with_db_def smap_err_def on_branch_def)
qed

lemma sync_next_adds:
  assumes S: "negates S" "contains_spec S" and A: "branch_storage A P"
    and now: "on_branch P ((head, L) # below) (past, i)" and pos: "ledger_nonneg L"
    and t: "extend c fb (head, L) = Some t" and "node_gives rq fb" and takes: "asserter_takes S [fb]"
  shows "\<exists>past' i'. sync_next S A cfg c rq (past, i) = (Ok (), (past', i')) \<and>
    on_branch P (t # (head, L) # below) (past', i') \<and> ix_seen i' = ix_seen i + 1"
proof -
  let ?Q = "(head, L) # below"
  from t obtain h ts L' where h: "fb_Header fb = Some h" "follows h head" and ts: "block_txs fb = Some ts"
    "apply_txs c ts L = Some L'" and t': "t = (header_id h, L')"
    by (auto simp: extend_def bind_eq_Some_conv split: if_splits)
  have db: "P (ix_db i) = ?Q" and past: "past = map fst (butlast ?Q)" using now by (simp_all add: on_branch_def)
  have "settled A (\<lambda>db. P db = ?Q) (\<lambda>db. snd (hd (P db))) L head i"
    using now branch_storage_head [OF A db] by (simp add: settled_def on_branch_def)
  from sync_block_ok [OF S branch_stores_coins [OF A] this pos h ts assms(7), of cfg] takes h(1)
  obtain i' blk where i': "sync_block S A cfg c rq i = (Ok (), i')" "ix_seen i' = ix_seen i + 1"
    "settled A (\<lambda>db. \<exists>t. P db = t # ?Q) (\<lambda>db. snd (hd (P db))) L' (header_id h) i'"
    and blk: "Block S (fst rq) c (search_alone S A cfg i) (snd rq) = Ok blk" "bk_BlockIdentifier blk = header_id h"
    by (auto simp: asserter_takes_def)
  from i'(3) obtain u where u: "P (ix_db i') = u # ?Q" "snd u = L'" "st_GetHead A (ix_db i') = Ok (header_id h)"
    "chan_ok i'" "\<not> wt_locked (ix_waiter i')" "ix_coinCache i' = Map.empty"
    by (auto simp: settled_def)
  with branch_storage_head [OF A, of "ix_db i'" "fst u" "snd u" ?Q] have "P (ix_db i') = t # ?Q"
    by (cases u) (simp add: t')
  moreover from i'(1) blk have "sync_next S A cfg c rq (past, i) = (Ok (), (header_id h # past, i'))"
    by (simp add: sync_next_def sync_block_def split_beta)
  ultimately show ?thesis using u(4-6) i'(2) past by (auto simp: on_branch_def t')
qed

section \<open>What the reference machine reaches\<close>

text \<open>A branch is grown by its own blocks alone: those of the others are forgotten.\<close>

primrec grow :: "client option \<Rightarrow> full_block list \<Rightarrow> branch \<Rightarrow> branch option" where
  "grow c [] Q = Some Q"
| "grow c (fb # fbs) Q =
     (case Q of [] \<Rightarrow> None | now # below \<Rightarrow> Option.bind (extend c fb now) (\<lambda>t. grow c fbs (t # Q)))"

lemma grow_append: "grow c (xs @ ys) Q = Option.bind (grow c xs Q) (grow c ys)"
proof (induction xs arbitrary: Q)
  case (Cons x xs)
  then show ?case by (auto split: list.split)
qed simp

lemma follow_grown:
  assumes "grow c bs [b0] = Some Q" and "follow c fb Q = Some Q'"
  shows "\<exists>bs'. subseq bs' (bs @ [fb]) \<and> grow c bs' [b0] = Some Q'"
proof -
  obtain now below where Q: "Q = now # below" using assms(2) by (cases Q) auto
  show ?thesis
  proof (cases "orphans fb (fst now)")
    case True
    with assms(2) Q have Q': "Q' = below" "below \<noteq> []" by (auto split: if_splits)
    with assms(1) Q obtain bs' x where bs: "bs = bs' @ [x]" by (cases bs rule: rev_cases) auto
    with assms(1) obtain R where R: "grow c bs' [b0] = Some R" "grow c [x] R = Some Q"
      by (auto simp: grow_append bind_eq_Some_conv)
    then have "below = R" by (auto simp: Q bind_eq_Some_conv split: list.splits)
    with R(1) Q' show ?thesis by (intro exI [of _ bs']) (simp add: bs prefix_imp_subseq)
  next
    case False
    with assms(2) Q obtain t where "extend c fb now = Some t" "Q' = t # Q" by auto
    then have "grow c (bs @ [fb]) [b0] = Some Q'" using assms(1) by (simp add: grow_append Q)
    then show ?thesis by blast
  qed
qed

lemma follow_all_grown:
  assumes "follow_all c fbs Q = Some Q'" and "grow c bs [b0] = Some Q"
  shows "\<exists>bs'. subseq bs' (bs @ fbs) \<and> grow c bs' [b0] = Some Q'"
  using assms
proof (induction fbs arbitrary: bs Q)
  case (Cons fb fbs)
  then obtain R where R: "follow c fb Q = Some R" "follow_all c fbs R = Some Q'"
    by (auto simp: bind_eq_Some_conv)
  from follow_grown [OF Cons.prems(2) R(1)] obtain bs1
    where bs1: "subseq bs1 (bs @ [fb])" "grow c bs1 [b0] = Some R" by blast
  from Cons.IH [OF R(2) bs1(2)] obtain bs2 where bs2: "subseq bs2 (bs1 @ fbs)" "grow c bs2 [b0] = Some Q'" by blast
  have "subseq (bs1 @ fbs) (bs @ fb # fbs)"
    using list_emb_append_mono [OF bs1(1) subseq_order.order_refl, of fbs] by simp
  with bs2 show ?case using subseq_order.order_trans by blast
qed auto

lemma grow_chain:
  assumes "grow c bs ((head, L) # below) = Some Q"
  shows "linked head bs \<and> fst (hd Q) = tip head bs \<and> apply_blocks c bs L = Some (snd (hd Q))"
  using assms
proof (induction bs arbitrary: head L below)
  case (Cons fb bs)
  then obtain t where t: "extend c fb (head, L) = Some t" "grow c bs (t # (head, L) # below) = Some Q"
    by (auto simp: bind_eq_Some_conv)
  then obtain h ts L' where "fb_Header fb = Some h" "follows h head" "block_txs fb = Some ts"
    "apply_txs c ts L = Some L'" "t = (header_id h, L')"
    by (auto simp: extend_def bind_eq_Some_conv split: if_splits)
  with Cons.IH [of "header_id h" L'] t(2) show ?case by auto
qed auto

section \<open>Whole runs\<close>

lemma sync_all_follows:
  assumes S: "negates S" "contains_spec S" and A: "branch_storage A P"
    and "on_branch P Q (past, i)" and "branch_nonneg Q" and "follow_all c fbs Q = Some Q'"
    and "list_all2 node_gives rqs fbs" and "asserter_takes S fbs"
  shows "\<exists>past' i'. sync_all S A cfg c rqs (past, i) = (Ok (), (past', i')) \<and> on_branch P Q' (past', i')"
  using assms(4-)
proof (induction fbs arbitrary: rqs Q past i)
  case Nil
  then show ?case by (simp add: sync_all_def)
next
  case (Cons fb fbs)
  from Cons.prems(4) obtain rq rqs' where rqs: "rqs = rq # rqs'" "node_gives rq fb" "list_all2 node_gives rqs' fbs"
    by (auto simp: list_all2_Cons2)
  from Cons.prems(3) obtain R where R: "follow c fb Q = Some R" "follow_all c fbs R = Some Q'"
    by (auto simp: bind_eq_Some_conv)
  obtain head L below where Q: "Q = (head, L) # below" using R(1) by (cases Q) auto
  have takes: "asserter_takes S [fb]" "asserter_takes S fbs" using Cons.prems(5) by (simp_all add: asserter_takes_def)
  have "\<exists>past' i'. sync_next S A cfg c rq (past, i) = (Ok (), (past', i')) \<and> on_branch P R (past', i')"
  proof (cases "orphans fb head")
    case True
    with R(1) Q have "R = below" "below \<noteq> []" by (auto split: if_splits)
    with sync_next_removes [OF S(2) A Cons.prems(1) [unfolded Q] True _ rqs(2)] show ?thesis by blast
  next
    case False
    with R(1) Q obtain t where t: "extend c fb (head, L) = Some t" "R = t # Q" by auto
    have "ledger_nonneg L" using Cons.prems(2) by (simp add: Q branch_nonneg_def)
    from sync_next_adds [OF S A Cons.prems(1) [unfolded Q] this t(1) rqs(2) takes(1)] t(2) Q show ?thesis by blast
  qed
  then obtain past1 j where j: "sync_next S A cfg c rq (past, i) = (Ok (), (past1, j))" "on_branch P R (past1, j)" by blast
  from Cons.IH [OF j(2) follow_nonneg [OF R(1) Cons.prems(2)] R(2) rqs(3) takes(2)] j(1)
  show ?case by (simp add: sync_all_def rqs(1))
qed


section \<open>An instance\<close>

text \<open>The sample storage with the databases of the earlier heads kept below the current one.\<close>

definition kept_storage :: "sample_db list storage_api" where
  "kept_storage =
     \<lparr>st_GetHead = (\<lambda>dbs. st_GetHead sample_storage (hd dbs)),
      st_AddBlock = (\<lambda>blk. supd (\<lambda>dbs. snd (st_AddBlock sample_storage blk (hd dbs)) # dbs)),
      st_RemoveBlock = (\<lambda>b. supd tl),
      st_SeeBlock = (\<lambda>blk. sret ()),
      st_GetBlockLazy = (\<lambda>dbs. st_GetBlockLazy sample_storage (hd dbs)),
      st_GetBlockTransaction = (\<lambda>dbs. st_GetBlockTransaction sample_storage (hd dbs)),
      st_GetCoin = (\<lambda>dbs. st_GetCoin sample_storage (hd dbs)),
      st_GetCoins = (\<lambda>dbs. st_GetCoins sample_storage (hd dbs)),
      st_SetCoinsImported = (\<lambda>cs. sret ()),
      st_GetBalance = (\<lambda>dbs. st_GetBalance sample_storage (hd dbs)),
      st_SetBalance = (\<lambda>a am b. sret ()),
      st_Commit = (\<lambda>tx db. (Ok (), tx))\<rparr>"

definition kept_branch :: "sample_db list \<Rightarrow> branch" where
  "kept_branch dbs =
     (if list_all (\<lambda>d. sd_head d \<noteq> None) dbs then map (\<lambda>d. (the (sd_head d), sample_view d)) dbs else [])"

lemma sample_view_head [simp]: "sample_view (db\<lparr>sd_head := h\<rparr>) = sample_view db"
  by (simp add: sample_view_def fun_eq_iff)

lemma kept_branch_storage: "branch_storage kept_storage kept_branch"
  unfolding branch_storage_def
proof (intro allI impI)
  fix dbs head L below assume "kept_branch dbs = (head, L) # below"
  then obtain d ds where ds: "dbs = d # ds" "sd_head d = Some head" "sample_view d = L"
    "list_all (\<lambda>d. sd_head d \<noteq> None) ds" "below = map (\<lambda>d. (the (sd_head d), sample_view d)) ds"
    by (cases dbs) (auto simp: kept_branch_def split: if_splits)
  have get: "st_GetCoin sample_storage d \<lparr>ci_Identifier = b\<rparr> =
      (case L b of Some ac \<Rightarrow> Ok (ac_Coin ac, ac_Account ac) | None \<Rightarrow> Err (Sentinel ErrCoinNotFound))" for b
    by (auto simp: ds(3) [symmetric] sample_storage_def sample_view_def split: option.splits)
  show "st_GetHead kept_storage dbs = Ok head \<and>
    (\<forall>b. case L b of
       Some ac \<Rightarrow> st_GetCoin kept_storage dbs \<lparr>ci_Identifier = b\<rparr> = Ok (ac_Coin ac, ac_Account ac)
     | None \<Rightarrow> \<exists>e. st_GetCoin kept_storage dbs \<lparr>ci_Identifier = b\<rparr> = Err e \<and> errors_Is e ErrCoinNotFound) \<and>
    (\<forall>blk. \<exists>db'. st_SeeBlock kept_storage blk dbs = (Ok (), db') \<and> kept_branch db' = kept_branch dbs) \<and>
    (\<forall>blk m. bk_ParentBlockIdentifier blk = head \<longrightarrow> coin_ops (block_operations blk) L = Some m \<longrightarrow>
       (\<exists>db'. st_AddBlock kept_storage blk dbs = (Ok (), db') \<and>
          kept_branch db' = (bk_BlockIdentifier blk, m) # kept_branch dbs)) \<and>
    (below \<noteq> [] \<longrightarrow> (\<exists>db'. st_RemoveBlock kept_storage head dbs = (Ok (), db') \<and> kept_branch db' = below))"
  proof (intro conjI allI impI)
    show "st_GetHead kept_storage dbs = Ok head" using ds(1,2) by (simp add: kept_storage_def sample_storage_def)
    show "case L b of
        Some ac \<Rightarrow> st_GetCoin kept_storage dbs \<lparr>ci_Identifier = b\<rparr> = Ok (ac_Coin ac, ac_Account ac)
      | None \<Rightarrow> \<exists>e. st_GetCoin kept_storage dbs \<lparr>ci_Identifier = b\<rparr> = Err e \<and> errors_Is e ErrCoinNotFound" for b
      using get [of b] by (simp add: kept_storage_def ds(1) split: option.splits)
    show "\<exists>db'. st_SeeBlock kept_storage blk dbs = (Ok (), db') \<and> kept_branch db' = kept_branch dbs" for blk
      by (simp add: kept_storage_def)
    show "\<exists>db'. st_AddBlock kept_storage blk dbs = (Ok (), db') \<and>
        kept_branch db' = (bk_BlockIdentifier blk, m) # kept_branch dbs"
      if "coin_ops (block_operations blk) L = Some m" for blk m
      using that ds sample_view_ops [of "block_operations blk" d m]
      by (simp add: kept_storage_def sample_storage_def kept_branch_def)
    show "\<exists>db'. st_RemoveBlock kept_storage head dbs = (Ok (), db') \<and> kept_branch db' = below"
      using ds by (simp add: kept_storage_def kept_branch_def)
  qed
qed

text \<open>
  The sample block is given first, on which box \<open>g\<close> is spent; then a block of height 3 whose
  parent it is not, so it is removed; then that parent, in which \<open>g\<close> becomes \<open>d\<close>, and the
  block of height 3 again.
\<close>

definition other_tx :: ergo_transaction where
  "other_tx = mk_tx ''u1'' [mk_input ''g''] [mk_output ''d'' 100 0]"

definition other_block :: full_block where
  "other_block = mk_block (mk_header ''x2'' ''h1'' 2) [other_tx]"

definition third_block :: full_block where
  "third_block = mk_block (mk_header ''x3'' ''x2'' 3) []"

definition reorg_blocks :: "full_block list" where
  "reorg_blocks = [sample_block, third_block, other_block, third_block]"

definition giving :: "full_block \<Rightarrow> (nat \<Rightarrow> attempt) \<times> partial_block_identifier" where
  "giving fb = (\<lambda>n. \<lparr>at_ctxErr = None, at_client = Some (sample_client\<lparr>json_FullBlock := (\<lambda>b. Ok fb)\<rparr>),
     at_sleep = None\<rparr>, by_hash)"

lemma giving_gives: "node_gives (giving fb) fb"
proof -
  have "GetBlockByID (Some (sample_client\<lparr>json_FullBlock := (\<lambda>b. Ok fb)\<rparr>)) i = Ok fb" for i
    by (simp add: client_call_defs makeRequest_def marshal_body_def read_response_def set_headers_def
        sample_client_def StatusOK_def)
  then show ?thesis
    by (auto simp: node_gives_def giving_def getBlockByIdentifier_def by_hash_def intro: exI [of _ 0])
qed

lemma other_tx_fields [simp]:
  "wf_tx other_tx" "spent_ids other_tx = [''g'']" "created_ids other_tx = [''d'']"
  "tx_outputs other_tx = [mk_output ''d'' 100 0]"
  by (simp_all add: other_tx_def mk_defs wf_tx_def wf_output_def spent_ids_def created_ids_def tx_inputs_def
      tx_outputs_def out_id_def)

lemma other_tx_small [simp]: "tx_small other_tx" "outputs_nonneg other_tx"
  by (simp_all add: tx_small_def outputs_nonneg_def) (simp add: other_tx_def mk_tx_def tx_inputs_def)

lemma reorg_fields:
  "fb_Header sample_block = Some (mk_header ''h2'' ''h1'' 2)" "block_txs sample_block = Some [sample_tx1, sample_tx2]"
  "fb_Header other_block = Some (mk_header ''x2'' ''h1'' 2)" "block_txs other_block = Some [other_tx]"
  "fb_Header third_block = Some (mk_header ''x3'' ''x2'' 3)" "block_txs third_block = Some []"
  by (simp_all add: sample_block_def sample_header_def other_block_def third_block_def mk_block_def block_txs_def)

lemma mk_header_fields [simp]:
  "bh_ID (mk_header b p k) = b" "bh_ParentID (mk_header b p k) = p" "bh_Height (mk_header b p k) = k"
  by (simp_all add: mk_header_def)

lemma stored_view: "sample_view stored_db = [''g'' \<mapsto> mk_coin ''addr'' ''g'' ''100'']"
  by (simp add: fun_eq_iff sample_view_def stored_db_def sample_db1_def mk_coin_def)

lemma reorg_followed:
  "follow_all None reorg_blocks [(\<lparr>bi_Index = 1, bi_Hash = ''h1''\<rparr>, sample_view stored_db)] =
     (let L = [''d'' \<mapsto> made_coin ''4MQyMKvMbnCJG3aJ'' (mk_output ''d'' 100 0)]
      in Some [(\<lparr>bi_Index = 3, bi_Hash = ''x3''\<rparr>, L), (\<lparr>bi_Index = 2, bi_Hash = ''x2''\<rparr>, L),
               (\<lparr>bi_Index = 1, bi_Hash = ''h1''\<rparr>, sample_view stored_db)])"
proof -
  let ?b = "\<lparr>bi_Index = 1, bi_Hash = ''h1''\<rparr> :: block_identifier" and ?base = "sample_view stored_db"
  let ?L = "[''d'' \<mapsto> made_coin ''4MQyMKvMbnCJG3aJ'' (mk_output ''d'' 100 0)]"
  have height: "int64_of_int32 2 = 2" "int64_of_int32 3 = 3" by (simp_all add: int64_of_int32_def)
  have addr: "address_of None (mk_output b v k) = Some ''4MQyMKvMbnCJG3aJ''" for b v k
    by (simp add: address_of_def mk_output_def)
  obtain L1 where L1: "apply_txs None [sample_tx1, sample_tx2] ?base = Some L1"
    using sample_chain_valid by (auto simp: reorg_fields bind_eq_Some_conv split: option.splits)
  have first: "follow None sample_block [(?b, ?base)] = Some [(\<lparr>bi_Index = 2, bi_Hash = ''h2''\<rparr>, L1), (?b, ?base)]"
    using L1 by (simp add: orphans_def extend_def follows_def header_id_def genesisBlockIndex_def reorg_fields height)
  have second: "follow None third_block [(\<lparr>bi_Index = 2, bi_Hash = ''h2''\<rparr>, L1), (?b, ?base)] = Some [(?b, ?base)]"
    by (simp add: orphans_def reorg_fields height)
  have "apply_txs None [other_tx] ?base = Some ?L"
    by (auto simp: stored_view apply_tx_def valid_tx_def created_boxes_def addr fun_eq_iff)
  then have other: "follow None other_block [(?b, ?base)] = Some [(\<lparr>bi_Index = 2, bi_Hash = ''x2''\<rparr>, ?L), (?b, ?base)]"
    by (simp add: orphans_def extend_def follows_def header_id_def genesisBlockIndex_def reorg_fields height)
  have last: "follow None third_block [(\<lparr>bi_Index = 2, bi_Hash = ''x2''\<rparr>, ?L), (?b, ?base)] =
      Some [(\<lparr>bi_Index = 3, bi_Hash = ''x3''\<rparr>, ?L), (\<lparr>bi_Index = 2, bi_Hash = ''x2''\<rparr>, ?L), (?b, ?base)]"
    by (simp add: orphans_def extend_def follows_def header_id_def genesisBlockIndex_def reorg_fields height)
  show ?thesis
    by (simp add: reorg_blocks_def first second other last Let_def del: follow.simps)
qed


end
