(* ===== verification/Ergo_Api_Types.thy ===== *)
theory Ergo_Api_Types
  imports Ergo_Types
begin

text \<open>
  The rest of the node's REST messages (pkg/ergo/types, one file per type): generated
  structs that no call of the client decodes yet, kept so that the data model of the node
  is complete. Every field of the Go struct in its order, read as in \<open>Ergo_Types\<close>: a
  pointer is an option, a slice a list, a map a partial function. The two \<open>float32\<close> fields
  have a type of their own that is left open.
\<close>

section \<open>Addresses, errors and peers\<close>

record address_validity =
  av_Address :: string
  av_IsValid :: bool
  av_Error :: "string option"

record api_error =
  ae_Error :: int32
  ae_Reason :: string
  ae_Detail :: string

record blacklisted_peers =
  bp_Addresses :: "string list"

record peer_mode =
  pm_State :: string
  pm_VerifyingTransactions :: bool
  pm_FullBlocksSuffix :: int32

record peer_info =
  pi_Address :: string
  pi_Mode :: "peer_mode option"
  pi_Version :: string
  pi_Status :: string
  pi_Height :: int32

record peers_status =
  psa_LastIncomingMessage :: int64
  psa_CurrentNetworkTime :: int64

section \<open>Headers, candidates and proofs\<close>

record block_header_without_pow =
  bhwp_ID :: string
  bhwp_Timestamp :: int64
  bhwp_Version :: int32
  bhwp_AdProofsRoot :: string
  bhwp_StateRoot :: string
  bhwp_TransactionsRoot :: string
  bhwp_NBits :: int64
  bhwp_ExtensionHash :: string
  bhwp_Height :: int32
  bhwp_Difficulty :: int32
  bhwp_ParentID :: string
  bhwp_Votes :: string
  bhwp_Size :: "int32 option"
  bhwp_ExtensionID :: "string option"
  bhwp_TransactionsID :: "string option"
  bhwp_AdProofsID :: "string option"

record candidate_block =
  cb_Version :: "int32 option"
  cb_ExtensionHash :: string
  cb_Timestamp :: "int64 option"
  cb_StateRoot :: "string option"
  cb_NBits :: "int64 option"
  cb_AdProofBytes :: "string option"
  cb_ParentID :: string
  cb_TransactionsNumber :: "int32 option"
  cb_Transactions :: "(ergo_transaction list) option"
  cb_Votes :: "string option"

record popow_header =
  ph_Header :: "block_header option"
  ph_Interlinks :: "string list"

record 'float32 nipopow_proof =
  np_M :: "'float32"
  np_K :: "'float32"
  np_Prefix :: "(popow_header list) option"
  np_SuffixHead :: "popow_header option"
  np_SuffixTail :: "(block_header list) option"

record avl_tree_data =
  atd_Digest :: string
  atd_TreeFlags :: "int32 option"
  atd_KeyLength :: "int32 option"
  atd_ValueLength :: "int32 option"

record pre_header =
  pha_Timestamp :: int64
  pha_Version :: int32
  pha_NBits :: int64
  pha_Height :: int32
  pha_ParentID :: string
  pha_Votes :: string
  pha_MinerPk :: "string option"

section \<open>Transactions to be signed\<close>

record ergo_like_transaction =
  elt_ID :: string
  elt_Inputs :: "(ergo_transaction_input list) option"
  elt_DataInputs :: "(ergo_transaction_data_input list) option"
  elt_Outputs :: "(ergo_transaction_output list) option"

record ergo_transaction_unsigned_input =
  etui_BoxID :: string
  etui_Extension :: "(string \<rightharpoonup> string) option"

record unsigned_ergo_transaction =
  uet_ID :: "string option"
  uet_Inputs :: "(ergo_transaction_unsigned_input list) option"
  uet_DataInputs :: "(ergo_transaction_data_input list) option"
  uet_Outputs :: "(ergo_transaction_output list) option"

record dht_secret =
  ds_Secret :: string
  ds_G :: string
  ds_H :: string
  ds_U :: string
  ds_V :: string

record dlog_commitment =
  dc_R :: string
  dc_A :: string

record transaction_signing_request_secrets =
  tsrs_Dlog :: "(string list) option"
  tsrs_Dht :: "(dht_secret list) option"

record generate_commitments_request_secrets =
  gcrs_Dlog :: "(string list) option"
  gcrs_Dht :: "(dht_secret list) option"

record generate_commitments_request =
  gcr_Tx :: "unsigned_ergo_transaction option"
  gcr_Secrets :: "generate_commitments_request_secrets option"
  gcr_InputsRaw :: "(string list) option"
  gcr_DataInputsRaw :: "(string list) option"

section \<open>Boxes, requests and the wallet\<close>

record serialized_box =
  sb_BoxID :: string
  sb_Bytes :: string

record source_holder =
  sh_Source :: string

record asset_issue_request =
  air_Address :: "string option"
  air_ErgValue :: "int64 option"
  air_Amount :: int64
  air_Name :: string
  air_Description :: string
  air_Decimals :: int32
  air_Registers :: "(string \<rightharpoonup> string) option"

record payment_request =
  pr_Address :: string
  pr_Value :: int64
  pr_Assets :: "(asset list) option"
  pr_Registers :: "(string \<rightharpoonup> string) option"

record fee_histogram_bin =
  fhb_NTxns :: "int32 option"
  fhb_TotalFee :: "int64 option"

record emission_info =
  ei_MinerReward :: "int64 option"
  ei_TotalCoinsIssued :: "int64 option"
  ei_TotalRemainCoins :: "int64 option"

record balances_snapshot =
  bs_Height :: int32
  bs_Balance :: int64
  bs_Assets :: "(asset list) option"

record wallet_box =
  wb_Box :: "ergo_transaction_output option"
  wb_ConfirmationsNum :: int32
  wb_Address :: string
  wb_CreationTransaction :: string
  wb_SpendingTransaction :: string
  wb_SpendingHeight :: int32
  wb_InclusionHeight :: int32
  wb_Onchain :: bool
  wb_Spent :: bool
  wb_CreationOutIndex :: int32
  wb_Scans :: "int32 list"

record wallet_transaction =
  wt_ID :: "string option"
  wt_Inputs :: "(ergo_transaction_input list) option"
  wt_DataInputs :: "(ergo_transaction_data_input list) option"
  wt_Outputs :: "(ergo_transaction_output list) option"
  wt_InclusionHeight :: int32
  wt_NumConfirmations :: int32
  wt_Scans :: "int32 list"
  wt_Size :: "int32 option"

end
