(* ===== verification/Client_Props.thy ===== *)
theory Client_Props
  imports Samples
begin

text \<open>
  The calls of the node client: which answers of the node each of them accepts, and what
  becomes of a transport error.
\<close>

section \<open>Accepted answers\<close>

text \<open>
  The node answers a GET on the endpoint with status 200 and a body that is read to its
  end and decodes.
\<close>

definition answers :: "client \<Rightarrow> string \<Rightarrow> (string \<Rightarrow> 'a go) \<Rightarrow> 'a \<Rightarrow> bool" where
  "answers c endpoint decode x \<longleftrightarrow>
     (\<exists>req res. cl_NewRequest c ''GET'' (cl_baseURL c @ ''/'' @ endpoint) [] = Ok req \<and>
        cl_Do c (req\<lparr>rq_Header := (rq_Header req)(''Content-Type'' \<mapsto> ''application/json'',
                                                ''Api_key'' \<mapsto> ''rosetta'')\<rparr>) = Ok res \<and>
        rs_StatusCode res = 200 \<and> rs_ReadError res = None \<and> decode (rs_Body res) = Ok x)"

lemma makeRequest_answers:
  "makeRequest (Some c) endpoint MethodGet None d = Ok x \<longleftrightarrow> answers c endpoint (d c) x"
  by (simp add: makeRequest_Ok_iff answers_def MethodGet_def StatusOK_def set_headers_def nodeAPIToken_def)

lemma GetBlockByID_answers: "GetBlockByID (Some c) i = Ok b \<longleftrightarrow> answers c (''blocks/'' @ i) (json_FullBlock c) b"
  by (simp add: GetBlockByID_def makeRequest_answers nodeEndpointBlock_def)

text \<open>A client whose transport fails with one error on every request.\<close>

definition fails_with :: "client \<Rightarrow> go_error \<Rightarrow> bool" where
  "fails_with c err \<longleftrightarrow>
     (\<forall>url. \<exists>req. cl_NewRequest c ''GET'' url [] = Ok req) \<and> (\<forall>req. cl_Do c req = Err err)"

lemma makeRequest_fails:
  assumes "fails_with c err"
  shows "makeRequest (Some c) endpoint MethodGet None d = Err (Wrapf [] err '': error posting to api'')"
proof -
  obtain req where "cl_NewRequest c ''GET'' (cl_baseURL c @ ''/'' @ endpoint) [] = Ok req"
    using assms unfolding fails_with_def by blast
  with assms show ?thesis by (simp add: makeRequest_def marshal_body_def MethodGet_def fails_with_def)
qed

section \<open>The calls\<close>



end
