(* ===== verification/Errutil.thy ===== *)
theory Errutil
  imports Rosetta_Types
begin

text \<open>
  pkg/errutil/errutil.go: the table of Rosetta errors, and \<open>WrapErr\<close>, which copies a table
  entry and attaches the text of the underlying error without touching the table.
\<close>

section \<open>Error values\<close>

record rosetta_error =
  re_Code :: int32
  re_Message :: string
  re_Retriable :: bool
  re_Details :: "(string \<rightharpoonup> string) option"

text \<open>
  What a service handler returns: a response, a Rosetta error, or a panic that the HTTP
  server recovers.
\<close>

datatype 'a api = Resp 'a | Fail rosetta_error | Crash go_panic

section \<open>The table\<close>

definition ErrUnimplemented :: rosetta_error where
  "ErrUnimplemented =
     \<lparr>re_Code = 0, re_Message = ''Endpoint not implemented'', re_Retriable = False,
      re_Details = None\<rparr>"

definition ErrUnavailableOffline :: rosetta_error where
  "ErrUnavailableOffline =
     \<lparr>re_Code = 1, re_Message = ''Endpoint unavailable offline'', re_Retriable = False,
      re_Details = None\<rparr>"

definition ErrNotReady :: rosetta_error where
  "ErrNotReady =
     \<lparr>re_Code = 2, re_Message = ''ergo node is not ready'', re_Retriable = True,
      re_Details = None\<rparr>"

definition ErrErgoNode :: rosetta_error where
  "ErrErgoNode =
     \<lparr>re_Code = 3, re_Message = ''Ergo node error'', re_Retriable = False,
      re_Details = None\<rparr>"

definition ErrBlockNotFound :: rosetta_error where
  "ErrBlockNotFound =
     \<lparr>re_Code = 4, re_Message = ''Block not found'', re_Retriable = False,
      re_Details = None\<rparr>"

definition ErrUnableToDerive :: rosetta_error where
  "ErrUnableToDerive =
     \<lparr>re_Code = 5, re_Message = ''Unable to derive address'', re_Retriable = False,
      re_Details = None\<rparr>"

definition ErrUnclearIntent :: rosetta_error where
  "ErrUnclearIntent =
     \<lparr>re_Code = 6, re_Message = ''Unable to parse intent'', re_Retriable = False,
      re_Details = None\<rparr>"

definition ErrUnableToParseIntermediateResult :: rosetta_error where
  "ErrUnableToParseIntermediateResult =
     \<lparr>re_Code = 7, re_Message = ''Unable to parse intermediate result'', re_Retriable = False,
      re_Details = None\<rparr>"

definition ErrScriptPubKeysMissing :: rosetta_error where
  "ErrScriptPubKeysMissing =
     \<lparr>re_Code = 8, re_Message = ''Missing ScriptPubKeys'', re_Retriable = False,
      re_Details = None\<rparr>"

definition ErrInvalidCoin :: rosetta_error where
  "ErrInvalidCoin =
     \<lparr>re_Code = 9, re_Message = ''Coin is invalid'', re_Retriable = False,
      re_Details = None\<rparr>"

definition ErrUnableToDecodeAddress :: rosetta_error where
  "ErrUnableToDecodeAddress =
     \<lparr>re_Code = 10, re_Message = ''Unable to decode address'', re_Retriable = False,
      re_Details = None\<rparr>"

definition ErrUnableToDecodeScriptPubKey :: rosetta_error where
  "ErrUnableToDecodeScriptPubKey =
     \<lparr>re_Code = 11, re_Message = ''Unable to decode ScriptPubKey'', re_Retriable = False,
      re_Details = None\<rparr>"

definition ErrUnableToCalculateSignatureHash :: rosetta_error where
  "ErrUnableToCalculateSignatureHash =
     \<lparr>re_Code = 12, re_Message = ''Unable to calculate signature hash'', re_Retriable = False,
      re_Details = None\<rparr>"

definition ErrUnsupportedScriptType :: rosetta_error where
  "ErrUnsupportedScriptType =
     \<lparr>re_Code = 13, re_Message = ''Script type is not supported'', re_Retriable = False,
      re_Details = None\<rparr>"

definition ErrUnableToComputePkScript :: rosetta_error where
  "ErrUnableToComputePkScript =
     \<lparr>re_Code = 14, re_Message = ''Unable to compute PK script'', re_Retriable = False,
      re_Details = None\<rparr>"

definition ErrUnableToGetCoins :: rosetta_error where
  "ErrUnableToGetCoins =
     \<lparr>re_Code = 15, re_Message = ''Unable to get coins'', re_Retriable = False,
      re_Details = None\<rparr>"

definition ErrTransactionNotFound :: rosetta_error where
  "ErrTransactionNotFound =
     \<lparr>re_Code = 16, re_Message = ''Transaction not found'', re_Retriable = False,
      re_Details = None\<rparr>"

definition ErrCouldNotGetFeeRate :: rosetta_error where
  "ErrCouldNotGetFeeRate =
     \<lparr>re_Code = 17, re_Message = ''Could not get suggested fee rate'', re_Retriable = False,
      re_Details = None\<rparr>"

definition ErrUnableToGetBalance :: rosetta_error where
  "ErrUnableToGetBalance =
     \<lparr>re_Code = 18, re_Message = ''Unable to get balance'', re_Retriable = False,
      re_Details = None\<rparr>"

definition Errors :: "rosetta_error list" where
  "Errors =
     [ErrUnimplemented,
      ErrUnavailableOffline,
      ErrNotReady,
      ErrErgoNode,
      ErrBlockNotFound,
      ErrUnableToDerive,
      ErrUnclearIntent,
      ErrUnableToParseIntermediateResult,
      ErrScriptPubKeysMissing,
      ErrInvalidCoin,
      ErrUnableToDecodeAddress,
      ErrUnableToDecodeScriptPubKey,
      ErrUnableToCalculateSignatureHash,
      ErrUnsupportedScriptType,
      ErrUnableToComputePkScript,
      ErrUnableToGetCoins,
      ErrTransactionNotFound,
      ErrCouldNotGetFeeRate,
      ErrUnableToGetBalance]"

lemmas error_defs =
  ErrUnimplemented_def
  ErrUnavailableOffline_def
  ErrNotReady_def
  ErrErgoNode_def
  ErrBlockNotFound_def
  ErrUnableToDerive_def
  ErrUnclearIntent_def
  ErrUnableToParseIntermediateResult_def
  ErrScriptPubKeysMissing_def
  ErrInvalidCoin_def
  ErrUnableToDecodeAddress_def
  ErrUnableToDecodeScriptPubKey_def
  ErrUnableToCalculateSignatureHash_def
  ErrUnsupportedScriptType_def
  ErrUnableToComputePkScript_def
  ErrUnableToGetCoins_def
  ErrTransactionNotFound_def
  ErrCouldNotGetFeeRate_def
  ErrUnableToGetBalance_def

section \<open>WrapErr\<close>

definition WrapErr :: "sdk \<Rightarrow> rosetta_error \<Rightarrow> go_error option \<Rightarrow> rosetta_error" where
  "WrapErr S rErr err =
     (let newErr = \<lparr>re_Code = re_Code rErr, re_Message = re_Message rErr,
                    re_Retriable = re_Retriable rErr, re_Details = None\<rparr>
      in case err of
           None \<Rightarrow> newErr
         | Some e \<Rightarrow> newErr\<lparr>re_Details := Some [''context'' \<mapsto> error_text (SentinelText S) e]\<rparr>)"

text \<open>
  \<open>val, err := f(...); if err != nil { return nil, WrapErr(rErr, err) }\<close> followed by the
  rest of the handler.
\<close>

primrec try_api :: "sdk \<Rightarrow> rosetta_error \<Rightarrow> 'a go \<Rightarrow> ('a \<Rightarrow> 'b api) \<Rightarrow> 'b api" where
  "try_api S rErr (Ok x) f = f x"
| "try_api S rErr (Err e) f = Fail (WrapErr S rErr (Some e))"
| "try_api S rErr (Panic p) f = Crash p"

lemma WrapErr_code [simp]: "re_Code (WrapErr S r err) = re_Code r"
  by (cases err) (simp_all add: WrapErr_def)

lemma WrapErr_message [simp]: "re_Message (WrapErr S r err) = re_Message r"
  by (cases err) (simp_all add: WrapErr_def)

lemma WrapErr_retriable [simp]: "re_Retriable (WrapErr S r err) = re_Retriable r"
  by (cases err) (simp_all add: WrapErr_def)

lemma WrapErr_details [simp]:
  "re_Details (WrapErr S r err) =
     map_option (\<lambda>e. [''context'' \<mapsto> error_text (SentinelText S) e]) err"
  by (cases err) (simp_all add: WrapErr_def)

lemma try_api_Resp_iff [simp]: "try_api S r m f = Resp y \<longleftrightarrow> (\<exists>x. m = Ok x \<and> f x = Resp y)"
  by (cases m) auto

lemma try_api_Crash_iff:
  "try_api S r m f = Crash p \<longleftrightarrow> m = Panic p \<or> (\<exists>x. m = Ok x \<and> f x = Crash p)"
  by (cases m) auto

lemma try_api_Fail_iff:
  "try_api S r m f = Fail q \<longleftrightarrow>
     (\<exists>e. m = Err e \<and> q = WrapErr S r (Some e)) \<or> (\<exists>x. m = Ok x \<and> f x = Fail q)"
  by (cases m) auto

section \<open>Properties\<close>

lemma Errors_codes: "map re_Code Errors = map word_of_nat [0..<19]"
  by (simp add: Errors_def error_defs upt_rec)

lemma Errors_nth_code: "i < length Errors \<Longrightarrow> re_Code (Errors ! i) = word_of_nat i"
proof -
  assume i: "i < length Errors"
  have "length Errors = 19" by (simp add: Errors_def)
  with i have "re_Code (Errors ! i) = map re_Code Errors ! i" by simp
  with i \<open>length Errors = 19\<close> show ?thesis by (simp add: Errors_codes)
qed

end
