(* ===== verification/Services.thy ===== *)
theory Services
  imports Errutil Converter Ergo_Utils Storage Configuration
begin

text \<open>
  pkg/services: the handlers of the Rosetta endpoints. Each takes what its service struct
  holds (configuration, node client, storage); a request's identifiers that the SDK's
  asserter has checked are passed by value. \<open>snap n\<close> is the database at the handler's
  read number \<open>n\<close>, since each read opens its own transaction.
\<close>

section \<open>Responses\<close>

record version =
  ve_RosettaVersion :: string
  ve_NodeVersion :: string
  ve_MiddlewareVersion :: "string option"

record allow =
  al_OperationStatuses :: "operation_status list"
  al_OperationTypes :: "string list"
  al_Errors :: "rosetta_error list"
  al_HistoricalBalanceLookup :: bool
  al_MempoolCoins :: bool

record network_options_response =
  no_Version :: version
  no_Allow :: allow

record account_balance_response =
  ab_BlockIdentifier :: block_identifier
  ab_Balances :: "amount list"

record account_coins_response =
  cr_BlockIdentifier :: block_identifier
  cr_Coins :: "coin list"

section \<open>network.go\<close>

definition mempoolCoins :: bool where
  "mempoolCoins = False"

definition historicalBalances :: bool where
  "historicalBalances = True"

definition NetworkAPI_NetworkList :: "configuration \<Rightarrow> network_identifier list api" where
  "NetworkAPI_NetworkList cfg = Resp [cfg_Network cfg]"

text \<open>Every handler with this test answers the same in offline mode.\<close>

definition online_only :: "sdk \<Rightarrow> configuration \<Rightarrow> 'a api \<Rightarrow> 'a api" where
  "online_only S cfg handler =
     (if cfg_Mode cfg \<noteq> Online then Fail (WrapErr S ErrUnavailableOffline None) else handler)"

text \<open>A storage without a head block is reported as not ready, without details.\<close>

definition NetworkAPI_NetworkStatus ::
  "sdk \<Rightarrow> configuration \<Rightarrow> client option \<Rightarrow> 'db storage_api \<Rightarrow> 'db \<Rightarrow> network_status_response api"
where
  "NetworkAPI_NetworkStatus S cfg c A db =
     online_only S cfg
       (try_api S ErrErgoNode (GetConnectedPeers c) (\<lambda>connectedPeers.
        try_api S ErrErgoNode (gmapM (PeerToRosettaPeer S) connectedPeers) (\<lambda>peers.
        case st_GetBlockLazy A db None of
          Err _ \<Rightarrow> Fail (WrapErr S ErrNotReady None)
        | Panic p \<Rightarrow> Crash p
        | Ok cachedBlockResponse \<Rightarrow>
            Resp \<lparr>ns_CurrentBlockIdentifier = bk_BlockIdentifier (br_Block cachedBlockResponse),
                  ns_CurrentBlockTimestamp = bk_Timestamp (br_Block cachedBlockResponse),
                  ns_GenesisBlockIdentifier = cfg_GenesisBlockIdentifier cfg,
                  ns_Peers = peers\<rparr>)))"

text \<open>The one node-backed handler without the offline test.\<close>

definition NetworkAPI_NetworkOptions ::
  "sdk \<Rightarrow> configuration \<Rightarrow> client option \<Rightarrow> network_options_response api"
where
  "NetworkAPI_NetworkOptions S cfg c =
     try_api S ErrErgoNode (GetNodeInfo c) (\<lambda>nodeInfo.
       Resp \<lparr>no_Version =
               \<lparr>ve_RosettaVersion = RosettaAPIVersion S, ve_NodeVersion = nd_AppVersion nodeInfo,
                ve_MiddlewareVersion = Some (cfg_Version cfg)\<rparr>,
             no_Allow =
               \<lparr>al_OperationStatuses = OperationStatuses, al_OperationTypes = OperationTypes,
                al_Errors = Errors, al_HistoricalBalanceLookup = historicalBalances,
                al_MempoolCoins = mempoolCoins\<rparr>\<rparr>)"

section \<open>block.go\<close>

definition txFetchLimit :: nat where
  "txFetchLimit = 100"

definition BlockAPI_Block ::
  "sdk \<Rightarrow> configuration \<Rightarrow> 'db storage_api \<Rightarrow> (nat \<Rightarrow> 'db) \<Rightarrow> partial_block_identifier option \<Rightarrow>
   block_response api"
where
  "BlockAPI_Block S cfg A snap blockIdentifier =
     online_only S cfg
       (try_api S ErrBlockNotFound (st_GetBlockLazy A (snap 0) blockIdentifier) (\<lambda>blockResponse.
        if length (br_OtherTransactions blockResponse) > txFetchLimit then Resp blockResponse
        else try_api S ErrTransactionNotFound
               (gmapM (\<lambda>(k, otherTx). st_GetBlockTransaction A (snap (Suc k))
                         (bk_BlockIdentifier (br_Block blockResponse)) otherTx)
                  (List.enumerate 0 (br_OtherTransactions blockResponse))) (\<lambda>txs.
             Resp (blockResponse
               \<lparr>br_Block := (br_Block blockResponse)\<lparr>bk_Transactions := txs\<rparr>,
                br_OtherTransactions := []\<rparr>))))"

definition BlockAPI_BlockTransaction ::
  "sdk \<Rightarrow> configuration \<Rightarrow> 'db storage_api \<Rightarrow> 'db \<Rightarrow> block_identifier \<Rightarrow> transaction_identifier \<Rightarrow>
   transaction api"
where
  "BlockAPI_BlockTransaction S cfg A db blockIdentifier transactionIdentifier =
     online_only S cfg
       (try_api S ErrTransactionNotFound
          (st_GetBlockTransaction A db blockIdentifier transactionIdentifier) Resp)"

section \<open>account.go\<close>

text \<open>An account the balance storage does not know has a zero balance.\<close>

definition getBalance ::
  "'db storage_api \<Rightarrow> 'db \<Rightarrow> account_identifier \<Rightarrow> currency \<Rightarrow> partial_block_identifier option \<Rightarrow>
   (amount \<times> block_identifier) go"
where
  "getBalance A dbTx accountIdentifier cur blockIdentifier =
     gbind (st_GetBlockLazy A dbTx blockIdentifier) (\<lambda>blockResponse.
       let b = bk_BlockIdentifier (br_Block blockResponse)
       in case st_GetBalance A dbTx accountIdentifier cur (bi_Index b) of
            Ok amount \<Rightarrow> Ok (amount, b)
          | Panic p \<Rightarrow> Panic p
          | Err err \<Rightarrow>
              if errors_Is err ErrAccountMissing
              then Ok (\<lparr>am_Value = ''0'', am_Currency = cur\<rparr>, b) else Err err)"

definition AccountAPI_AccountBalance ::
  "sdk \<Rightarrow> configuration \<Rightarrow> 'db storage_api \<Rightarrow> 'db \<Rightarrow> account_identifier \<Rightarrow>
   partial_block_identifier option \<Rightarrow> account_balance_response api"
where
  "AccountAPI_AccountBalance S cfg A db accountIdentifier blockIdentifier =
     online_only S cfg
       (try_api S ErrUnableToGetBalance
          (getBalance A db accountIdentifier (cfg_Currency cfg) blockIdentifier) (\<lambda>(amount, b).
        Resp \<lparr>ab_BlockIdentifier = b, ab_Balances = [amount]\<rparr>))"

definition AccountAPI_AccountCoins ::
  "sdk \<Rightarrow> configuration \<Rightarrow> 'db storage_api \<Rightarrow> 'db \<Rightarrow> account_identifier \<Rightarrow> account_coins_response api"
where
  "AccountAPI_AccountCoins S cfg A db accountIdentifier =
     online_only S cfg
       (try_api S ErrUnableToGetCoins (st_GetCoins A db accountIdentifier) (\<lambda>(coins, b).
        Resp \<lparr>cr_BlockIdentifier = b, cr_Coins = coins\<rparr>))"

section \<open>mempool.go\<close>

definition MempoolAPI_Mempool ::
  "sdk \<Rightarrow> configuration \<Rightarrow> client option \<Rightarrow> transaction_identifier list api"
where
  "MempoolAPI_Mempool S cfg c =
     online_only S cfg
       (try_api S ErrErgoNode (GetUnconfirmedTxs c) (\<lambda>mempoolTransactions.
        case gmapM (\<lambda>t. gbind (deref (et_ID t)) (\<lambda>i. Ok \<lparr>ti_Hash = i\<rparr>)) mempoolTransactions of
          Ok transactionIdentifiers \<Rightarrow> Resp transactionIdentifiers
        | Err e \<Rightarrow> Fail (WrapErr S ErrErgoNode (Some e))
        | Panic p \<Rightarrow> Crash p))"

text \<open>
  Loops that only read through pointers end normally or panic: for them the branch of an
  error is unreachable. The loop keeps the last transaction with the identifier.
\<close>

definition find_requested :: "string \<Rightarrow> ergo_transaction list \<Rightarrow> ergo_transaction option go" where
  "find_requested h txs =
     gfold (\<lambda>t requestedTx. gbind (deref (et_ID t)) (\<lambda>i. Ok (if i = h then Some t else requestedTx)))
       txs None"

text \<open>Coins the storage does not have are left out of the map.\<close>

definition findCoinsForMempoolTx ::
  "'db storage_api \<Rightarrow> (nat \<Rightarrow> 'db) \<Rightarrow> input_ctx list \<Rightarrow> (string \<rightharpoonup> account_coin) go"
where
  "findCoinsForMempoolTx A snap inputs =
     gfold (\<lambda>(k, inputCtx) coinMap.
              case st_GetCoin A (snap k) \<lparr>ci_Identifier = ic_InputID inputCtx\<rparr> of
                Ok (coin, owner) \<Rightarrow>
                  Ok (coinMap(ic_InputID inputCtx \<mapsto> \<lparr>ac_Account = owner, ac_Coin = coin\<rparr>))
              | Panic p \<Rightarrow> Panic p
              | Err err \<Rightarrow>
                  if \<not> errors_Is err ErrCoinNotFound
                  then Err (Wrapf [] err ('': unable to lookup coin '' @ ic_InputID inputCtx))
                  else Ok coinMap)
       (List.enumerate 0 inputs) Map.empty"

text \<open>
  The inputs are those of all transactions in the mempool; the converter gets only the
  requested one.
\<close>

definition MempoolAPI_MempoolTransaction ::
  "sdk \<Rightarrow> configuration \<Rightarrow> client option \<Rightarrow> 'db storage_api \<Rightarrow> (nat \<Rightarrow> 'db) \<Rightarrow> transaction_identifier \<Rightarrow>
   transaction api"
where
  "MempoolAPI_MempoolTransaction S cfg c A snap transactionIdentifier =
     online_only S cfg
       (try_api S ErrErgoNode (GetUnconfirmedTxs c) (\<lambda>mempoolTransactions.
        case find_requested (ti_Hash transactionIdentifier) mempoolTransactions of
          Err e \<Rightarrow> Fail (WrapErr S ErrErgoNode (Some e))
        | Panic p \<Rightarrow> Crash p
        | Ok None \<Rightarrow> Fail (WrapErr S ErrTransactionNotFound None)
        | Ok (Some requestedTx) \<Rightarrow>
            (case GetInputsForTxs S (Some mempoolTransactions) of
               Err e \<Rightarrow> Fail (WrapErr S ErrErgoNode (Some e))
             | Panic p \<Rightarrow> Crash p
             | Ok inputCoins \<Rightarrow>
                 try_api S ErrUnableToGetCoins (findCoinsForMempoolTx A snap inputCoins) (\<lambda>accountCoins.
                 try_api S ErrErgoNode
                   (TxToRosettaTx S (NewBlockConverter c accountCoins) requestedTx) Resp))))"

end
