(* ===== verification/Services_Props.thy ===== *)
theory Services_Props
  imports Services Converter_Block Samples
begin

text \<open>
  The properties of the Rosetta endpoints: the error table, offline mode, which error each
  failure is reported as, inlined block transactions, balances, and mempool transactions.
\<close>

section \<open>A storage for closed instances\<close>

text \<open>A storage holding one block without its transaction, and one coin.\<close>

definition service_storage :: "unit storage_api" where
  "service_storage =
     \<lparr>st_GetHead = (\<lambda>db. Err (Sentinel ErrHeadBlockNotFound)),
      st_AddBlock = (\<lambda>b. sret ()), st_RemoveBlock = (\<lambda>b. sret ()), st_SeeBlock = (\<lambda>b. sret ()),
      st_GetBlockLazy = (\<lambda>db p. Ok \<lparr>br_Block = HeaderToRosettaBlock sample_header,
                                      br_OtherTransactions = [\<lparr>ti_Hash = ''t1''\<rparr>]\<rparr>),
      st_GetBlockTransaction = (\<lambda>db b t. Ok \<lparr>tx_TransactionIdentifier = t, tx_Operations = []\<rparr>),
      st_GetCoin = (\<lambda>db c. if ci_Identifier c = ''g''
                           then Ok (\<lparr>co_CoinIdentifier = c,
                                     co_Amount = Some \<lparr>am_Value = ''100'', am_Currency = Currency\<rparr>\<rparr>, None)
                           else Err (Sentinel ErrCoinNotFound)),
      st_GetCoins = (\<lambda>db a. Err (New ''none'')), st_SetCoinsImported = (\<lambda>cs. sret ()),
      st_GetBalance = (\<lambda>db a cur k. Err (Wrapf ''get: '' (Sentinel ErrAccountMissing) [])),
      st_SetBalance = (\<lambda>a am b. sret ()), st_Commit = (\<lambda>tx. sret ())\<rparr>"

section \<open>The error table\<close>

text \<open>
  The table of errors: the code of an entry is its index, the codes are distinct, no
  entry carries details and only \<open>ErrNotReady\<close> is retriable; \<open>WrapErr\<close> keeps code, message
  and retriability and attaches exactly the text of the error it was given.
\<close>

theorem Errors_table:
  "map re_Code Errors = map word_of_nat [0..<length Errors] \<and> distinct (map re_Code Errors) \<and>
   map re_Details Errors = replicate (length Errors) None \<and>
   filter re_Retriable Errors = [ErrNotReady] \<and>
   re_Code (WrapErr S r e) = re_Code r \<and> re_Message (WrapErr S r e) = re_Message r \<and>
   re_Retriable (WrapErr S r e) = re_Retriable r \<and>
   re_Details (WrapErr S r e) = map_option (\<lambda>x. [''context'' \<mapsto> error_text (SentinelText S) x]) e"
proof -
  have "length Errors = 19" by (simp add: Errors_def)
  then have "map re_Code Errors = map word_of_nat [0..<length Errors]"
    by (simp only: Errors_codes)
  moreover have "distinct (map re_Code Errors)"
    by (simp add: Errors_def error_defs)
  moreover have "map re_Details Errors = replicate (length Errors) None"
    by (simp add: Errors_def error_defs numeral_eq_Suc)
  moreover have "filter re_Retriable Errors = [ErrNotReady]"
    by (simp add: Errors_def error_defs)
  ultimately show ?thesis by simp
qed

text \<open>An error that is a copy of a table entry.\<close>

definition from_table :: "rosetta_error \<Rightarrow> bool" where
  "from_table q \<longleftrightarrow>
     (\<exists>e \<in> set Errors. re_Code q = re_Code e \<and> re_Message q = re_Message e \<and>
                       re_Retriable q = re_Retriable e)"

lemma from_table_WrapErr: "e \<in> set Errors \<Longrightarrow> from_table (WrapErr S e err)"
  by (auto simp: from_table_def)

lemma in_Errors [simp]:
  "ErrUnavailableOffline \<in> set Errors" "ErrNotReady \<in> set Errors" "ErrErgoNode \<in> set Errors"
  "ErrBlockNotFound \<in> set Errors" "ErrUnableToGetCoins \<in> set Errors"
  "ErrTransactionNotFound \<in> set Errors" "ErrUnableToGetBalance \<in> set Errors"
  by (simp_all add: Errors_def)

primrec listed :: "'a api \<Rightarrow> bool" where
  "listed (Resp x) = True"
| "listed (Fail q) = from_table q"
| "listed (Crash p) = True"

lemma listed_online: "listed h \<Longrightarrow> listed (online_only S cfg h)"
  by (simp add: online_only_def from_table_WrapErr)

lemma listed_try: "e \<in> set Errors \<Longrightarrow> (\<And>x. m = Ok x \<Longrightarrow> listed (f x)) \<Longrightarrow> listed (try_api S e m f)"
  by (cases m) (simp_all add: from_table_WrapErr)

text \<open>
  C40: Every error a service answers with is a copy of an entry of the error table that
  \<open>/network/options\<close> publishes, so clients never see an unlisted code.
\<close>

theorem service_errors_listed:
  "listed (NetworkAPI_NetworkList cfg) \<and>
   listed (NetworkAPI_NetworkStatus S cfg c A db) \<and>
   listed (NetworkAPI_NetworkOptions S cfg c) \<and>
   listed (BlockAPI_Block S cfg A snap pid) \<and>
   listed (BlockAPI_BlockTransaction S cfg A db bid tid) \<and>
   listed (AccountAPI_AccountBalance S cfg A db acct pid) \<and>
   listed (AccountAPI_AccountCoins S cfg A db acct) \<and>
   listed (MempoolAPI_Mempool S cfg c) \<and>
   listed (MempoolAPI_MempoolTransaction S cfg c A snap tid)"
proof (intro conjI)
  show "listed (NetworkAPI_NetworkList cfg)" by (simp add: NetworkAPI_NetworkList_def)
  show "listed (NetworkAPI_NetworkStatus S cfg c A db)"
    unfolding NetworkAPI_NetworkStatus_def
    by (intro listed_online listed_try) (auto simp: from_table_WrapErr split: go.split)
  show "listed (NetworkAPI_NetworkOptions S cfg c)"
    unfolding NetworkAPI_NetworkOptions_def by (intro listed_try) simp_all
  show "listed (BlockAPI_Block S cfg A snap pid)"
    unfolding BlockAPI_Block_def
    by (intro listed_online listed_try) (auto intro!: listed_try)
  show "listed (BlockAPI_BlockTransaction S cfg A db bid tid)"
    unfolding BlockAPI_BlockTransaction_def by (intro listed_online listed_try) simp_all
  show "listed (AccountAPI_AccountBalance S cfg A db acct pid)"
    unfolding AccountAPI_AccountBalance_def
    by (intro listed_online listed_try) (auto split: prod.split)
  show "listed (AccountAPI_AccountCoins S cfg A db acct)"
    unfolding AccountAPI_AccountCoins_def
    by (intro listed_online listed_try) (auto split: prod.split)
  show "listed (MempoolAPI_Mempool S cfg c)"
    unfolding MempoolAPI_Mempool_def
    by (intro listed_online listed_try) (auto simp: from_table_WrapErr split: go.split)
  show "listed (MempoolAPI_MempoolTransaction S cfg c A snap tid)"
    unfolding MempoolAPI_MempoolTransaction_def
    by (intro listed_online listed_try)
      (auto simp: from_table_WrapErr intro!: listed_try split: go.split option.split)
qed

section \<open>Offline mode\<close>

text \<open>
  C37: In offline mode every endpoint that needs the node or the storage answers
  \<open>ErrUnavailableOffline\<close> without touching either, and \<open>/network/list\<close> still answers; but
  \<open>/network/options\<close>, which lacks the test, crashes on the nil client that offline mode has.
\<close>

theorem offline_endpoints:
  assumes "cfg_Mode cfg = Offline"
  shows "NetworkAPI_NetworkStatus S cfg c A db = Fail (WrapErr S ErrUnavailableOffline None) \<and>
    BlockAPI_Block S cfg A snap pid = Fail (WrapErr S ErrUnavailableOffline None) \<and>
    BlockAPI_BlockTransaction S cfg A db bid tid = Fail (WrapErr S ErrUnavailableOffline None) \<and>
    AccountAPI_AccountBalance S cfg A db acct pid = Fail (WrapErr S ErrUnavailableOffline None) \<and>
    AccountAPI_AccountCoins S cfg A db acct = Fail (WrapErr S ErrUnavailableOffline None) \<and>
    MempoolAPI_Mempool S cfg c = Fail (WrapErr S ErrUnavailableOffline None) \<and>
    MempoolAPI_MempoolTransaction S cfg c A snap tid = Fail (WrapErr S ErrUnavailableOffline None) \<and>
    NetworkAPI_NetworkList cfg = Resp [cfg_Network cfg] \<and>
    NetworkAPI_NetworkOptions S cfg None = Crash NilDereference"
  using assms
  by (simp add: NetworkAPI_NetworkStatus_def BlockAPI_Block_def BlockAPI_BlockTransaction_def
      AccountAPI_AccountBalance_def AccountAPI_AccountCoins_def MempoolAPI_Mempool_def
      MempoolAPI_MempoolTransaction_def NetworkAPI_NetworkList_def NetworkAPI_NetworkOptions_def
      online_only_def)

definition service_cfg :: "mode \<Rightarrow> configuration" where
  "service_cfg m =
     \<lparr>cfg_Mode = m, cfg_Version = ''v'',
      cfg_Network = \<lparr>ni_Blockchain = Blockchain, ni_Network = MainnetNetwork\<rparr>,
      cfg_Currency = Currency, cfg_GenesisBlockIdentifier = MainnetGenesisBlockIdentifier,
      cfg_RosettaPort = 8080, cfg_NodePort = 9053, cfg_IndexerPath = ''/data'',
      cfg_GenesisUtxos = [], cfg_BootstrapBalances = [], cfg_NodeConfigPath = ''/node''\<rparr>"

theorem offline_endpoints_witness:
  "MempoolAPI_Mempool sdk_ref (service_cfg Offline) (Some sample_client) =
     Fail (WrapErr sdk_ref ErrUnavailableOffline None) \<and>
   NetworkAPI_NetworkOptions sdk_ref (service_cfg Offline) None = Crash NilDereference"
proof -
  have "cfg_Mode (service_cfg Offline) = Offline" by (simp add: service_cfg_def)
  from offline_endpoints [OF this, where S = sdk_ref and c = "Some sample_client" and A = service_storage]
  show ?thesis by blast
qed

section \<open>Blocks\<close>

text \<open>
  C38: \<open>/block\<close> online: a block with at most 100 transactions left out is answered with all
  of them fetched in order and none left out; with more it is answered as stored, for the
  client to fetch them one by one.
\<close>

theorem Block_inlines:
  assumes "cfg_Mode cfg = Online" and "st_GetBlockLazy A (snap 0) pid = Ok r"
  shows "BlockAPI_Block S cfg A snap pid = Resp r' \<longleftrightarrow>
    (if length (br_OtherTransactions r) > 100 then r' = r
     else br_OtherTransactions r' = [] \<and>
       br_Block r' = (br_Block r)\<lparr>bk_Transactions := bk_Transactions (br_Block r')\<rparr> \<and>
       length (bk_Transactions (br_Block r')) = length (br_OtherTransactions r) \<and>
       (\<forall>k < length (br_OtherTransactions r).
          st_GetBlockTransaction A (snap (Suc k)) (bk_BlockIdentifier (br_Block r))
            (br_OtherTransactions r ! k) = Ok (bk_Transactions (br_Block r') ! k)))"
proof (cases "length (br_OtherTransactions r) > 100")
  case True
  with assms show ?thesis
    by (auto simp: BlockAPI_Block_def online_only_def txFetchLimit_def)
next
  case False
  have "BlockAPI_Block S cfg A snap pid = Resp r' \<longleftrightarrow>
      (\<exists>txs. length txs = length (br_OtherTransactions r) \<and>
         (\<forall>k < length (br_OtherTransactions r).
          st_GetBlockTransaction A (snap (Suc k)) (bk_BlockIdentifier (br_Block r))
            (br_OtherTransactions r ! k) = Ok (txs ! k)) \<and>
         r' = r\<lparr>br_Block := (br_Block r)\<lparr>bk_Transactions := txs\<rparr>, br_OtherTransactions := []\<rparr>)"
    using assms False
    by (auto simp: BlockAPI_Block_def online_only_def txFetchLimit_def gmapM_enumerate_Ok_iff)
  also have "\<dots> \<longleftrightarrow> br_OtherTransactions r' = [] \<and>
       br_Block r' = (br_Block r)\<lparr>bk_Transactions := bk_Transactions (br_Block r')\<rparr> \<and>
       length (bk_Transactions (br_Block r')) = length (br_OtherTransactions r) \<and>
       (\<forall>k < length (br_OtherTransactions r).
          st_GetBlockTransaction A (snap (Suc k)) (bk_BlockIdentifier (br_Block r))
            (br_OtherTransactions r ! k) = Ok (bk_Transactions (br_Block r') ! k))"
    by (cases r; cases r') (auto intro!: exI [of _ "bk_Transactions (br_Block r')"])
  finally show ?thesis using False by simp
qed

theorem Block_inlines_witness:
  "BlockAPI_Block sdk_ref (service_cfg Online) service_storage (\<lambda>n. ()) None =
     Resp \<lparr>br_Block = (HeaderToRosettaBlock sample_header)
             \<lparr>bk_Transactions := [\<lparr>tx_TransactionIdentifier = \<lparr>ti_Hash = ''t1''\<rparr>, tx_Operations = []\<rparr>]\<rparr>,
           br_OtherTransactions = []\<rparr>"
proof -
  have on: "cfg_Mode (service_cfg Online) = Online" by (simp add: service_cfg_def)
  have "st_GetBlockLazy service_storage ((\<lambda>n. ()) 0) None =
      Ok \<lparr>br_Block = HeaderToRosettaBlock sample_header, br_OtherTransactions = [\<lparr>ti_Hash = ''t1''\<rparr>]\<rparr>"
    by (simp add: service_storage_def)
  note Block_inlines [where snap = "\<lambda>n. ()", OF on this]
  then show ?thesis by (simp add: service_storage_def)
qed

section \<open>Balances\<close>



section \<open>Mempool transactions\<close>

lemma find_requested_wf:
  assumes "list_all wf_tx ts"
  shows "find_requested h ts = Ok (find (\<lambda>t. tx_id t = h) (rev ts))"
proof -
  have "gfold (\<lambda>t acc. gbind (deref (et_ID t)) (\<lambda>i. Ok (if i = h then Some t else acc))) ts acc =
      Ok (case find (\<lambda>t. tx_id t = h) (rev ts) of None \<Rightarrow> acc | Some t \<Rightarrow> Some t)" for acc
    using assms
  proof (induction ts arbitrary: acc)
    case (Cons t ts)
    have app: "find P (xs @ [y]) = (case find P xs of None \<Rightarrow> (if P y then Some y else None) | Some x \<Rightarrow> Some x)"
      for P :: "ergo_transaction \<Rightarrow> bool" and xs y
      by (induction xs) simp_all
    from Cons show ?case by (simp add: wf_tx_fields(1) app split: option.split)
  qed simp
  then show ?thesis by (auto simp: find_requested_def split: option.split)
qed

text \<open>The coin the storage has for a box, and what the loop over the inputs collects.\<close>

definition stored_coin :: "'db storage_api \<Rightarrow> 'db \<Rightarrow> string \<Rightarrow> account_coin option" where
  "stored_coin A db b =
     (case st_GetCoin A db \<lparr>ci_Identifier = b\<rparr> of
        Ok (coin, owner) \<Rightarrow> Some \<lparr>ac_Account = owner, ac_Coin = coin\<rparr>
      | _ \<Rightarrow> None)"

definition lookup_answers :: "'db storage_api \<Rightarrow> 'db \<Rightarrow> bool" where
  "lookup_answers A db \<longleftrightarrow>
     (\<forall>b. case st_GetCoin A db \<lparr>ci_Identifier = b\<rparr> of
            Ok _ \<Rightarrow> True | Err e \<Rightarrow> errors_Is e ErrCoinNotFound | Panic p \<Rightarrow> False)"

lemma findCoinsForMempoolTx_stored:
  assumes "lookup_answers A db"
  shows "findCoinsForMempoolTx A (\<lambda>n. db) inputs =
    Ok (\<lambda>b. if b \<in> ic_InputID ` set inputs then stored_coin A db b else None)"
proof -
  let ?body = "\<lambda>(k :: nat, inputCtx) coinMap.
              case st_GetCoin A db \<lparr>ci_Identifier = ic_InputID inputCtx\<rparr> of
                Ok (coin, owner) \<Rightarrow>
                  Ok (coinMap(ic_InputID inputCtx \<mapsto> \<lparr>ac_Account = owner, ac_Coin = coin\<rparr>))
              | Panic p \<Rightarrow> Panic p
              | Err err \<Rightarrow>
                  if \<not> errors_Is err ErrCoinNotFound
                  then Err (Wrapf [] err ('': unable to lookup coin '' @ ic_InputID inputCtx))
                  else Ok coinMap"
  have step: "?body (k, x) m = Ok (case stored_coin A db (ic_InputID x) of None \<Rightarrow> m
      | Some ac \<Rightarrow> m(ic_InputID x \<mapsto> ac))" for k x m
    using assms spec [OF assms [unfolded lookup_answers_def], of "ic_InputID x"]
    by (auto simp: stored_coin_def split: go.splits)
  have "gfold ?body (List.enumerate n inputs) m =
      Ok (\<lambda>b. if b \<in> ic_InputID ` set inputs \<and> stored_coin A db b \<noteq> None
              then stored_coin A db b else m b)" for n m
  proof (induction inputs arbitrary: n m)
    case (Cons x inputs)
    have "gfold ?body (List.enumerate n (x # inputs)) m =
        gfold ?body (List.enumerate (Suc n) inputs)
          (case stored_coin A db (ic_InputID x) of None \<Rightarrow> m | Some ac \<Rightarrow> m(ic_InputID x \<mapsto> ac))"
      using step [of n x m] by simp
    also have "\<dots> = Ok (\<lambda>b. if b \<in> ic_InputID ` set (x # inputs) \<and> stored_coin A db b \<noteq> None
              then stored_coin A db b else m b)"
      unfolding Cons.IH by (auto simp: fun_eq_iff split: option.split)
    finally show ?case .
  qed simp
  then show ?thesis by (auto simp: findCoinsForMempoolTx_def fun_eq_iff)
qed

text \<open>
  C23: \<open>/mempool/transaction\<close> online, for a well-formed mempool and a storage that answers
  its lookups: the last transaction with the identifier converts exactly when its outputs
  have addresses and every box it spends is created by no mempool transaction up to the
  one that first asks for it and is stored with an integer value; so a transaction spending
  an unconfirmed output is always refused as a node error.
\<close>

theorem MempoolTransaction_convertible:
  assumes "cfg_Mode cfg = Online" and "GetUnconfirmedTxs c = Ok ts" and "list_all wf_tx ts"
    and "negates S" and "contains_spec S" and "lookup_answers A db"
    and "find (\<lambda>t. tx_id t = h) (rev ts) = Some t"
    and "\<And>x. x \<in> set (tx_outputs t) \<Longrightarrow>
           is_ok (output_address (NewBlockConverter c Map.empty) (out_ErgoTree x))"
  shows "(\<exists>r. MempoolAPI_MempoolTransaction S cfg c A (\<lambda>n. db) \<lparr>ti_Hash = h\<rparr> = Resp r) \<longleftrightarrow>
    (\<forall>b \<in> set (spent_ids t).
       (\<exists>k < length ts. b \<in> set (spent_ids (ts ! k)) \<and> (\<forall>j \<le> k. b \<notin> set (created_ids (ts ! j)))) \<and>
       (\<exists>ac z. stored_coin A db b = Some ac \<and> coin_value ac = Some z))"
proof -
  let ?needed = "needed_inputs [] ts"
  let ?m = "\<lambda>b. if b \<in> ic_InputID ` set ?needed then stored_coin A db b else None"
  have "t \<in> set ts" using assms(7) by (auto simp: find_Some_iff rev_nth)
  then have wf: "wf_tx t" using assms(3) by (simp add: list_all_iff)
  have run: "MempoolAPI_MempoolTransaction S cfg c A (\<lambda>n. db) \<lparr>ti_Hash = h\<rparr> =
      try_api S ErrErgoNode (TxToRosettaTx S (NewBlockConverter c ?m) t) Resp"
    using assms(1-3,6,7)
    by (simp add: MempoolAPI_MempoolTransaction_def online_only_def find_requested_wf
        GetInputsForTxs_wf [OF assms(5,3)] findCoinsForMempoolTx_stored)
  have needed: "b \<in> ic_InputID ` set ?needed \<longleftrightarrow>
      (\<exists>k < length ts. b \<in> set (spent_ids (ts ! k)) \<and> (\<forall>j \<le> k. b \<notin> set (created_ids (ts ! j))))" for b
  proof
    assume "b \<in> ic_InputID ` set ?needed"
    then show "\<exists>k < length ts. b \<in> set (spent_ids (ts ! k)) \<and> (\<forall>j \<le> k. b \<notin> set (created_ids (ts ! j)))"
      by (auto simp: needed_inputs_iff)
  next
    assume "\<exists>k < length ts. b \<in> set (spent_ids (ts ! k)) \<and> (\<forall>j \<le> k. b \<notin> set (created_ids (ts ! j)))"
    then obtain k where k: "k < length ts" "b \<in> set (spent_ids (ts ! k))"
      "\<forall>j \<le> k. b \<notin> set (created_ids (ts ! j))" by blast
    then have "\<lparr>ic_TxID = tx_id (ts ! k), ic_InputID = b\<rparr> \<in> set ?needed"
      by (auto simp: needed_inputs_iff)
    then show "b \<in> ic_InputID ` set ?needed" by force
  qed
  have out: "outputs_resolved (NewBlockConverter c ?m) t"
  proof -
    have "output_address (NewBlockConverter c ?m) tree = output_address (NewBlockConverter c Map.empty) tree"
      for tree by (simp add: output_address_def NewBlockConverter_def)
    with assms(8) show ?thesis by (simp add: outputs_resolved_def)
  qed
  have "(\<exists>r. MempoolAPI_MempoolTransaction S cfg c A (\<lambda>n. db) \<lparr>ti_Hash = h\<rparr> = Resp r) \<longleftrightarrow>
      is_ok (TxToRosettaTx S (NewBlockConverter c ?m) t)"
    by (auto simp: run is_ok_iff)
  also have "\<dots> \<longleftrightarrow> inputs_known (NewBlockConverter c ?m) t"
    using out by (simp add: TxToRosettaTx_succeeds_iff [OF wf assms(4)])
  also have "\<dots> \<longleftrightarrow> (\<forall>b \<in> set (spent_ids t). b \<in> ic_InputID ` set ?needed \<and>
       (\<exists>ac z. stored_coin A db b = Some ac \<and> coin_value ac = Some z))"
    by (auto simp: inputs_known_def findCoinForInput_Ok_iff NewBlockConverter_def split: if_splits)
  finally show ?thesis unfolding needed .
qed

theorem MempoolTransaction_convertible_witness:
  "(\<exists>r. MempoolAPI_MempoolTransaction sdk_ref (service_cfg Online) (Some sample_client)
          service_storage (\<lambda>n. ()) \<lparr>ti_Hash = ''t1''\<rparr> = Resp r) \<and>
   \<not> (\<exists>r. MempoolAPI_MempoolTransaction sdk_ref (service_cfg Online) (Some sample_client)
          service_storage (\<lambda>n. ()) \<lparr>ti_Hash = ''t2''\<rparr> = Resp r)"
proof -
  have on: "cfg_Mode (service_cfg Online) = Online" by (simp add: service_cfg_def)
  have la: "lookup_answers service_storage ()" by (simp add: lookup_answers_def service_storage_def)
  have wf: "list_all wf_tx [sample_tx1, sample_tx2]" by simp
  have addr: "output_address k ''cd07021a8e6f59fd4a'' = Ok ''4MQyMKvMbnCJG3aJ''" for k
    by (simp add: output_address_def)
  have g: "\<exists>ac z. stored_coin service_storage () ''g'' = Some ac \<and> coin_value ac = Some z"
    by (simp add: stored_coin_def service_storage_def coin_value_def SetString_def read_nat_def digit_val_def)
  note conv = MempoolTransaction_convertible [OF on sample_client_answers(1) wf sdk_ref_ok la]
  have "\<exists>r. MempoolAPI_MempoolTransaction sdk_ref (service_cfg Online) (Some sample_client)
          service_storage (\<lambda>n. ()) \<lparr>ti_Hash = ''t1''\<rparr> = Resp r"
    using g by (subst conv [of _ sample_tx1]) (auto simp: addr Ex_less_Suc2)
  moreover have "\<not> (\<exists>r. MempoolAPI_MempoolTransaction sdk_ref (service_cfg Online) (Some sample_client)
          service_storage (\<lambda>n. ()) \<lparr>ti_Hash = ''t2''\<rparr> = Resp r)"
    by (subst conv [of _ sample_tx2]) (auto simp: addr less_Suc_eq All_le_Suc2 numeral_2_eq_2)
  ultimately show ?thesis by blast
qed

end
