(* ===== verification/Config_Load.thy ===== *)
theory Config_Load
  imports Configuration
begin

text \<open>
  pkg/config/config.go: reading the configuration from the environment. The environment is
  a function (an unset variable reads as the empty string), creating a directory is a
  parameter, and so is the decoding of the embedded JSON files of a network.
\<close>

section \<open>path.Join\<close>

text \<open>Splitting at the slashes, and Go's \<open>path.Clean\<close> on the components.\<close>

fun split_slash :: "string \<Rightarrow> string list" where
  "split_slash [] = [[]]"
| "split_slash (c # cs) =
     (if c = CHR ''/'' then [] # split_slash cs
      else case split_slash cs of [] \<Rightarrow> [[c]] | w # ws \<Rightarrow> (c # w) # ws)"

definition clean_step :: "bool \<Rightarrow> string list \<Rightarrow> string \<Rightarrow> string list" where
  "clean_step rooted out el =
     (if el = [] \<or> el = ''.'' then out
      else if el = ''..'' then
        (if out \<noteq> [] \<and> last out \<noteq> ''..'' then butlast out
         else if rooted then out else out @ [el])
      else out @ [el])"

fun join_slash :: "string list \<Rightarrow> string" where
  "join_slash [] = []"
| "join_slash [w] = w"
| "join_slash (w # v # ws) = w @ ''/'' @ join_slash (v # ws)"

definition path_Clean :: "string \<Rightarrow> string" where
  "path_Clean p =
     (let rooted = (p \<noteq> [] \<and> hd p = CHR ''/'');
          out = foldl (clean_step rooted) [] (split_slash p);
          res = (if rooted then ''/'' else []) @ join_slash out
      in if res = [] then ''.'' else res)"

text \<open>Empty elements are ignored; if all are empty the result is empty.\<close>

definition path_Join :: "string \<Rightarrow> string \<Rightarrow> string" where
  "path_Join a b =
     (let ps = filter (\<lambda>x. x \<noteq> []) [a, b]
      in if ps = [] then [] else path_Clean (join_slash ps))"

section \<open>The environment\<close>

definition EnvVarPrefix :: string where
  "EnvVarPrefix = ''ERGO_''"

definition RosettaModeEnv :: string where
  "RosettaModeEnv = ''ROSETTA_MODE''"

definition RosettaDataDirEnv :: string where
  "RosettaDataDirEnv = ''ROSETTA_DATA_DIR''"

definition NetworkEnv :: string where
  "NetworkEnv = ''NETWORK''"

definition RosettaPortEnv :: string where
  "RosettaPortEnv = ''ROSETTA_PORT''"

definition ConfigEnv :: string where
  "ConfigEnv = ''CONFIG_DIR''"

definition NodePortEnv :: string where
  "NodePortEnv = ''ROSETTA_NODE_PORT''"

definition indexerPath :: string where
  "indexerPath = ''indexer''"

definition nodeConfigPath :: string where
  "nodeConfigPath = ''node.conf''"

text \<open>The value in the source; a build may replace it.\<close>

definition Version :: string where
  "Version = ''UNKNOWN''"

definition getEnv :: "(string \<Rightarrow> string) \<Rightarrow> string \<Rightarrow> string" where
  "getEnv env key = env (EnvVarPrefix @ key)"

text \<open>
  What the process finds outside: its environment, the effect of creating directories, the
  decoded genesis coins and balances of a network, and the text of \<open>Atoi\<close>'s error.
\<close>

record host =
  ho_env :: "string \<Rightarrow> string"
  ho_MkdirAll :: "string \<Rightarrow> unit go"
  ho_genesisUtxos :: "string \<Rightarrow> account_coin list go"
  ho_bootstrapBalances :: "string \<Rightarrow> bootstrap_balance list go"
  ho_AtoiError :: "string \<Rightarrow> go_error"

definition ensurePathExists :: "host \<Rightarrow> string \<Rightarrow> unit go" where
  "ensurePathExists H path =
     map_err (\<lambda>err. Wrapf [] err ('': unable to create '' @ path @ '' directory'')) (ho_MkdirAll H path)"

text \<open>A port that parses but is not positive is reported with a nil error after \<open>%w\<close>.\<close>

definition parsePort :: "host \<Rightarrow> string \<Rightarrow> int go" where
  "parsePort H port =
     (case Atoi port of
        None \<Rightarrow> Err (Wrapf (''unable to parse port '' @ port @ '': '') (ho_AtoiError H port) [])
      | Some p \<Rightarrow>
          if p \<le> 0 then Err (New (''unable to parse port '' @ port @ '': %!w(<nil>)'')) else Ok p)"

definition parseInterface :: "'a go \<Rightarrow> 'a go" where
  "parseInterface decoded = map_err (\<lambda>err. Wrapf [] err '': unable to unmarshal'') decoded"

section \<open>LoadConfiguration\<close>

text \<open>The mode and, online, the path of the indexer's database, which is created.\<close>

definition load_mode :: "host \<Rightarrow> (mode \<times> string) go" where
  "load_mode H =
     (let modeValue = getEnv (ho_env H) RosettaModeEnv
      in if modeValue = ''ONLINE'' then
           (let p = path_Join (getEnv (ho_env H) RosettaDataDirEnv) indexerPath
            in gbind (map_err (\<lambda>err. Wrapf [] err '': unable to create indexer path'')
                        (ensurePathExists H p)) (\<lambda>_. Ok (Online, p)))
         else if modeValue = ''OFFLINE'' then Ok (Offline, [])
         else if modeValue = [] then Err (New (EnvVarPrefix @ RosettaModeEnv @ '' must be populated''))
         else Err (New (modeValue @ '' is not a valid mode'')))"

text \<open>The network with its genesis block and the two embedded files.\<close>

definition load_network ::
  "host \<Rightarrow> (network_identifier \<times> block_identifier \<times> account_coin list \<times> bootstrap_balance list) go"
where
  "load_network H =
     (let networkValue = getEnv (ho_env H) NetworkEnv;
          load = (\<lambda>net genesis.
            gbind (parseInterface (ho_genesisUtxos H net)) (\<lambda>utxos.
            gbind (parseInterface (ho_bootstrapBalances H net)) (\<lambda>balances.
            Ok (\<lparr>ni_Blockchain = Blockchain, ni_Network = net\<rparr>, genesis, utxos, balances))))
      in if networkValue = ''mainnet'' then load MainnetNetwork MainnetGenesisBlockIdentifier
         else if networkValue = ''testnet'' then load TestnetNetwork TestnetGenesisBlockIdentifier
         else if networkValue = [] then Err (New (EnvVarPrefix @ NetworkEnv @ '' must be populated''))
         else Err (New (networkValue @ '' is not a valid network'')))"

definition load_rosetta_port :: "host \<Rightarrow> int go" where
  "load_rosetta_port H =
     (let rosettaPortStr = getEnv (ho_env H) RosettaPortEnv
      in if rosettaPortStr = [] then Err (New (EnvVarPrefix @ RosettaPortEnv @ '' must be populated''))
         else parsePort H rosettaPortStr)"

definition LoadConfiguration :: "host \<Rightarrow> configuration go" where
  "LoadConfiguration H =
     gbind (load_mode H) (\<lambda>(m, indexer_path).
     gbind (parsePort H (ho_env H NodePortEnv)) (\<lambda>nodePort.
     gbind (load_network H) (\<lambda>(network, genesis, utxos, balances).
     gbind (load_rosetta_port H) (\<lambda>rosettaPort.
     Ok \<lparr>cfg_Mode = m, cfg_Version = Version, cfg_Network = network, cfg_Currency = ergo_Currency,
         cfg_GenesisBlockIdentifier = genesis, cfg_RosettaPort = rosettaPort,
         cfg_NodePort = nodePort, cfg_IndexerPath = indexer_path, cfg_GenesisUtxos = utxos,
         cfg_BootstrapBalances = balances,
         cfg_NodeConfigPath = path_Join (getEnv (ho_env H) ConfigEnv) nodeConfigPath\<rparr>))))"

end
