(* ===== verification/Genesis_Data.thy ===== *)
theory Genesis_Data
  imports Configuration
begin

text \<open>
  pkg/config/mainnet and pkg/config/testnet: the embedded JSON files with the coins and the
  balances that exist before the genesis block, as the values their decoding gives.
\<close>

section \<open>Addresses\<close>

definition addr_emission_mainnet :: string where
  "addr_emission_mainnet =
     ''AfYgQf5PappexLPvSSvtQZQQ1UdAi1LyHrdvMxHv4dnhu8WPwdqGJ82dtaKNBtLCEMQSy77c5SzhuPiK'' @
     ''iedQXbjaszGzGCyzwf88iDHT4czMPnXKWmoPE1c8nvHX4uSMtCcrBCQzR1ffqXaEjgDZEdNxjs24WRjF'' @
     ''xHxkNHoL7QijEfhwTHjMoiTJ2E2QhTkbqrNSJK4GLF1dUKVX3nu2WS9P2Et4bGEtufzZEDhGPE2mszGJ'' @
     ''DAr1b8W3rZ43Y7rYuwx128ixX4yjoTdP5smX6spzytcp5ZMhiPArdb935WGhJqGvwaXGmN9aLXDR1q''"

definition addr_no_premine :: string where
  "addr_no_premine =
     ''Ms7smJmdbakqfwNo''"

definition addr_founders :: string where
  "addr_founders =
     ''MiLZjNnxChCRGAG4guFp4ESHxwsSXuocUXkFA4Hgiq9nwYy7mZ4Go2iNCbUi6GaH4ru7S8chrcacvPWT'' @
     ''RDzTcQ3VXo123kkLXt9hbVSiEF6J5gX1K1Xti5AKYJkgK6qx9uN4DtffzDHZ6rruqi4nQo8CLUDhdpFq'' @
     ''Fi9xgAXKejP6mF7KZLD6QJzHN9js8dJFgw69HS3''"

definition addr_emission_testnet :: string where
  "addr_emission_testnet =
     ''AfYgQf5PappexKq8Vpig4vwEuZLjrq7gV97BWBVcKymTYqRzCoJLE9cDBpGHvtAAkAgQf8Yyv7NQUjSp'' @
     ''hKSjYxk3dB3W8VXzHzz5MuCcNbqqKHnMDZAa6dbHH1uyMScq5rXPLFD5P8MWkD5FGE6RbHKrKjANcr6Q'' @
     ''ZHcBpppdjh9r5nra4c7dsCgULFZfWYTaYqHpx646BUHhhp8jDCHzzF33G8XfgKYo93ABqmdqagbYRzrq'' @
     ''CgPHv5kxRmFt7Y99z26VQTgXoEmXJ2aRu6LoB59rKN47JxWGos27D79kKzJRiyYNEVzXU8MYCxtAwV''"

section \<open>Entries\<close>

text \<open>An entry of each kind of file; every amount is in ERG with nine decimals.\<close>

definition balance_entry :: "string \<Rightarrow> string \<Rightarrow> bootstrap_balance" where
  "balance_entry addr v =
     \<lparr>bb_Account = Some \<lparr>ai_Address = addr\<rparr>, bb_Value = v,
      bb_Currency = \<lparr>cur_Symbol = ''ERG'', cur_Decimals = 9\<rparr>\<rparr>"

definition utxo_entry :: "string \<Rightarrow> string \<Rightarrow> string \<Rightarrow> account_coin" where
  "utxo_entry addr box v =
     \<lparr>ac_Account = Some \<lparr>ai_Address = addr\<rparr>,
      ac_Coin = \<lparr>co_CoinIdentifier = \<lparr>ci_Identifier = box\<rparr>,
                 co_Amount = Some \<lparr>am_Value = v, am_Currency = \<lparr>cur_Symbol = ''ERG'', cur_Decimals = 9\<rparr>\<rparr>\<rparr>\<rparr>"

section \<open>The files\<close>

definition mainnet_bootstrap_balances :: "bootstrap_balance list" where
  "mainnet_bootstrap_balances =
     [balance_entry addr_emission_mainnet ''93409132500000000'',
      balance_entry addr_no_premine ''1000000000'',
      balance_entry addr_founders ''4330791500000000'']"

definition mainnet_genesis_utxos :: "account_coin list" where
  "mainnet_genesis_utxos =
     [utxo_entry addr_emission_mainnet
        ''b69575e11c5c43400bfead5976ee0d6245a1168396b2e2a4f384691f275d501c'' ''93409132500000000'',
      utxo_entry addr_no_premine
        ''b8ce8cfe331e5eadfb0783bdc375c94413433f65e1e45857d71550d42e4d83bd'' ''1000000000'',
      utxo_entry addr_founders
        ''5527430474b673e4aafb08e0079c639de23e6a17e87edd00f78662b43c88aeda'' ''4330791500000000'']"

definition testnet_bootstrap_balances :: "bootstrap_balance list" where
  "testnet_bootstrap_balances =
     [balance_entry addr_emission_testnet ''93409132500000000'',
      balance_entry addr_no_premine ''1000000000'',
      balance_entry addr_founders ''4330791500000000'']"

definition testnet_genesis_utxos :: "account_coin list" where
  "testnet_genesis_utxos =
     [utxo_entry addr_emission_testnet
        ''1553e823a30ae26f85491e2799683ca84758fc52e8ebc8dca4f378e586b6b06b'' ''93409132500000000'',
      utxo_entry addr_no_premine
        ''3bfaf76c824df668822dfce71abaf688d0281f91c3ac2a271f92fa28c3efaac7'' ''1000000000'',
      utxo_entry addr_founders
        ''5527430474b673e4aafb08e0079c639de23e6a17e87edd00f78662b43c88aeda'' ''4330791500000000'']"

end
