(* ===== verification/Http_Logger.thy ===== *)
theory Http_Logger
  imports Go_Prelude
begin

text \<open>
  pkg/logger/logger.go: the middleware that logs the status code of every response. The
  handler it wraps is a parameter, given by the calls it makes on its response writer; the
  writer of \<open>net/http\<close> is modelled as far as status codes and bodies go.
\<close>

section \<open>The response writer of net/http\<close>

text \<open>
  The first \<open>WriteHeader\<close> decides the status; later ones only log a warning. A code that
  is not three digits panics. Writing a body first sends status 200, and statuses without
  a body refuse it.
\<close>

record response_writer =
  rw_status :: "int option"
  rw_body :: string

definition StatusOK_code :: int where
  "StatusOK_code = 200"

definition new_writer :: response_writer where
  "new_writer = \<lparr>rw_status = None, rw_body = []\<rparr>"

definition rw_WriteHeader :: "int \<Rightarrow> (response_writer, unit) stm" where
  "rw_WriteHeader code w =
     (if rw_status w \<noteq> None then (Ok (), w)
      else if code < 100 \<or> 999 < code then (Panic InvalidWriteHeader, w)
      else (Ok (), w\<lparr>rw_status := Some code\<rparr>))"

definition body_allowed :: "int \<Rightarrow> bool" where
  "body_allowed code \<longleftrightarrow> \<not> (100 \<le> code \<and> code \<le> 199) \<and> code \<noteq> 204 \<and> code \<noteq> 304"

definition rw_Write :: "string \<Rightarrow> (response_writer, unit) stm" where
  "rw_Write bytes w =
     (let code = (case rw_status w of None \<Rightarrow> StatusOK_code | Some c \<Rightarrow> c)
      in (Ok (), w\<lparr>rw_status := Some code,
                   rw_body := rw_body w @ (if body_allowed code then bytes else [])\<rparr>))"

text \<open>A handler that returns without a status has answered 200.\<close>

definition sent_status :: "response_writer \<Rightarrow> int" where
  "sent_status w = (case rw_status w of None \<Rightarrow> StatusOK_code | Some c \<Rightarrow> c)"

datatype writer_call = CallWriteHeader int | CallWrite string

primrec plain_call :: "writer_call \<Rightarrow> (response_writer, unit) stm" where
  "plain_call (CallWriteHeader code) = rw_WriteHeader code"
| "plain_call (CallWrite bytes) = rw_Write bytes"

definition serve_plain :: "writer_call list \<Rightarrow> unit go \<times> response_writer" where
  "serve_plain calls = sfor plain_call calls new_writer"

section \<open>The status recorder\<close>

text \<open>
  It embeds the writer, so \<open>Write\<close> is the writer's own and never reaches the recorder's
  \<open>WriteHeader\<close>.
\<close>

record status_recorder =
  sr_ResponseWriter :: response_writer
  sr_Code :: int

definition NewStatusRecorder :: "response_writer \<Rightarrow> status_recorder" where
  "NewStatusRecorder w = \<lparr>sr_ResponseWriter = w, sr_Code = StatusOK_code\<rparr>"

definition on_writer :: "(response_writer, 'a) stm \<Rightarrow> (status_recorder, 'a) stm" where
  "on_writer m r =
     (case m (sr_ResponseWriter r) of (res, w) \<Rightarrow> (res, r\<lparr>sr_ResponseWriter := w\<rparr>))"

definition sr_WriteHeader :: "int \<Rightarrow> (status_recorder, unit) stm" where
  "sr_WriteHeader code r = on_writer (rw_WriteHeader code) (r\<lparr>sr_Code := code\<rparr>)"

primrec recorder_call :: "writer_call \<Rightarrow> (status_recorder, unit) stm" where
  "recorder_call (CallWriteHeader code) = sr_WriteHeader code"
| "recorder_call (CallWrite bytes) = on_writer (rw_Write bytes)"

record http_log =
  hl_Method :: string
  hl_Code :: int
  hl_URI :: string

text \<open>
  The middleware: the result of the handler, what was sent, and the log entry, which a
  panicking handler does not leave.
\<close>

definition NewMiddleware ::
  "(string \<Rightarrow> string \<Rightarrow> writer_call list) \<Rightarrow> string \<Rightarrow> string \<Rightarrow>
   unit go \<times> response_writer \<times> http_log list"
where
  "NewMiddleware inner req_method uri =
     (case sfor recorder_call (inner req_method uri) (NewStatusRecorder new_writer) of
        (res, recorder) \<Rightarrow>
          (res, sr_ResponseWriter recorder,
           if is_ok res then [\<lparr>hl_Method = req_method, hl_Code = sr_Code recorder, hl_URI = uri\<rparr>]
           else []))"

section \<open>Recorder and writer side by side\<close>

fun header_codes :: "writer_call list \<Rightarrow> int list" where
  "header_codes [] = []"
| "header_codes (CallWriteHeader c # cs) = c # header_codes cs"
| "header_codes (CallWrite b # cs) = header_codes cs"

definition is_write :: "writer_call \<Rightarrow> bool" where
  "is_write call = (case call of CallWriteHeader _ \<Rightarrow> False | CallWrite _ \<Rightarrow> True)"

lemma header_codes_writes [simp]: "list_all is_write cs \<Longrightarrow> header_codes cs = []"
  by (induction cs rule: header_codes.induct) (simp_all add: is_write_def)

lemma plain_not_Err: "fst (plain_call c w) \<noteq> Err e"
  by (cases c) (simp_all add: rw_WriteHeader_def rw_Write_def Let_def)

lemma recorder_call_plain:
  "recorder_call c r =
     (fst (plain_call c (sr_ResponseWriter r)),
      \<lparr>sr_ResponseWriter = snd (plain_call c (sr_ResponseWriter r)),
       sr_Code = (case c of CallWriteHeader code \<Rightarrow> code | _ \<Rightarrow> sr_Code r)\<rparr>)"
  by (cases c) (simp_all add: sr_WriteHeader_def on_writer_def split: prod.split)

text \<open>The recorder is the writer plus the last code given to \<open>WriteHeader\<close>.\<close>

lemma recorder_run:
  "case sfor plain_call cs (sr_ResponseWriter r) of
     (res, w) \<Rightarrow> (\<exists>code. sfor recorder_call cs r = (res, \<lparr>sr_ResponseWriter = w, sr_Code = code\<rparr>) \<and>
        (is_ok res \<longrightarrow> code = last (sr_Code r # header_codes cs)))"
proof (induction cs arbitrary: r)
  case Nil
  show ?case by simp
next
  case (Cons c cs)
  let ?w = "sr_ResponseWriter r"
  obtain res w where p: "plain_call c ?w = (res, w)" by fastforce
  let ?r = "\<lparr>sr_ResponseWriter = w, sr_Code = (case c of CallWriteHeader code \<Rightarrow> code | _ \<Rightarrow> sr_Code r)\<rparr>"
  have q: "recorder_call c r = (res, ?r)" using p by (simp add: recorder_call_plain)
  show ?case
  proof (cases res)
    case (Ok u)
    have "last (sr_Code ?r # header_codes cs) = last (sr_Code r # header_codes (c # cs))"
      by (cases c) simp_all
    with Cons.IH [of ?r] p q Ok show ?thesis by simp
  next
    case (Err e)
    with p plain_not_Err [of c ?w e] show ?thesis by simp
  next
    case (Panic x)
    with p q show ?thesis by simp
  qed
qed

lemma status_sticks:
  "rw_status w = Some c \<Longrightarrow> sent_status (snd (sfor plain_call cs w)) = c"
proof (induction cs arbitrary: w)
  case Nil
  then show ?case by (simp add: sent_status_def)
next
  case (Cons call cs)
  have "\<exists>w'. plain_call call w = (Ok (), w') \<and> rw_status w' = Some c"
    using Cons.prems by (cases call) (simp_all add: rw_WriteHeader_def rw_Write_def)
  then obtain w' where "plain_call call w = (Ok (), w')" "rw_status w' = Some c" by blast
  with Cons.IH [of w'] show ?case by simp
qed

section \<open>What is logged\<close>

text \<open>
  C33: The middleware changes nothing of what a handler sends, a panic included, and logs one
  entry per handled request. The code in it is the last one the handler passed to
  \<open>WriteHeader\<close> (200 without one), which is the status that was sent whenever the handler
  sets the status at most once, before the body; a second \<open>WriteHeader\<close>, which the client
  never sees, is what gets logged.
\<close>

theorem middleware_transparent:
  "(case NewMiddleware inner req_method uri of
      (res, w, logs) \<Rightarrow>
        serve_plain (inner req_method uri) = (res, w) \<and>
        logs = (if is_ok res
                then [\<lparr>hl_Method = req_method,
                       hl_Code = last (StatusOK_code # header_codes (inner req_method uri)),
                       hl_URI = uri\<rparr>] else []) \<and>
        (list_all is_write (tl (inner req_method uri)) \<longrightarrow>
           (\<forall>entry \<in> set logs. hl_Code entry = sent_status w)))"
proof -
  let ?cs = "inner req_method uri"
  obtain res w where p: "serve_plain ?cs = (res, w)" by fastforce
  then obtain code where r: "sfor recorder_call ?cs (NewStatusRecorder new_writer) =
        (res, \<lparr>sr_ResponseWriter = w, sr_Code = code\<rparr>)"
    and code: "is_ok res \<Longrightarrow> code = last (StatusOK_code # header_codes ?cs)"
    using recorder_run [of ?cs "NewStatusRecorder new_writer"]
    by (auto simp: serve_plain_def NewStatusRecorder_def)
  have "last (StatusOK_code # header_codes ?cs) = sent_status w"
    if ok: "is_ok res" and wr: "list_all is_write (tl ?cs)"
  proof (cases ?cs)
    case Nil
    with p show ?thesis by (auto simp: serve_plain_def new_writer_def sent_status_def)
  next
    case (Cons call rest)
    from wr Cons have rest: "list_all is_write rest" by simp
    have hc: "header_codes ?cs = header_codes [call]"
      using Cons rest by (cases call) simp_all
    show ?thesis
    proof (cases "plain_call call new_writer")
      case (Pair res1 w1)
      then show ?thesis
        using p Cons ok hc status_sticks [of w1 _ rest]
        by (cases call) (auto simp: serve_plain_def rw_WriteHeader_def rw_Write_def new_writer_def
            split: if_splits)
    qed
  qed
  then show ?thesis using p r code by (auto simp: NewMiddleware_def)
qed

theorem middleware_transparent_witness:
  "(case NewMiddleware (\<lambda>m u. [CallWriteHeader 500, CallWrite ''oops'']) ''POST'' ''/block'' of
      (res, w, logs) \<Rightarrow> map hl_Code logs = [500] \<and> sent_status w = 500) \<and>
   (case NewMiddleware (\<lambda>m u. [CallWrite ''ok'', CallWriteHeader 500]) ''POST'' ''/block'' of
      (res, w, logs) \<Rightarrow> map hl_Code logs = [500] \<and> sent_status w = 200)"
  using middleware_transparent [of "\<lambda>m u. [CallWriteHeader 500, CallWrite ''oops'']" "''POST''" "''/block''"]
    middleware_transparent [of "\<lambda>m u. [CallWrite ''ok'', CallWriteHeader 500]" "''POST''" "''/block''"]
  by (auto simp: serve_plain_def rw_WriteHeader_def rw_Write_def new_writer_def is_write_def
      sent_status_def StatusOK_code_def)

end
