(* ===== verification/Storage_Setup.thy ===== *)
theory Storage_Setup
  imports Storage
begin

text \<open>
  pkg/storage/storage.go: opening the database and wiring the SDK's modules. The modules are
  the \<open>storage_api\<close> of \<open>Storage\<close>; here is what the repository decides about them: the
  database options and the workers that follow every stored block.
\<close>

datatype compression = NoCompression | SomeCompression

record badger_options =
  bo_Dir :: string
  bo_Compression :: compression
  bo_Truncate :: bool

text \<open>What the database package does: its default options, opening and closing.\<close>

record 'db badger =
  bd_DefaultOptions :: "string \<Rightarrow> badger_options"
  bd_Open :: "string \<Rightarrow> badger_options \<Rightarrow> 'db go"
  bd_Close :: "unit go"

definition defaultBadgerOptions :: "'db badger \<Rightarrow> string \<Rightarrow> badger_options" where
  "defaultBadgerOptions B dir =
     (bd_DefaultOptions B dir)\<lparr>bo_Compression := NoCompression, bo_Truncate := True\<rparr>"

text \<open>
  The modules that follow the block storage, in the order in which a block is handed to
  them; the block storage knows them only after \<open>Initialize\<close>.
\<close>

datatype block_worker = CoinWorker | BalanceWorker

record 'db storage_set =
  ss_db :: 'db
  ss_workers :: "block_worker list"
  ss_blockWorkers :: "block_worker list"

definition NewStorage :: "'db badger \<Rightarrow> string \<Rightarrow> 'db storage_set go" where
  "NewStorage B dbPath =
     gbind (bd_Open B dbPath (defaultBadgerOptions B dbPath)) (\<lambda>db.
     Ok \<lparr>ss_db = db, ss_workers = [CoinWorker, BalanceWorker], ss_blockWorkers = []\<rparr>)"

definition Storage_Initialize :: "'db storage_set \<Rightarrow> 'db storage_set" where
  "Storage_Initialize s = s\<lparr>ss_blockWorkers := ss_workers s\<rparr>"

text \<open>A database that cannot be closed ends the process.\<close>

definition Storage_Shutdown :: "'db badger \<Rightarrow> unit go" where
  "Storage_Shutdown B =
     (case bd_Close B of Ok _ \<Rightarrow> Ok () | Err _ \<Rightarrow> Panic ProcessExit | Panic p \<Rightarrow> Panic p)"

end
