(* ===== verification/Node_Process.thy ===== *)
theory Node_Process
  imports Config_Load
begin

text \<open>
  pkg/ergo/node.go: launching the Ergo node as a child process, with goroutines that copy its
  output and that interrupt it when the server stops. The operating system's part (pipes,
  starting, waiting) is a parameter; what is started, and in which order, is the state.
\<close>

record node_configuration =
  nc_Network :: string
  nc_ConfigFilePath :: string

definition ergoLogger :: string where
  "ergoLogger = ''ergo-node''"

definition ergoStdErrLogger :: string where
  "ergoStdErrLogger = ''ergo-node stderr''"

text \<open>The lines of a pipe, each printed with its identifier, and the scanner's error.\<close>

definition logPipe :: "string \<Rightarrow> string list \<Rightarrow> go_error option \<Rightarrow> go_error option \<times> string" where
  "logPipe identifier pipe_lines scan_error =
     (scan_error, concat (map (\<lambda>line_text. identifier @ '': '' @ line_text @ [CHR 10]) pipe_lines))"

datatype node_effect =
    GoLogPipe string
  | StartProcess "string list"
  | GoInterruptOnCancel

record node_host =
  nh_JavaHome :: string
  nh_StdoutPipe :: "unit go"
  nh_StderrPipe :: "unit go"
  nh_Start :: "string list \<Rightarrow> unit go"
  nh_Wait :: "unit go"

text \<open>\<open>path.Join\<close> of the three elements; an unset \<open>JAVA_HOME\<close> gives a relative path.\<close>

definition javaPath :: "string \<Rightarrow> string" where
  "javaPath javaHome = path_Clean (join_slash (filter (\<lambda>x. x \<noteq> []) [javaHome, ''bin'', ''java'']))"

definition node_command :: "string \<Rightarrow> node_configuration \<Rightarrow> string list" where
  "node_command javaHome cfg =
     [javaPath javaHome, ''-Dfile.encoding=UTF-8'', ''-Xmx4g'', ''-jar'', ''/app/ergo.jar'',
      ''--'' @ nc_Network cfg, ''-c='' @ nc_ConfigFilePath cfg]"

definition effect :: "'e \<Rightarrow> ('e list, unit) stm" where
  "effect e = supd (\<lambda>es. es @ [e])"

lemma effect_run [simp]: "effect e es = (Ok (), es @ [e])"
  by (simp add: effect_def)

definition StartErgoNode :: "node_host \<Rightarrow> node_configuration \<Rightarrow> (node_effect list, unit) stm" where
  "StartErgoNode H cfg =
     (let cmd = node_command (nh_JavaHome H) cfg
      in sbind (sgo (nh_StdoutPipe H)) (\<lambda>_.
         sbind (sgo (nh_StderrPipe H)) (\<lambda>_.
         sbind (effect (GoLogPipe ergoLogger)) (\<lambda>_.
         sbind (effect (GoLogPipe ergoStdErrLogger)) (\<lambda>_.
         sbind (effect (StartProcess cmd)) (\<lambda>_.
         sbind (sgo (map_err (\<lambda>err. Wrapf [] err '': unable to start ergo node'') (nh_Start H cmd))) (\<lambda>_.
         sbind (effect GoInterruptOnCancel) (\<lambda>_.
         sgo (nh_Wait H)))))))))"

end
