(* ===== verification/Server_Run.thy ===== *)
theory Server_Run
  imports Services Storage_Setup Node_Process Indexer
begin

text \<open>
  cmd/root.go, cmd/run.go, main.go and pkg/server/router.go: how the parts are put together and
  how the process ends. Goroutines are started in an \<open>errgroup\<close>, which is not part of the
  repository; what \<open>Wait\<close> makes of their results is a parameter. The state is what was
  started so far.
\<close>

section \<open>Services and the router\<close>

text \<open>Each constructor stores its arguments; offline the client and the storage are nil.\<close>

record 'db network_service =
  nas_config :: configuration
  nas_client :: "client option"
  nas_storage :: "'db storage_set option"

record 'db block_service =
  bas_config :: configuration
  bas_storage :: "'db storage_set option"

record 'db account_service =
  aas_config :: configuration
  aas_storage :: "'db storage_set option"

record 'db mempool_service =
  mas_config :: configuration
  mas_client :: "client option"
  mas_storage :: "'db storage_set option"

record 'db blockchain_router =
  br_network :: "'db network_service"
  br_block :: "'db block_service"
  br_account :: "'db account_service"
  br_mempool :: "'db mempool_service"

definition NewNetworkAPIService ::
  "configuration \<Rightarrow> client option \<Rightarrow> 'db storage_set option \<Rightarrow> 'db network_service"
where
  "NewNetworkAPIService cfg c s = \<lparr>nas_config = cfg, nas_client = c, nas_storage = s\<rparr>"

definition NewBlockAPIService :: "configuration \<Rightarrow> 'db storage_set option \<Rightarrow> 'db block_service" where
  "NewBlockAPIService cfg s = \<lparr>bas_config = cfg, bas_storage = s\<rparr>"

definition NewAccountAPIService :: "configuration \<Rightarrow> 'db storage_set option \<Rightarrow> 'db account_service" where
  "NewAccountAPIService cfg s = \<lparr>aas_config = cfg, aas_storage = s\<rparr>"

definition NewMempoolAPIService ::
  "configuration \<Rightarrow> client option \<Rightarrow> 'db storage_set option \<Rightarrow> 'db mempool_service"
where
  "NewMempoolAPIService cfg c s = \<lparr>mas_config = cfg, mas_client = c, mas_storage = s\<rparr>"

definition NewBlockchainRouter ::
  "configuration \<Rightarrow> client option \<Rightarrow> 'db storage_set option \<Rightarrow> 'db blockchain_router"
where
  "NewBlockchainRouter cfg c s =
     \<lparr>br_network = NewNetworkAPIService cfg c s, br_block = NewBlockAPIService cfg s,
      br_account = NewAccountAPIService cfg s, br_mempool = NewMempoolAPIService cfg c s\<rparr>"

section \<open>The node client\<close>

text \<open>
  Durations are in seconds. A client is the network as an HTTP client with these limits
  reaches it, with a base URL.
\<close>

record http_client =
  hc_Timeout :: int
  hc_DialTimeout :: int

definition defaultTimeout :: int where
  "defaultTimeout = 100"

definition dialTimeout :: int where
  "dialTimeout = 5"

definition newHTTPClient :: "int \<Rightarrow> http_client" where
  "newHTTPClient timeout = \<lparr>hc_Timeout = timeout, hc_DialTimeout = dialTimeout\<rparr>"

definition NewClient :: "(http_client \<Rightarrow> client) \<Rightarrow> string \<Rightarrow> client" where
  "NewClient network baseURL = (network (newHTTPClient defaultTimeout))\<lparr>cl_baseURL := baseURL\<rparr>"

section \<open>Signals\<close>

text \<open>
  The first of the two signals it listens for is taken from the channel; it marks the
  process as halted by a signal and calls every listener. The channel is read only once.
\<close>

definition handleSignals :: "'sig list \<Rightarrow> 'listener list \<Rightarrow> bool \<times> 'listener list" where
  "handleSignals signals cancels =
     (case signals of [] \<Rightarrow> (False, []) | sig # _ \<Rightarrow> (True, cancels))"

section \<open>Running the server\<close>

datatype task =
    MonitorTask
  | NodeTask node_configuration
  | SyncTask
  | ListenTask string
  | ShutdownServerTask

datatype cancel_func = CancelContext

text \<open>The HTTP server, with its limits in seconds.\<close>

definition readTimeout :: int where
  "readTimeout = 5"

definition writeTimeout :: int where
  "writeTimeout = 15"

definition idleTimeout :: int where
  "idleTimeout = 30"

record http_server =
  hs_Addr :: string
  hs_ReadTimeout :: int
  hs_WriteTimeout :: int
  hs_IdleTimeout :: int

text \<open>
  What surrounds the process: the logger's construction and flushing, the environment the
  configuration is read from, the SDK's asserters, the database, the network, how the
  goroutines end, what \<open>Wait\<close> returns for their results, and the signals received.
\<close>

record 'db run_host =
  rh_zap :: "unit go"
  rh_Sync :: "unit go"
  rh_host :: host
  rh_clientAsserter :: "configuration \<Rightarrow> unit go"
  rh_serverAsserter :: "configuration \<Rightarrow> unit go"
  rh_badger :: "'db badger"
  rh_client :: "http_client \<Rightarrow> client"
  rh_result :: "task \<Rightarrow> go_error option"
  rh_Wait :: "(task \<Rightarrow> go_error option) \<Rightarrow> task list \<Rightarrow> go_error option"
  rh_signals :: "string list"

record 'db app =
  ap_tasks :: "task list"
  ap_indexer :: "'db indexer option"
  ap_router :: "'db blockchain_router option"
  ap_server :: "http_server option"
  ap_closed :: bool

definition app_init :: "'db app" where
  "app_init = \<lparr>ap_tasks = [], ap_indexer = None, ap_router = None, ap_server = None, ap_closed = False\<rparr>"

definition g_Go :: "task \<Rightarrow> ('db app, unit) stm" where
  "g_Go t = supd (\<lambda>a. a\<lparr>ap_tasks := ap_tasks a @ [t]\<rparr>)"

text \<open>\<open>l.Fatalw\<close> ends the process on an error.\<close>

primrec fatal :: "'a go \<Rightarrow> 'a go" where
  "fatal (Ok x) = Ok x"
| "fatal (Err e) = Panic ProcessExit"
| "fatal (Panic p) = Panic p"

text \<open>Creating the indexer never fails, so its error branch is not reached.\<close>

definition startOnlineDependencies ::
  "'db run_host \<Rightarrow> configuration \<Rightarrow> ('db app, client \<times> 'db indexer \<times> 'db storage_set) stm"
where
  "startOnlineDependencies H cfg =
     (let c = NewClient (rh_client H) (LocalNodeURL (cfg_NodePort cfg))
      in sbind (sgo (rh_clientAsserter H cfg)) (\<lambda>_.
         sbind (sgo (NewStorage (rh_badger H) (cfg_IndexerPath cfg))) (\<lambda>st.
         let i = InitIndexer (ss_db st)
         in sbind (g_Go SyncTask) (\<lambda>_. sret (c, i, st)))))"

definition start_online ::
  "'db run_host \<Rightarrow> bool \<Rightarrow> configuration \<Rightarrow>
   ('db app, (client \<times> 'db indexer \<times> 'db storage_set) option) stm"
where
  "start_online H startNode cfg =
     (if cfg_Mode cfg = Online
      then sbind (if startNode
                  then g_Go (NodeTask \<lparr>nc_Network = ni_Network (cfg_Network cfg),
                                       nc_ConfigFilePath = cfg_NodeConfigPath cfg\<rparr>)
                  else sret ()) (\<lambda>_.
           \<lambda>a. case startOnlineDependencies H cfg a of (r, a') \<Rightarrow>
             (case fatal r of
                Ok (c, i, st) \<Rightarrow> (Ok (Some (c, i, st)), a'\<lparr>ap_indexer := Some i\<rparr>)
              | Err e \<Rightarrow> (Err e, a')
              | Panic p \<Rightarrow> (Panic p, a')))
      else sret None)"

definition serve_http ::
  "configuration \<Rightarrow> (client \<times> 'db indexer \<times> 'db storage_set) option \<Rightarrow> ('db app, unit) stm"
where
  "serve_http cfg deps =
     (let c = map_option fst deps; st = map_option (\<lambda>d. snd (snd d)) deps;
          server = \<lparr>hs_Addr = '':'' @ show_int (cfg_RosettaPort cfg), hs_ReadTimeout = readTimeout,
                    hs_WriteTimeout = writeTimeout, hs_IdleTimeout = idleTimeout\<rparr>
      in sbind (supd (\<lambda>a. a\<lparr>ap_router := Some (NewBlockchainRouter cfg c st), ap_server := Some server\<rparr>)) (\<lambda>_.
         sbind (g_Go (ListenTask (hs_Addr server))) (\<lambda>_.
         g_Go ShutdownServerTask)))"

text \<open>After \<open>Wait\<close>: close the database if there is one, then decide what to report.\<close>

definition finish_run ::
  "'db run_host \<Rightarrow> (client \<times> 'db indexer \<times> 'db storage_set) option \<Rightarrow> ('db app, unit) stm"
where
  "finish_run H deps a =
     (let err = rh_Wait H (rh_result H) (ap_tasks a);
          SignalReceived = fst (handleSignals (rh_signals H) [CancelContext])
      in case (if deps = None then Ok () else Storage_Shutdown (rh_badger H)) of
           Err e \<Rightarrow> (Err e, a)
         | Panic p \<Rightarrow> (Panic p, a)
         | Ok _ \<Rightarrow>
             (if SignalReceived then Ok () else case err of None \<Rightarrow> Ok () | Some e \<Rightarrow> Err e,
              a\<lparr>ap_closed := deps \<noteq> None\<rparr>))"

text \<open>
  The deferred flush of the logger runs when the function returns or panics, but not when
  the process is ended, and ends the process if it fails.
\<close>

definition deferred_sync :: "'db run_host \<Rightarrow> ('db app, unit) stm \<Rightarrow> ('db app, unit) stm" where
  "deferred_sync H body a =
     (case body a of (r, a') \<Rightarrow>
        (if r = Panic ProcessExit then r
         else case fatal (rh_Sync H) of Ok _ \<Rightarrow> r | Err e \<Rightarrow> Err e | Panic p \<Rightarrow> Panic p, a'))"

definition runCmdHandler :: "'db run_host \<Rightarrow> bool \<Rightarrow> ('db app, unit) stm" where
  "runCmdHandler H startNode =
     sbind (sgo (fatal (rh_zap H))) (\<lambda>_.
     deferred_sync H
       (sbind (g_Go MonitorTask) (\<lambda>_.
        sbind (sgo (fatal (LoadConfiguration (rh_host H)))) (\<lambda>cfg.
        sbind (start_online H startNode cfg) (\<lambda>deps.
        sbind (sgo (fatal (rh_serverAsserter H cfg))) (\<lambda>_.
        sbind (serve_http cfg deps) (\<lambda>_.
        finish_run H deps)))))))"

text \<open>The exit status: 2 is the Go runtime's for a panic that nothing recovers.\<close>

definition main_exit :: "unit go \<Rightarrow> int" where
  "main_exit r =
     (case r of Ok _ \<Rightarrow> 0 | Err _ \<Rightarrow> 1 | Panic p \<Rightarrow> if p = ProcessExit then 1 else 2)"

definition version_text :: string where
  "version_text = ''rosetta-ergo v'' @ Version @ [CHR 10]"

end
