(* ===== verification/Memory_Monitor.thy ===== *)
theory Memory_Monitor
  imports Go_Prelude Complex_Main
begin

text \<open>
  pkg/util/util.go: the goroutine that samples the memory usage and logs after garbage
  collections. The samples and the sleeps come from the SDK and are an argument; a heap
  size is a rational number (a 64-bit float holds one).
\<close>

record memory_usage =
  mu_Heap :: rat
  mu_Stack :: rat
  mu_System :: rat
  mu_GarbageCollections :: "32 word"

text \<open>Round number \<open>n\<close> of the loop: the context's state, the sample, the outcome of the sleep.\<close>

record monitor_round =
  mr_ctxErr :: "go_error option"
  mr_usage :: memory_usage
  mr_sleep :: "go_error option"

record memory_stats =
  ms_usage :: memory_usage
  ms_maxHeap :: rat

text \<open>The local variables, and what was logged so far.\<close>

record monitor_state =
  mn_maxHeap :: rat
  mn_garbageCollections :: "32 word"
  mn_logged :: "memory_stats list"

definition monitor_init :: monitor_state where
  "monitor_init = \<lparr>mn_maxHeap = 0, mn_garbageCollections = 0, mn_logged = []\<rparr>"

definition monitor_sample :: "memory_usage \<Rightarrow> monitor_state \<Rightarrow> monitor_state" where
  "monitor_sample memUsage st =
     (let st = (if mu_Heap memUsage > mn_maxHeap st then st\<lparr>mn_maxHeap := mu_Heap memUsage\<rparr> else st)
      in if mu_GarbageCollections memUsage > mn_garbageCollections st
         then st\<lparr>mn_garbageCollections := mu_GarbageCollections memUsage,
                 mn_logged := mn_logged st @ [\<lparr>ms_usage = memUsage, ms_maxHeap = mn_maxHeap st\<rparr>]\<rparr>
         else st)"

text \<open>
  The loop may run for ever: \<open>None\<close> is a call that does not return. It returns an error
  value (nil would be \<open>None\<close> inside the pair) and leaves what it logged.
\<close>

partial_function (option) monitor_loop ::
  "(nat \<Rightarrow> monitor_round) \<Rightarrow> nat \<Rightarrow> monitor_state \<Rightarrow> (go_error option \<times> memory_stats list) option"
where
  "monitor_loop env n st =
     (case mr_ctxErr (env n) of
        Some err \<Rightarrow> Some (mr_ctxErr (env n), mn_logged st)
      | None \<Rightarrow>
          (let st' = monitor_sample (mr_usage (env n)) st
           in case mr_sleep (env n) of
                Some err \<Rightarrow> Some (Some err, mn_logged st')
              | None \<Rightarrow> monitor_loop env (Suc n) st'))"

definition MonitorMemoryUsage ::
  "(nat \<Rightarrow> monitor_round) \<Rightarrow> (go_error option \<times> memory_stats list) option"
where
  "MonitorMemoryUsage env = monitor_loop env 0 monitor_init"

section \<open>Rounds\<close>

text \<open>The error a round ends the loop with, if it does.\<close>

definition round_end :: "monitor_round \<Rightarrow> go_error option" where
  "round_end r = (case mr_ctxErr r of Some e \<Rightarrow> Some e | None \<Rightarrow> mr_sleep r)"

lemma monitor_loop_goes_on:
  "round_end (env n) = None \<Longrightarrow>
   monitor_loop env n st = monitor_loop env (Suc n) (monitor_sample (mr_usage (env n)) st)"
  by (subst monitor_loop.simps) (simp add: round_end_def Let_def split: option.splits)

lemma monitor_loop_ends:
  "round_end (env n) = Some e \<Longrightarrow>
   monitor_loop env n st = Some (Some e, mn_logged
     (if mr_ctxErr (env n) = None then monitor_sample (mr_usage (env n)) st else st))"
  by (subst monitor_loop.simps) (auto simp: round_end_def Let_def split: option.splits)

lemma monitor_loop_skip:
  assumes "\<And>j. j < k \<Longrightarrow> round_end (env (n + j)) = None"
  shows "monitor_loop env n st = monitor_loop env (n + k)
    (foldl (\<lambda>st j. monitor_sample (mr_usage (env j)) st) st [n..<n + k])"
  using assms
proof (induction k)
  case (Suc k)
  then show ?case using monitor_loop_goes_on [of env "n + k"] by simp
qed simp

lemma monitor_loop_returns:
  "monitor_loop env n st = Some r \<Longrightarrow> \<exists>k. round_end (env k) \<noteq> None"
proof (induction rule: monitor_loop.raw_induct [rotated, consumes 1, case_names step])
  case (step loop env n st r)
  show ?case
  proof (cases "round_end (env n)")
    case None
    then have "loop env (Suc n) (monitor_sample (mr_usage (env n)) st) = Some r"
      using step(2) by (auto simp: round_end_def Let_def split: option.splits)
    with step(1) show ?thesis by blast
  qed blast
qed

text \<open>If the loop returns, there is a first round that ends it.\<close>

lemma monitor_loop_first:
  assumes "MonitorMemoryUsage env = Some r"
  shows "\<exists>k. round_end (env k) \<noteq> None \<and> (\<forall>j < k. round_end (env j) = None)"
proof -
  have ex: "\<exists>k. round_end (env k) \<noteq> None"
    using assms unfolding MonitorMemoryUsage_def by (rule monitor_loop_returns)
  show ?thesis
    using LeastI_ex [OF ex] not_less_Least [of _ "\<lambda>k. round_end (env k) \<noteq> None"] by blast
qed

text \<open>What the variables mean: the greatest heap so far, and counts that only grow.\<close>

definition monitor_ok :: "monitor_state \<Rightarrow> bool" where
  "monitor_ok st \<longleftrightarrow>
     sorted_wrt (<) (map (mu_GarbageCollections \<circ> ms_usage) (mn_logged st)) \<and>
     (\<forall>l \<in> set (mn_logged st). mu_GarbageCollections (ms_usage l) \<le> mn_garbageCollections st \<and>
        mu_Heap (ms_usage l) \<le> ms_maxHeap l \<and> ms_maxHeap l \<le> mn_maxHeap st) \<and>
     sorted (map ms_maxHeap (mn_logged st))"

lemma monitor_ok_init [simp]: "monitor_ok monitor_init"
  by (simp add: monitor_ok_def monitor_init_def)

lemma monitor_ok_sample: "monitor_ok st \<Longrightarrow> monitor_ok (monitor_sample u st)"
  by (fastforce simp: monitor_ok_def monitor_sample_def Let_def sorted_wrt_append sorted_append)

lemma monitor_ok_samples:
  "monitor_ok st \<Longrightarrow> monitor_ok (foldl (\<lambda>st j. monitor_sample (mr_usage (env j)) st) st ns)"
  by (induction ns arbitrary: st) (simp_all add: monitor_ok_sample)

section \<open>When the monitor ends\<close>

text \<open>
  The monitor returns exactly when some round finds the context cancelled or its sleep
  interrupted, and then with the error of the first such round, never with nil; the
  entries it logged have strictly growing garbage collection counts, each with the greatest
  heap size seen up to it. Otherwise it never returns.
\<close>

theorem monitor_ends_with_error:
  "case MonitorMemoryUsage env of
     None \<Rightarrow> \<forall>k. round_end (env k) = None
   | Some (result, logs) \<Rightarrow>
       result \<noteq> None \<and>
       (\<exists>k. result = round_end (env k) \<and> (\<forall>j < k. round_end (env j) = None)) \<and>
       sorted_wrt (<) (map (mu_GarbageCollections \<circ> ms_usage) logs) \<and>
       (\<forall>l \<in> set logs. mu_Heap (ms_usage l) \<le> ms_maxHeap l) \<and> sorted (map ms_maxHeap logs)"
proof (cases "\<exists>k. round_end (env k) \<noteq> None")
  case False
  then show ?thesis
    using monitor_loop_returns [of env 0 monitor_init]
    by (auto simp: MonitorMemoryUsage_def split: option.split)
next
  case True
  define k where "k = (LEAST k. round_end (env k) \<noteq> None)"
  have k: "round_end (env k) \<noteq> None" and before: "\<And>j. j < k \<Longrightarrow> round_end (env j) = None"
    using LeastI_ex [OF True] not_less_Least [of _ "\<lambda>k. round_end (env k) \<noteq> None"]
    unfolding k_def by blast+
  let ?st = "foldl (\<lambda>st j. monitor_sample (mr_usage (env j)) st) monitor_init [0..<0 + k]"
  have ok: "monitor_ok ?st" by (rule monitor_ok_samples) simp
  have "MonitorMemoryUsage env = monitor_loop env (0 + k) ?st"
    unfolding MonitorMemoryUsage_def by (rule monitor_loop_skip) (simp add: before)
  moreover obtain e where "round_end (env k) = Some e" using k by blast
  ultimately obtain st where "MonitorMemoryUsage env = Some (Some e, mn_logged st)" "monitor_ok st"
    using monitor_loop_ends [of env k e ?st] ok monitor_ok_sample by auto
  with before \<open>round_end (env k) = Some e\<close> show ?thesis
    by (auto simp: monitor_ok_def intro!: exI [of _ k])
qed

text \<open>The instance: two collections are logged, the second with a smaller heap; then the context ends.\<close>

definition sample_rounds :: "nat \<Rightarrow> monitor_round" where
  "sample_rounds n =
     \<lparr>mr_ctxErr = (if n < 3 then None else Some (Sentinel ContextCanceled)),
      mr_usage = \<lparr>mu_Heap = (if n = 0 then 7 else 5), mu_Stack = 1, mu_System = 9,
                  mu_GarbageCollections = (if n < 2 then 1 else 4)\<rparr>,
      mr_sleep = None\<rparr>"

lemma sample_rounds_run:
  "MonitorMemoryUsage sample_rounds = Some (Some (Sentinel ContextCanceled),
     mn_logged (foldl (\<lambda>st j. monitor_sample (mr_usage (sample_rounds j)) st) monitor_init [0, 1, 2]))"
proof -
  have "MonitorMemoryUsage sample_rounds = monitor_loop sample_rounds (0 + 3)
      (foldl (\<lambda>st j. monitor_sample (mr_usage (sample_rounds j)) st) monitor_init [0..<0 + 3])"
    unfolding MonitorMemoryUsage_def
    by (rule monitor_loop_skip) (simp add: sample_rounds_def round_end_def)
  also have "\<dots> = Some (Some (Sentinel ContextCanceled), mn_logged
      (foldl (\<lambda>st j. monitor_sample (mr_usage (sample_rounds j)) st) monitor_init [0..<0 + 3]))"
    by (subst monitor_loop_ends [where e = "Sentinel ContextCanceled"])
      (simp_all add: sample_rounds_def round_end_def)
  also have "[0..<0 + 3] = [0, 1, 2::nat]" by (simp add: upt_rec)
  finally show ?thesis .
qed

theorem monitor_ends_with_error_witness:
  "\<exists>logs. MonitorMemoryUsage sample_rounds = Some (Some (Sentinel ContextCanceled), logs) \<and>
     map (mu_GarbageCollections \<circ> ms_usage) logs = [1, 4] \<and> map ms_maxHeap logs = [7, 7] \<and>
     sorted (map ms_maxHeap logs)"
proof -
  let ?logs = "mn_logged (foldl (\<lambda>st j. monitor_sample (mr_usage (sample_rounds j)) st) monitor_init [0, 1, 2])"
  have "sorted (map ms_maxHeap ?logs)"
    using monitor_ends_with_error [of sample_rounds] unfolding sample_rounds_run by simp
  moreover have "map (mu_GarbageCollections \<circ> ms_usage) ?logs = [1, 4]" "map ms_maxHeap ?logs = [7, 7]"
    by (simp_all add: monitor_sample_def sample_rounds_def monitor_init_def Let_def)
  ultimately show ?thesis by (intro exI [of _ ?logs] conjI sample_rounds_run)
qed

end
