(* ===== verification/Server_Props.thy ===== *)
theory Server_Props
  imports Server_Run Services_Props Memory_Monitor Config_Props
begin

text \<open>
  What a run of the server starts, how it wires its parts in either mode, and with which
  status it ends.
\<close>

section \<open>A run, step by step\<close>

text \<open>What is started for a configuration, in this order.\<close>

definition run_tasks :: "bool \<Rightarrow> configuration \<Rightarrow> task list" where
  "run_tasks startNode cfg =
     [MonitorTask] @
     (if cfg_Mode cfg = Online
      then (if startNode then [NodeTask \<lparr>nc_Network = ni_Network (cfg_Network cfg),
                                         nc_ConfigFilePath = cfg_NodeConfigPath cfg\<rparr>] else []) @ [SyncTask]
      else []) @
     [ListenTask ('':'' @ show_int (cfg_RosettaPort cfg)), ShutdownServerTask]"

text \<open>Whether the server comes up, and what it then consists of.\<close>

definition online_ready :: "'db run_host \<Rightarrow> configuration \<Rightarrow> bool" where
  "online_ready H cfg \<longleftrightarrow>
     is_ok (rh_clientAsserter H cfg) \<and> is_ok (NewStorage (rh_badger H) (cfg_IndexerPath cfg))"

definition comes_up :: "'db run_host \<Rightarrow> configuration \<Rightarrow> bool" where
  "comes_up H cfg \<longleftrightarrow>
     is_ok (rh_zap H) \<and> LoadConfiguration (rh_host H) = Ok cfg \<and>
     (cfg_Mode cfg = Online \<longrightarrow> online_ready H cfg) \<and> is_ok (rh_serverAsserter H cfg)"

definition run_client :: "'db run_host \<Rightarrow> configuration \<Rightarrow> client option" where
  "run_client H cfg =
     (if cfg_Mode cfg = Online then Some (NewClient (rh_client H) (LocalNodeURL (cfg_NodePort cfg))) else None)"

definition run_storage :: "'db run_host \<Rightarrow> configuration \<Rightarrow> 'db storage_set option" where
  "run_storage H cfg =
     (if cfg_Mode cfg = Online
      then (case NewStorage (rh_badger H) (cfg_IndexerPath cfg) of Ok st \<Rightarrow> Some st | _ \<Rightarrow> None) else None)"

definition served :: "'db run_host \<Rightarrow> bool \<Rightarrow> configuration \<Rightarrow> bool \<Rightarrow> 'db app" where
  "served H startNode cfg shut =
     \<lparr>ap_tasks = run_tasks startNode cfg,
      ap_indexer = map_option (\<lambda>st. InitIndexer (ss_db st)) (run_storage H cfg),
      ap_router = Some (NewBlockchainRouter cfg (run_client H cfg) (run_storage H cfg)),
      ap_server = Some \<lparr>hs_Addr = '':'' @ show_int (cfg_RosettaPort cfg), hs_ReadTimeout = readTimeout,
                        hs_WriteTimeout = writeTimeout, hs_IdleTimeout = idleTimeout\<rparr>,
      ap_closed = shut\<rparr>"

text \<open>The result of a run that came up.\<close>

definition run_result :: "'db run_host \<Rightarrow> bool \<Rightarrow> configuration \<Rightarrow> unit go" where
  "run_result H startNode cfg =
     (if rh_signals H \<noteq> [] then Ok ()
      else case rh_Wait H (rh_result H) (run_tasks startNode cfg) of None \<Rightarrow> Ok () | Some e \<Rightarrow> Err e)"

lemma fatal_simps: "fatal m = Ok x \<longleftrightarrow> m = Ok x" "fatal m \<noteq> Err e"
  by (cases m; simp)+

lemma g_Go_run [simp]: "g_Go t a = (Ok (), a\<lparr>ap_tasks := ap_tasks a @ [t]\<rparr>)"
  by (simp add: g_Go_def)

lemma start_online_Ok:
  assumes "cfg_Mode cfg = Online \<longrightarrow> online_ready H cfg" and "ap_indexer a = None"
  shows "\<exists>deps. start_online H startNode cfg a =
      (Ok deps, a\<lparr>ap_tasks := ap_tasks a @ butlast (butlast (tl (run_tasks startNode cfg))),
                  ap_indexer := map_option (\<lambda>st. InitIndexer (ss_db st)) (run_storage H cfg)\<rparr>) \<and>
    map_option fst deps = run_client H cfg \<and> map_option (\<lambda>d. snd (snd d)) deps = run_storage H cfg \<and>
    (deps = None \<longleftrightarrow> cfg_Mode cfg \<noteq> Online)"
proof (cases "cfg_Mode cfg = Online")
  case True
  with assms(1) obtain u st where "rh_clientAsserter H cfg = Ok u"
    and "NewStorage (rh_badger H) (cfg_IndexerPath cfg) = Ok st"
    by (auto simp: online_ready_def is_ok_iff)
  with True show ?thesis
    by (cases startNode) (simp_all add: start_online_def startOnlineDependencies_def Let_def run_tasks_def
        run_storage_def run_client_def)
next
  case False
  with assms(2) show ?thesis
    by (simp add: start_online_def run_tasks_def run_storage_def run_client_def)
qed

lemma start_online_fails:
  assumes "cfg_Mode cfg = Online" and "\<not> online_ready H cfg"
  shows "\<exists>p a'. start_online H startNode cfg a = (Panic p, a')"
proof -
  have "\<exists>r a'. startOnlineDependencies H cfg a = (r, a') \<and> \<not> is_ok r" for a
  proof (cases "rh_clientAsserter H cfg")
    case (Ok u)
    with assms(2) show ?thesis
      by (cases "NewStorage (rh_badger H) (cfg_IndexerPath cfg)")
        (simp_all add: startOnlineDependencies_def Let_def online_ready_def)
  qed (simp_all add: startOnlineDependencies_def Let_def)
  then obtain r a' where "startOnlineDependencies H cfg
      (if startNode then snd (g_Go (NodeTask \<lparr>nc_Network = ni_Network (cfg_Network cfg),
                                       nc_ConfigFilePath = cfg_NodeConfigPath cfg\<rparr>) a) else a) = (r, a')"
    and "\<not> is_ok r" by blast
  with assms(1) show ?thesis
    by (cases r; cases startNode) (auto simp: start_online_def)
qed

text \<open>What follows the start of the online part, for a server that comes up.\<close>

definition flushed :: "'db run_host \<Rightarrow> unit go \<Rightarrow> unit go" where
  "flushed H r =
     (if r = Panic ProcessExit then r
      else case fatal (rh_Sync H) of Ok _ \<Rightarrow> r | Err e \<Rightarrow> Err e | Panic p \<Rightarrow> Panic p)"

lemma deferred_sync_flushed: "body a = (r, a') \<Longrightarrow> deferred_sync H body a = (flushed H r, a')"
  by (simp add: deferred_sync_def flushed_def)

lemma flushed_Ok: "flushed H r = Ok () \<longleftrightarrow> r = Ok () \<and> is_ok (rh_Sync H)"
  by (cases "rh_Sync H") (auto simp: flushed_def)

lemma flushed_Panic: "\<exists>q. flushed H (Panic p) = Panic q"
  by (cases "rh_Sync H") (auto simp: flushed_def)

lemma Storage_Shutdown_cases:
  "Storage_Shutdown B = Ok () \<longleftrightarrow> is_ok (bd_Close B)" "Storage_Shutdown B \<noteq> Err e"
  by (cases "bd_Close B"; simp add: Storage_Shutdown_def)+

lemma run_up:
  assumes "comes_up H cfg"
  shows "runCmdHandler H startNode app_init =
    (case (if cfg_Mode cfg = Online then Storage_Shutdown (rh_badger H) else Ok ()) of
       Panic p \<Rightarrow> (flushed H (Panic p), served H startNode cfg False)
     | _ \<Rightarrow> (flushed H (run_result H startNode cfg), served H startNode cfg (cfg_Mode cfg = Online)))"
proof -
  from assms obtain u v where up: "rh_zap H = Ok u" "LoadConfiguration (rh_host H) = Ok cfg"
      "rh_serverAsserter H cfg = Ok v" "cfg_Mode cfg = Online \<longrightarrow> online_ready H cfg"
    by (auto simp: comes_up_def is_ok_iff)
  let ?a1 = "app_init\<lparr>ap_tasks := [MonitorTask]\<rparr>"
  obtain deps where d: "start_online H startNode cfg ?a1 =
      (Ok deps, ?a1\<lparr>ap_tasks := ap_tasks ?a1 @ butlast (butlast (tl (run_tasks startNode cfg))),
                  ap_indexer := map_option (\<lambda>st. InitIndexer (ss_db st)) (run_storage H cfg)\<rparr>)"
    and dd: "map_option fst deps = run_client H cfg"
      "map_option (\<lambda>d. snd (snd d)) deps = run_storage H cfg" "deps = None \<longleftrightarrow> cfg_Mode cfg \<noteq> Online"
    using start_online_Ok [OF up(4), of ?a1 startNode] by (auto simp: app_init_def)
  let ?a2 = "served H startNode cfg False"
  have tasks: "[MonitorTask] @ butlast (butlast (tl (run_tasks startNode cfg))) @
      [ListenTask ('':'' @ show_int (cfg_RosettaPort cfg)), ShutdownServerTask] = run_tasks startNode cfg"
    by (simp add: run_tasks_def butlast_append)
  let ?body = "sbind (g_Go MonitorTask) (\<lambda>_.
        sbind (sgo (fatal (LoadConfiguration (rh_host H)))) (\<lambda>cfg.
        sbind (start_online H startNode cfg) (\<lambda>deps.
        sbind (sgo (fatal (rh_serverAsserter H cfg))) (\<lambda>_.
        sbind (serve_http cfg deps) (\<lambda>_.
        finish_run H deps)))))"
  have body: "?body app_init = finish_run H deps ?a2"
    using up d dd tasks by (simp add: app_init_def serve_http_def Let_def served_def)
  have tk: "ap_tasks ?a2 = run_tasks startNode cfg" by (simp add: served_def)
  have fin: "finish_run H deps ?a2 =
      (case (if cfg_Mode cfg = Online then Storage_Shutdown (rh_badger H) else Ok ()) of
         Panic p \<Rightarrow> (Panic p, served H startNode cfg False)
       | _ \<Rightarrow> (run_result H startNode cfg, served H startNode cfg (cfg_Mode cfg = Online)))"
    using dd(3) Storage_Shutdown_cases(2) [of "rh_badger H"]
    by (auto simp: finish_run_def tk run_result_def handleSignals_def served_def Let_def
        split: go.split list.split option.split)
  show ?thesis
  proof (cases "if cfg_Mode cfg = Online then Storage_Shutdown (rh_badger H) else Ok ()")
    case (Panic p)
    with fin body have "?body app_init = (Panic p, served H startNode cfg False)" by simp
    from deferred_sync_flushed [of ?body, OF this, of H] Panic up(1) show ?thesis
      by (simp add: runCmdHandler_def)
  next
    case (Ok w)
    with fin body have "?body app_init =
      (run_result H startNode cfg, served H startNode cfg (cfg_Mode cfg = Online))" by simp
    from deferred_sync_flushed [of ?body, OF this, of H] Ok up(1) show ?thesis
      by (simp add: runCmdHandler_def)
  qed (use Storage_Shutdown_cases(2) in \<open>auto split: if_splits\<close>)
qed

lemma run_down:
  assumes "\<And>cfg. \<not> comes_up H cfg"
  shows "\<exists>p. fst (runCmdHandler H startNode app_init) = Panic p"
proof (cases "rh_zap H")
  case (Ok u)
  let ?body = "sbind (g_Go MonitorTask) (\<lambda>_.
        sbind (sgo (fatal (LoadConfiguration (rh_host H)))) (\<lambda>cfg.
        sbind (start_online H startNode cfg) (\<lambda>deps.
        sbind (sgo (fatal (rh_serverAsserter H cfg))) (\<lambda>_.
        sbind (serve_http cfg deps) (\<lambda>_.
        finish_run H deps)))))"
  let ?a1 = "app_init\<lparr>ap_tasks := [MonitorTask]\<rparr>"
  have "\<exists>p a'. ?body app_init = (Panic p, a')"
  proof (cases "LoadConfiguration (rh_host H)")
    case (Ok cfg)
    note cfg = this
    show ?thesis
    proof (cases "cfg_Mode cfg = Online \<longrightarrow> online_ready H cfg")
      case True
      then have "\<not> is_ok (rh_serverAsserter H cfg)"
        using assms [of cfg] \<open>rh_zap H = Ok u\<close> cfg by (simp add: comes_up_def)
      then obtain p where "fatal (rh_serverAsserter H cfg) = Panic p"
        by (cases "rh_serverAsserter H cfg") simp_all
      moreover obtain deps a2 where "start_online H startNode cfg ?a1 = (Ok deps, a2)"
        using start_online_Ok [OF True, of ?a1 startNode] by (auto simp: app_init_def)
      ultimately show ?thesis using cfg by (simp add: app_init_def)
    next
      case False
      with start_online_fails [of cfg H startNode ?a1] cfg show ?thesis by (auto simp: app_init_def)
    qed
  qed simp_all
  then obtain p a' where "?body app_init = (Panic p, a')" by blast
  from deferred_sync_flushed [of ?body, OF this, of H] flushed_Panic [of H p] Ok show ?thesis
    by (auto simp: runCmdHandler_def)
qed (simp_all add: runCmdHandler_def)

section \<open>The exit status\<close>

text \<open>
  The documented contract of \<open>errgroup.Group.Wait\<close>: it returns after all goroutines have,
  with the first error one of them returned, and nil only if all returned nil.
\<close>

definition errgroup_ok :: "((task \<Rightarrow> go_error option) \<Rightarrow> task list \<Rightarrow> go_error option) \<Rightarrow> bool" where
  "errgroup_ok W \<longleftrightarrow>
     (\<forall>res ts. (W res ts = None \<longleftrightarrow> (\<forall>t \<in> set ts. res t = None)) \<and>
               (\<forall>e. W res ts = Some e \<longrightarrow> (\<exists>t \<in> set ts. res t = Some e)))"

lemma main_exit_0: "main_exit r = 0 \<longleftrightarrow> r = Ok ()"
  by (simp add: main_exit_def split: go.split)

text \<open>The monitor never ends with nil, so the group never does.\<close>

lemma monitor_result:
  assumes run: "MonitorMemoryUsage env = Some (result, logs)"
  shows "result \<noteq> None"
proof -
  obtain k e where e: "round_end (env k) = Some e" and before: "\<And>j. j < k \<Longrightarrow> round_end (env j) = None"
    using monitor_loop_first [OF run] by blast
  have "MonitorMemoryUsage env = monitor_loop env (0 + k)
      (foldl (\<lambda>st j. monitor_sample (mr_usage (env j)) st) monitor_init [0..<0 + k])"
    unfolding MonitorMemoryUsage_def by (rule monitor_loop_skip) (simp add: before)
  with run show ?thesis by (auto simp: monitor_loop_ends [of env k e, OF e])
qed

lemma group_fails:
  assumes "errgroup_ok (rh_Wait H)" and "rh_result H MonitorTask \<noteq> None"
  shows "rh_Wait H (rh_result H) (run_tasks startNode cfg) \<noteq> None"
proof -
  have "MonitorTask \<in> set (run_tasks startNode cfg)" by (simp add: run_tasks_def)
  with assms show ?thesis unfolding errgroup_ok_def by metis
qed


text \<open>A host on which everything works, in a given mode and with given signals.\<close>

definition sample_host :: "string \<Rightarrow> host" where
  "sample_host md =
     \<lparr>ho_env = (\<lambda>v. if v = ''ERGO_ROSETTA_MODE'' then md
                   else if v = ''ERGO_NETWORK'' then ''mainnet''
                   else if v = ''ROSETTA_NODE_PORT'' then ''9053''
                   else if v = ''ERGO_ROSETTA_PORT'' then ''8080'' else ''/data''),
      ho_MkdirAll = (\<lambda>p. Ok ()), ho_genesisUtxos = (\<lambda>n. Ok []), ho_bootstrapBalances = (\<lambda>n. Ok []),
      ho_AtoiError = (\<lambda>s. New s)\<rparr>"

definition sample_badger :: "nat badger" where
  "sample_badger =
     \<lparr>bd_DefaultOptions = (\<lambda>d. \<lparr>bo_Dir = d, bo_Compression = SomeCompression, bo_Truncate = False\<rparr>),
      bd_Open = (\<lambda>p opts. if bo_Truncate opts then Ok 7 else Err (New ''log truncated'')),
      bd_Close = Ok ()\<rparr>"

definition first_error :: "(task \<Rightarrow> go_error option) \<Rightarrow> task list \<Rightarrow> go_error option" where
  "first_error res ts = (case List.map_filter res ts of [] \<Rightarrow> None | e # _ \<Rightarrow> Some e)"

definition sample_run_host :: "string \<Rightarrow> string list \<Rightarrow> nat run_host" where
  "sample_run_host md signals =
     \<lparr>rh_zap = Ok (), rh_Sync = Ok (), rh_host = sample_host md, rh_clientAsserter = (\<lambda>cfg. Ok ()),
      rh_serverAsserter = (\<lambda>cfg. Ok ()), rh_badger = sample_badger, rh_client = (\<lambda>t. sample_client),
      rh_result = (\<lambda>t. Some (Sentinel ContextCanceled)), rh_Wait = first_error, rh_signals = signals\<rparr>"

lemma first_error_ok: "errgroup_ok first_error"
proof -
  have "(first_error res ts = None \<longleftrightarrow> (\<forall>t \<in> set ts. res t = None)) \<and>
      (\<forall>e. first_error res ts = Some e \<longrightarrow> (\<exists>t \<in> set ts. res t = Some e))" for res ts
  proof (induction ts)
    case (Cons t ts)
    then show ?case
      by (cases "res t") (auto simp: first_error_def List.map_filter_simps)
  qed (simp add: first_error_def List.map_filter_simps)
  then show ?thesis unfolding errgroup_ok_def by blast
qed

lemma sample_host_loads:
  "is_ok (LoadConfiguration (sample_host ''ONLINE''))" "is_ok (LoadConfiguration (sample_host ''OFFLINE''))"
  by code_simp+

lemma sample_comes_up:
  "LoadConfiguration (sample_host md) = Ok cfg \<Longrightarrow> comes_up (sample_run_host md sigs) cfg"
  by (simp add: comes_up_def online_ready_def NewStorage_def sample_run_host_def sample_badger_def
      defaultBadgerOptions_def)

lemma sample_monitor_runs:
  "\<exists>logs. MonitorMemoryUsage sample_rounds = Some (rh_result (sample_run_host md sigs) MonitorTask, logs)"
  by (simp add: sample_rounds_run sample_run_host_def)


section \<open>The wiring\<close>

text \<open>
  A server that came up online serves all four services with one client, addressed at the
  configured local port, and one storage, whose database the indexer works on, and it syncs.
  Offline it has no client, no storage and no indexer and does not sync, so its network
  options endpoint crashes while its network status answers that it is offline. Either
  way it listens on the configured port; the database is closed afterwards exactly when one
  was opened and closing succeeds.
\<close>

theorem server_wiring:
  assumes "comes_up H cfg"
  shows "case snd (runCmdHandler H startNode app_init) of a \<Rightarrow>
    \<exists>r. ap_router a = Some r \<and>
      nas_config (br_network r) = cfg \<and> bas_config (br_block r) = cfg \<and>
      aas_config (br_account r) = cfg \<and> mas_config (br_mempool r) = cfg \<and>
      ListenTask ('':'' @ show_int (cfg_RosettaPort cfg)) \<in> set (ap_tasks a) \<and>
      (case cfg_Mode cfg of
         Online \<Rightarrow>
           (\<exists>c st. nas_client (br_network r) = Some c \<and> mas_client (br_mempool r) = Some c \<and>
              cl_baseURL c = ''http://127.0.0.1:'' @ show_int (cfg_NodePort cfg) \<and>
              nas_storage (br_network r) = Some st \<and> bas_storage (br_block r) = Some st \<and>
              aas_storage (br_account r) = Some st \<and> mas_storage (br_mempool r) = Some st \<and>
              ap_indexer a = Some (InitIndexer (ss_db st)) \<and> SyncTask \<in> set (ap_tasks a) \<and>
              (ap_closed a \<longleftrightarrow> is_ok (bd_Close (rh_badger H))))
       | Offline \<Rightarrow>
           nas_storage (br_network r) = None \<and> ap_indexer a = None \<and> SyncTask \<notin> set (ap_tasks a) \<and>
           \<not> ap_closed a \<and>
           NetworkAPI_NetworkOptions S cfg (nas_client (br_network r)) = Crash NilDereference \<and>
           NetworkAPI_NetworkStatus S cfg (nas_client (br_network r)) A db =
             Fail (WrapErr S ErrUnavailableOffline None))"
proof -
  obtain shut where a: "snd (runCmdHandler H startNode app_init) = served H startNode cfg shut"
    and shut: "shut \<longleftrightarrow> cfg_Mode cfg = Online \<and> is_ok (bd_Close (rh_badger H))"
    using run_up [OF assms, of startNode] Storage_Shutdown_cases [of "rh_badger H"]
    by (auto split: go.splits if_splits)
  show ?thesis
  proof (cases "cfg_Mode cfg")
    case Online
    with assms obtain st where "NewStorage (rh_badger H) (cfg_IndexerPath cfg) = Ok st"
      by (auto simp: comes_up_def online_ready_def is_ok_iff)
    then show ?thesis
      by (simp add: a shut Online served_def NewBlockchainRouter_def NewNetworkAPIService_def
          NewBlockAPIService_def NewAccountAPIService_def NewMempoolAPIService_def run_client_def
          run_storage_def run_tasks_def NewClient_def LocalNodeURL_def)
  next
    case Offline
    then show ?thesis
      by (simp add: a shut served_def NewBlockchainRouter_def NewNetworkAPIService_def
          NewBlockAPIService_def NewAccountAPIService_def NewMempoolAPIService_def run_client_def
          run_storage_def run_tasks_def NetworkAPI_NetworkOptions_def NetworkAPI_NetworkStatus_def
          online_only_def)
  qed
qed

theorem server_wiring_witness:
  "\<exists>r. ap_router (snd (runCmdHandler (sample_run_host ''OFFLINE'' []) True app_init)) = Some r \<and>
     cfg_Mode (nas_config (br_network r)) = Offline \<and>
     NetworkAPI_NetworkOptions sdk_ref (nas_config (br_network r)) (nas_client (br_network r)) =
       Crash NilDereference"
proof -
  obtain cfg where cfg: "LoadConfiguration (sample_host ''OFFLINE'') = Ok cfg"
    using sample_host_loads(2) by (auto simp: is_ok_iff)
  have "(case LoadConfiguration (sample_host ''OFFLINE'') of
      Ok c \<Rightarrow> (case cfg_Mode c of Offline \<Rightarrow> True | Online \<Rightarrow> False) | _ \<Rightarrow> False)" by code_simp
  with cfg have "cfg_Mode cfg = Offline" by (simp split: mode.splits)
  with server_wiring [OF sample_comes_up [OF cfg], of "[]" True sdk_ref service_storage] show ?thesis
    by auto
qed

end
