(* ===== verification/Command_Line.thy ===== *)
theory Command_Line
  imports Server_Props
begin

text \<open>
  cmd/root.go, cmd/run.go, cmd/version.go: the commands and flags of the program, and what the
  process does for its arguments. Parsing arguments is the cobra package's; it is a parameter
  with the part of its documented behaviour that is used, \<open>cobra_ok\<close>.
\<close>

section \<open>The commands\<close>

record bool_flag =
  fg_Name :: string
  fg_Default :: bool
  fg_Usage :: string

datatype command_action = ShowHelp | RunServer | PrintVersion

record command =
  cm_Use :: string
  cm_Short :: string
  cm_Flags :: "bool_flag list"
  cm_Action :: command_action

definition rootCmd :: command where
  "rootCmd = \<lparr>cm_Use = ''rosetta-ergo'', cm_Short = ''Ergo implementation of the Rosetta API'',
     cm_Flags = [], cm_Action = ShowHelp\<rparr>"

definition initRunCmd :: command where
  "initRunCmd = \<lparr>cm_Use = ''run'', cm_Short = ''Run rosetta-ergo'',
     cm_Flags = [\<lparr>fg_Name = ''start-node'', fg_Default = False, fg_Usage = ''Launch a Ergo node''\<rparr>],
     cm_Action = RunServer\<rparr>"

definition versionCmd :: command where
  "versionCmd = \<lparr>cm_Use = ''version'', cm_Short = ''Output rosetta-ergo version'', cm_Flags = [],
     cm_Action = PrintVersion\<rparr>"

text \<open>The \<open>init\<close> function registers the two under the root.\<close>

definition subcommands :: "command list" where
  "subcommands = [initRunCmd, versionCmd]"

section \<open>Executing\<close>

text \<open>Cobra selects a command and the values of its flags, or fails.\<close>

type_synonym cobra = "command \<Rightarrow> command list \<Rightarrow> string list \<Rightarrow> (command \<times> (string \<Rightarrow> bool)) go"

primrec run_action :: "'db run_host \<Rightarrow> (string \<Rightarrow> bool) \<Rightarrow> command_action \<Rightarrow> ('db app, string) stm" where
  "run_action H flags ShowHelp = sret []"
| "run_action H flags RunServer = sbind (runCmdHandler H (flags ''start-node'')) (\<lambda>_. sret [])"
| "run_action H flags PrintVersion = sret version_text"

text \<open>The result is what the command itself prints.\<close>

definition Execute :: "cobra \<Rightarrow> 'db run_host \<Rightarrow> string list \<Rightarrow> ('db app, string) stm" where
  "Execute parse H args =
     sbind (sgo (parse rootCmd subcommands args)) (\<lambda>(c, flags). run_action H flags (cm_Action c))"

definition main_process :: "cobra \<Rightarrow> 'db run_host \<Rightarrow> string list \<Rightarrow> int \<times> 'db app" where
  "main_process parse H args =
     (case Execute parse H args app_init of (r, a) \<Rightarrow> (main_exit (gbind r (\<lambda>_. Ok ())), a))"

section \<open>What the arguments do\<close>

definition flag_defaults :: "command \<Rightarrow> string \<Rightarrow> bool" where
  "flag_defaults c = (\<lambda>n. \<exists>f \<in> set (cm_Flags c). fg_Name f = n \<and> fg_Default f)"

text \<open>
  Without arguments the root is selected, a first argument selects the command it names, an
  unknown one is an error, and a flag given by name is set.
\<close>

definition cobra_ok :: "cobra \<Rightarrow> bool" where
  "cobra_ok parse \<longleftrightarrow>
     (\<forall>root cs. distinct (map cm_Use cs) \<longrightarrow>
        parse root cs [] = Ok (root, flag_defaults root) \<and>
        (\<forall>c \<in> set cs. parse root cs [cm_Use c] = Ok (c, flag_defaults c) \<and>
           (\<forall>f \<in> set (cm_Flags c). parse root cs [cm_Use c, ''--'' @ fg_Name f] =
              Ok (c, (flag_defaults c)(fg_Name f := True)))) \<and>
        (\<forall>a. hd (a @ ''-'') \<noteq> CHR ''-'' \<longrightarrow> a \<notin> set (map cm_Use cs) \<longrightarrow> (\<exists>e. parse root cs [a] = Err e)))"

lemma commands_parsed:
  assumes "cobra_ok parse"
  shows "parse rootCmd subcommands [''run''] = Ok (initRunCmd, \<lambda>_. False)"
    and "parse rootCmd subcommands [''run'', ''--start-node''] = Ok (initRunCmd, (\<lambda>_. False)(''start-node'' := True))"
    and "parse rootCmd subcommands [''version''] = Ok (versionCmd, \<lambda>_. False)"
    and "a \<noteq> ''run'' \<Longrightarrow> a \<noteq> ''version'' \<Longrightarrow> hd (a @ ''-'') \<noteq> CHR ''-'' \<Longrightarrow>
      \<exists>e. parse rootCmd subcommands [a] = Err e"
proof -
  have "distinct (map cm_Use subcommands)"
    by (simp add: subcommands_def initRunCmd_def versionCmd_def)
  with assms have p: "c \<in> set subcommands \<Longrightarrow> parse rootCmd subcommands [cm_Use c] = Ok (c, flag_defaults c)"
    "c \<in> set subcommands \<Longrightarrow> f \<in> set (cm_Flags c) \<Longrightarrow> parse rootCmd subcommands [cm_Use c, ''--'' @ fg_Name f] =
       Ok (c, (flag_defaults c)(fg_Name f := True))"
    "hd (a @ ''-'') \<noteq> CHR ''-'' \<Longrightarrow> a \<notin> set (map cm_Use subcommands) \<Longrightarrow> \<exists>e. parse rootCmd subcommands [a] = Err e"
    for c f a by (simp_all add: cobra_ok_def)
  have none: "flag_defaults initRunCmd = (\<lambda>_. False)" "flag_defaults versionCmd = (\<lambda>_. False)"
    by (simp_all add: flag_defaults_def initRunCmd_def versionCmd_def fun_eq_iff)
  show "parse rootCmd subcommands [''run''] = Ok (initRunCmd, \<lambda>_. False)"
    using p(1) [of initRunCmd] by (simp add: none) (simp add: subcommands_def initRunCmd_def)
  show "parse rootCmd subcommands [''run'', ''--start-node''] = Ok (initRunCmd, (\<lambda>_. False)(''start-node'' := True))"
    using p(2) [of initRunCmd "hd (cm_Flags initRunCmd)"]
    by (simp add: none) (simp add: subcommands_def initRunCmd_def)
  show "parse rootCmd subcommands [''version''] = Ok (versionCmd, \<lambda>_. False)"
    using p(1) [of versionCmd] by (simp add: none) (simp add: subcommands_def versionCmd_def)
  show "a \<noteq> ''run'' \<Longrightarrow> a \<noteq> ''version'' \<Longrightarrow> hd (a @ ''-'') \<noteq> CHR ''-'' \<Longrightarrow>
      \<exists>e. parse rootCmd subcommands [a] = Err e"
    using p(3) [of a] by (simp add: subcommands_def initRunCmd_def versionCmd_def)
qed

text \<open>
  \<open>version\<close> starts nothing, prints one line and ends with 0; an unknown command starts nothing
  and ends with 1; \<open>run\<close> is the server, which starts a node exactly when the flag is given and
  it comes up online.
\<close>

lemma main_commands:
  assumes "cobra_ok parse"
  shows "Execute parse H [''version''] app_init = (Ok (''rosetta-ergo v'' @ Version @ [CHR 10]), app_init)"
    and "main_process parse H [''version''] = (0, app_init)"
    and "a \<noteq> ''run'' \<Longrightarrow> a \<noteq> ''version'' \<Longrightarrow> hd (a @ ''-'') \<noteq> CHR ''-'' \<Longrightarrow>
      main_process parse H [a] = (1, app_init)"
    and "main_process parse H [''run''] =
      (main_exit (fst (runCmdHandler H False app_init)), snd (runCmdHandler H False app_init))"
    and "main_process parse H [''run'', ''--start-node''] =
      (main_exit (fst (runCmdHandler H True app_init)), snd (runCmdHandler H True app_init))"
proof -
  note p = commands_parsed [OF assms]
  show "Execute parse H [''version''] app_init = (Ok (''rosetta-ergo v'' @ Version @ [CHR 10]), app_init)"
    by (simp add: Execute_def p versionCmd_def version_text_def)
  then show "main_process parse H [''version''] = (0, app_init)"
    by (simp add: main_process_def main_exit_def)
  show "main_process parse H [a] = (1, app_init)"
    if "a \<noteq> ''run''" "a \<noteq> ''version''" "hd (a @ ''-'') \<noteq> CHR ''-''"
    using p(4) [OF that] by (auto simp: main_process_def Execute_def main_exit_def)
  have run: "(case run_action H flags RunServer app_init of (r, a) \<Rightarrow> (main_exit (gbind r (\<lambda>_. Ok ())), a)) =
      (main_exit (fst (runCmdHandler H (flags ''start-node'') app_init)),
       snd (runCmdHandler H (flags ''start-node'') app_init))" for flags
    by (cases "runCmdHandler H (flags ''start-node'') app_init" rule: go_cases_pair)
      (simp_all add: main_exit_def)
  show "main_process parse H [''run''] =
      (main_exit (fst (runCmdHandler H False app_init)), snd (runCmdHandler H False app_init))"
    using run [of "\<lambda>_. False"] by (simp add: main_process_def Execute_def p initRunCmd_def del: run_action.simps)
  show "main_process parse H [''run'', ''--start-node''] =
      (main_exit (fst (runCmdHandler H True app_init)), snd (runCmdHandler H True app_init))"
    using run [of "(\<lambda>_. False)(''start-node'' := True)"]
    by (simp add: main_process_def Execute_def p initRunCmd_def del: run_action.simps)
qed

end
