(* ===== verification/Spec2Isabelle.thy ===== *)
theory Spec2Isabelle
  imports Converter_Props Indexer_Props Indexer_Handlers Indexer_Block Indexer_Unseen Indexer_Leak
    Indexer_Progress Indexer_Ledger Indexer_Fetch Indexer_Room Indexer_Resume Block_Types
    Chain_Reorg Ergo_Api_Types Client_Props Services_Props Config_Props Http_Logger Server_Props
    Command_Line
begin

text \<open>
  A verification library of rosetta-ergo (Go), a Rosetta API server for the Ergo
  blockchain. The program has three parts. The indexer (src/pkg/indexer) is called by the
  SDK's syncer: it fetches blocks from an Ergo node (src/pkg/ergo/client.go), finds the
  coins their transactions spend, converts them (src/pkg/rosetta/converter.go) and stores
  them in the SDK's storage modules. The services (src/pkg/services) answer HTTP requests
  from the node and the storage. The configuration (src/pkg/config) is read at start-up, and
  src/cmd/run.go puts the parts together and decides how the process ends.
  Blocks are fetched concurrently, ahead of being stored, so the search for coins waits for
  other goroutines through a wait table (src/pkg/indexer/wait_table.go).

  Theories, in import order, and the code they model:

  \<^item> \<open>Go_Prelude\<close>, \<open>Go_Decimal\<close>: Go and its standard library as far as the code uses them:
    machine integers as words, error values with wrapping and \<open>errors.Is\<close>, results
    (\<open>Ok\<close>, \<open>Err\<close>, \<open>Panic\<close>) of calls, loops that stop at the first error, methods that change
    a state (\<open>stm\<close>), and decimal conversions with their round trips.
  \<^item> \<open>Ergo_Types\<close> (src/pkg/ergo/types), \<open>Rosetta_Types\<close> (the SDK's types, and the constants,
    which pkg/ergo/types.go and pkg/rosetta/types.go define twice, \<open>ergo_\<close> and \<open>rosetta_\<close>, with
    the same values, \<open>packages_agree\<close>): one record per struct. The SDK's functions
    are a record \<open>sdk\<close> of functions; what is relied on is named \<open>negates\<close>,
    \<open>contains_spec\<close> and, for the search, \<open>hash_tells\<close>, and \<open>sdk_ref\<close> is an instance. \<open>Ergo_Api_Types\<close>: the generated node
    messages that no call decodes yet, as records with no operation and no lemma.
  \<^item> \<open>Errutil\<close>: the error table and \<open>WrapErr\<close>.
  \<^item> \<open>Ergo_Client\<close>: requests and responses; the network and the JSON codec are fields of the
    client record. One client value stands for the node's answers during one call.
    \<open>Client_Props\<close>: which answers each call accepts.
  \<^item> \<open>Ergo_Utils\<close>: \<open>GetInputsForTxs\<close>, with a reference definition \<open>needed_inputs\<close>.
  \<^item> \<open>Converter\<close>, \<open>Converter_Facts\<close>, \<open>Converter_Block\<close>, \<open>Converter_Props\<close>: the converter; its
    loops as position-wise maps; whole blocks; the properties.
  \<^item> \<open>Block_Types\<close>: the types of the operations of a converted block, and that the check
    before storing changes nothing in it.
  \<^item> \<open>Chain_Ledger\<close>, \<open>Chain_Sync\<close>: a reference semantics of the chain, a ledger of unspent
    boxes that the node's transactions update (\<open>apply_tx\<close>, \<open>apply_blocks\<close>), and the components
    together against it: fetch, search, conversion, the two handlers and the storage, block
    after block. \<open>Chain_Reorg\<close>: the same with reorganisations, where an orphaned head is
    removed (the SDK's syncer, as far as it calls the indexer, is \<open>sync_next\<close>), as a refinement
    of a stack of ledgers (\<open>follow\<close>). What is relied on of the storage, \<open>coin_storage\<close> and
    \<open>branch_storage\<close>, has instances.
  \<^item> \<open>Keyed_Table\<close>: the interface (a locale) of the two mutable tables, interpreted by
    \<open>Wait_Table\<close> on the wait table and by \<open>Indexer\<close> on the coin cache.
  \<^item> \<open>Storage\<close>: the SDK's storage modules as a record of operations over an abstract database,
    and the repository's callbacks for them. \<open>Storage_Setup\<close>: opening and wiring them
    (src/pkg/storage/storage.go).
  \<^item> \<open>Configuration\<close>, \<open>Config_Load\<close>, \<open>Genesis_Data\<close>, \<open>Config_Props\<close>: the configuration record,
    \<open>LoadConfiguration\<close>, the embedded JSON data as values, and their properties.
  \<^item> \<open>Indexer\<close>, \<open>Indexer_Sync\<close>: the indexer's state and the handlers, each as a sequence of
    atomic sections; fetching, bootstrapping, start-up, network status.
  \<^item> \<open>Indexer_Find\<close>: \<open>findCoins\<close> and \<open>findCoin\<close> as a thread with a program counter, one atomic
    section per step. \<open>Indexer_Machine\<close>: any number of these threads and of handlers,
    interleaved by a step relation; reachable states; executable schedules; and the
    interface \<open>run_invariant\<close> (a locale) of the inductions over schedules.
  \<^item> \<open>Indexer_Channels\<close> (the invariant of channels and flags, what waking, aborting, joining
    and leaving do), \<open>Indexer_Waits\<close> (listeners cover waiting fetchers), \<open>Indexer_Exact\<close>
    (and count them exactly while no search fails), \<open>Indexer_Coins\<close> (no requested coin is
    lost), \<open>Indexer_Leave\<close> (the end of a wait), \<open>Indexer_Wakeups\<close> (no wake-up is lost
    between the lookup and the wait), \<open>Indexer_Unseen\<close> (waits that no seen block
    can satisfy, which are all the waits of a block on its own transactions),
    \<open>Indexer_Ontime\<close> and \<open>Indexer_Progress\<close> (no search sleeps past the block before its
    own, and left alone it ends within a cost computed from where it stands),
    \<open>Indexer_Leak\<close> (what a cancelled search leaves in the table for ever),
    \<open>Indexer_Ledger\<close> (what a search returns does not depend on the interleaving),
    \<open>Indexer_Room\<close> (an abstract specification of the wait table, a room of waiting
    searches, and the refinement of it by the interface \<open>simulation\<close>, a locale of the
    theory \<open>Simulation\<close>). What these rely on of the storage over time, \<open>keeps_ledger\<close>,
    \<open>chain_storage\<close> and \<open>in_time\<close>, is stated where it is used, each with an instance.
  \<^item> \<open>Samples\<close>, \<open>Indexer_Samples\<close>: concrete data for the closed instances.
  \<^item> \<open>Indexer_Props\<close>, \<open>Indexer_Handlers\<close>, \<open>Indexer_Block\<close>: the indexer's properties.
    \<open>Indexer_Fetch\<close>: \<open>Block\<close> from the request to the converted block. \<open>Indexer_Resume\<close>:
    where \<open>Sync\<close> goes on after a restart.
  \<^item> \<open>Services\<close>, \<open>Services_Props\<close>: the endpoints and their properties.
  \<^item> \<open>Http_Logger\<close> (src/pkg/logger), \<open>Memory_Monitor\<close> (src/pkg/util), \<open>Node_Process\<close>
    (src/pkg/ergo/node.go): the logging middleware over a model of net/http's response
    writer, the sampling loop, and the start of the node as a child process.
  \<^item> \<open>Server_Run\<close>, \<open>Server_Props\<close> (src/cmd, src/main.go, src/pkg/server): what a run starts
    and how its parts are wired, as a state of started goroutines; the exit status.
    \<open>Command_Line\<close>: the commands, their flags, and what the process does for its arguments.

  What the lemmas show. Conversion: exactly when a block converts, the layout and the
  balance of its operations, and that the inputs \<open>GetInputsForTxs\<close> asks for are enough.
  Search: over all interleavings the wait table's lock is never leaked, a fetcher's entry is
  always there, no channel is closed twice, the handlers wake and abort exactly the waits
  they should, a woken fetcher gets away alone, no wake-up falls between
  looking a coin up and waiting for it, and a search that returns has every coin
  it was asked for, so the block converts, and has the coins of the chain's ledger in every
  run; a search that need not wait ends in a bounded number of steps, so that \<open>Block\<close>
  returns the converted block; once the handlers have returned, the search for the block
  after the head ends, whatever it waited for. The table refines the room step by step.
  The whole chain: linked valid blocks, indexed one after the other, raise no error and
  leave in the storage exactly the unspent boxes of the reference semantics; orphaned blocks
  on the way leave nothing behind.
  Handlers: effects and error paths, independence of the map order, the cache's round trip,
  bounded retries, all-or-nothing bootstrapping, resuming after a restart.
  Services: offline behaviour, which error each failure is, inlining, balances, and exactly
  which mempool transactions can be answered. Configuration: exactly which environments load.
  Process: the wiring in both modes, and that only a signal makes the exit status 0.

  Modelling choices. A pointer is an option where the code tests it, reads it untested or
  stores one it was given; identifiers that every constructor fills are values. Values that
  are mutated through a pointer are returned updated; a block that
  \<open>ensureNegativeValueInputs\<close> changed partly before an error is not kept. Each access to
  shared state that a mutex, a database transaction or a channel guards is one atomic
  section; the section that joins the wait table also reads the head and the counter, which
  in Go are two reads under the table's lock (a block counted or added between them cannot
  wake or abort before the lock is released). A channel is a number, drawn from a counter;
  closing one twice is a panic. A thread that panics stops; the process would end with it.
  The retry loop is bounded by \<open>retryLimit\<close> (at most six attempts, by a termination
  measure); waiting for the node may not end and is a partial function, with the theorem
  that says exactly when it does.

  The memory monitor is a partial function too. The \<open>errgroup\<close> that runs the goroutines is
  a parameter with its documented contract \<open>errgroup_ok\<close>.

  Not modelled: cobra's parsing of arguments (a parameter, \<open>cobra_ok\<close>), what the SDK's router and CORS middleware do,
  the asserter, the copying of the node's output in time (only its text). The SDK, the database,
  the JSON codec, the operating system's processes and the network are parameters.
\<close>

end
